theory Spec2Isabelle
  imports Main "HOL-Library.Word" "HOL-Library.Monad_Syntax"
begin

section \<open>The thread-control core of the JDWP agent (threadControl.c)\<close>

text \<open>
  The embedding follows \<^verbatim>\<open>src/jdk.jdwp.agent/share/native/libjdwp/threadControl.c\<close>.
  \<^item> A \<^verbatim>\<open>ThreadNode\<close> is a record; nodes live in a store from addresses to nodes, and a
    \<^verbatim>\<open>ThreadNode *\<close> is an address. The three doubly linked lists are lists of addresses,
    head first (the \<^verbatim>\<open>next\<close>/\<^verbatim>\<open>prev\<close> links are the list order).
  \<^item> \<^verbatim>\<open>jint\<close> is a 32-bit word and \<^verbatim>\<open>jlong\<close> a 64-bit word; comparisons read them signed.
  \<^item> A Java object reference is a natural number, \<open>0\<close> is \<^verbatim>\<open>NULL\<close>, and two references
    denote the same object iff they are equal (\<^verbatim>\<open>isSameObject\<close>).
  \<^item> Every call that leaves the module (JVMTI, JNI, the monitors, the other agent
    modules) is appended to the \<open>trace\<close> of the state. What the callee answers is
    not decided by this module: it is read from the \<open>gdata\<close> parameter, as a function of
    the calls made so far and of the call.
  \<^item> \<^verbatim>\<open>EXIT_ERROR\<close> ends the process: a function that reaches it returns \<open>None\<close>. So does
    the dereference of an address that holds no node, and so does the sum \<^verbatim>\<open>fnum+1\<close> of
    \<^verbatim>\<open>threadControl_popFrames\<close> when it overflows, which C leaves undefined.
  \<^item> The increments and decrements of the counters (\<^verbatim>\<open>suspendCount\<close>, \<^verbatim>\<open>suspendAllCount\<close>,
    \<^verbatim>\<open>frameGeneration\<close>) are those of the words; in C the step past the greatest value of
    a signed counter is undefined.
  \<^item> \<^verbatim>\<open>JDI_ASSERT\<close>, \<^verbatim>\<open>LOG_MISC\<close> and \<^verbatim>\<open>log_debugee_location\<close> only report; they are left out.
\<close>

subsection \<open>Types\<close>

type_synonym jint = "32 word"
type_synonym jlong = "64 word"
type_synonym jobject = nat
type_synonym jthread = jobject
type_synonym jclass = jobject
type_synonym jmethodID = nat
type_synonym jlocation = jlong
type_synonym addr = nat

text \<open>The error codes this file names; their numbers are in headers outside the sources.\<close>

datatype jvmtiError =
    JVMTI_ERROR_NONE
  | JVMTI_ERROR_INVALID_THREAD
  | JVMTI_ERROR_THREAD_SUSPENDED
  | JVMTI_ERROR_THREAD_NOT_ALIVE
  | AGENT_ERROR_INTERNAL
  | AGENT_ERROR_INVALID_THREAD
  | AGENT_ERROR_OUT_OF_MEMORY
  | AGENT_ERROR_NO_MORE_FRAMES
  | AGENT_ERROR_NULL_POINTER
  | JVMTI_ERROR_OTHER nat

text \<open>\<^verbatim>\<open>EventIndex\<close>; \<open>EI_NONE\<close> is the value 0 that \<^verbatim>\<open>HANDLING_EVENT\<close> and \<^verbatim>\<open>cleInfo.ei\<close> test.\<close>

datatype EventIndex =
    EI_NONE
  | EI_SINGLE_STEP
  | EI_BREAKPOINT
  | EI_EXCEPTION
  | EI_FIELD_ACCESS
  | EI_FIELD_MODIFICATION
  | EI_METHOD_ENTRY
  | EI_METHOD_EXIT
  | EI_THREAD_START
  | EI_THREAD_END
  | EI_VIRTUAL_THREAD_START
  | EI_VIRTUAL_THREAD_END
  | EI_OTHER nat

datatype jvmtiEventMode = JVMTI_ENABLE | JVMTI_DISABLE

text \<open>A \<^verbatim>\<open>ThreadList *\<close>: the address of one of the three static lists.\<close>

datatype ThreadList = L_runningThreads | L_otherThreads | L_runningVThreads

datatype monitor =
    threadLock
  | popFrameEventLock
  | popFrameProceedLock
  | eventHandler_lock
  | invoker_lock
  | eventHelper_lock
  | stepControl_lock
  | commonRef_lock

text \<open>The calls that leave the module.\<close>

datatype call =
    SuspendThread jthread
  | ResumeThread jthread
  | SuspendThreadList "jthread list"
  | ResumeThreadList "jthread list"
  | SuspendAllVirtualThreads "jthread list"
  | ResumeAllVirtualThreads "jthread list"
  | GetThreadState jthread
  | GetThreadLocalStorage jthread
  | SetThreadLocalStorage jthread "addr option"
  | SetEventNotificationMode jvmtiEventMode EventIndex jthread
  | PopFrame jthread
  | InterruptThread jthread
  | StopThread jthread jobject
  | jvmtiAllocate nat
  | jvmtiDeallocate
  | NewGlobalRef jobject
  | DeleteGlobalRef jobject
  | addDebugThreadToCheckpointState jthread
  | removeDebugThreadFromCheckpointState jthread
  | eventHelper_createEventBag
  | bagDestroyBag nat
  | stepControl_clearRequest jthread
  | stepControl_resetRequest jthread
  | invoker_isEnabled jthread
  | invoker_enableInvokeRequests jthread
  | allThreads
  | commonRef_pinAll
  | commonRef_unpinAll
  | unblockCommandLoop
  | eventHandler_waitForActiveCallbacks
  | debugMonitorCreate monitor
  | debugMonitorEnter monitor
  | debugMonitorExit monitor
  | debugMonitorNotifyAll monitor
  | debugMonitorNotify monitor
  | debugMonitorWait monitor

record CoLocatedEventInfo =
  cle_ei :: EventIndex
  cle_clazz :: jclass
  cle_method :: jmethodID
  cle_location :: jlocation

text \<open>
  \<^verbatim>\<open>struct ThreadNode\<close>. \<^verbatim>\<open>currentStep\<close> and \<^verbatim>\<open>currentInvoke\<close> are records of other
  modules that this file only hands out by address; they carry no field here.
  \<^verbatim>\<open>next\<close> and \<^verbatim>\<open>prev\<close> are the order of the list the node is in.
\<close>

record ThreadNode =
  thread :: jthread
  toBeResumed :: bool
  pendingInterrupt :: bool
  isDebugThread :: bool
  suspendOnStart :: bool
  isStarted :: bool
  is_vthread :: bool
  popFrameEvent :: bool
  popFrameProceed :: bool
  popFrameThread :: bool
  current_ei :: EventIndex
  pendingStop :: jobject
  suspendCount :: jint
  instructionStepMode :: jvmtiEventMode
  eventBag :: nat
  cleInfo :: CoLocatedEventInfo
  frameGeneration :: jlong
  list :: "ThreadList option"

record DeferredEventMode =
  dem_ei :: EventIndex
  dem_mode :: jvmtiEventMode
  dem_thread :: jthread

text \<open>
  The static variables of the file, the store of nodes, the thread-local slot of every
  thread (kept by the runtime, written through \<^verbatim>\<open>SetThreadLocalStorage\<close>) and the trace.
  \<^verbatim>\<open>debugThreadCount\<close> is the length of \<open>debugThreads\<close>.
\<close>

record tc_state =
  heap :: "addr \<rightharpoonup> ThreadNode"
  next_node :: addr
  runningThreads :: "addr list"
  otherThreads :: "addr list"
  runningVThreads :: "addr list"
  numRunningVThreads :: jint
  suspendAllCount :: jint
  debugThreads :: "jthread list"
  deferredEventModes :: "DeferredEventMode list"
  popFrameLocksCreated :: bool
  tls :: "jthread \<rightharpoonup> addr"
  trace :: "call list"

text \<open>
  What the module reads from \<^verbatim>\<open>gdata\<close> and from the runtime behind it. \<open>jvmti\<close> gives
  the error code of a call, \<open>thread_state\<close> the state bits \<^verbatim>\<open>GetThreadState\<close> writes,
  \<open>list_results\<close> the \<^verbatim>\<open>results\<close> array of the two list primitives, \<open>all_threads\<close>
  the array \<^verbatim>\<open>allThreads\<close> returns (\<open>None\<close> is \<^verbatim>\<open>NULL\<close>), \<open>new_bag\<close> the bag
  \<^verbatim>\<open>eventHelper_createEventBag\<close> returns (\<open>0\<close> is \<^verbatim>\<open>NULL\<close>); each depends on the calls
  made before; \<open>invoker_enabled\<close> is what \<^verbatim>\<open>invoker_isEnabled\<close> answers, and
  \<open>other_threads\<close> is what the other threads have done to the state when a
  \<^verbatim>\<open>debugMonitorWait\<close> of this thread returns. \<^verbatim>\<open>jvmtiAllocate\<close> carries the number of elements asked for and returns
  \<^verbatim>\<open>NULL\<close> when its code is not \<^verbatim>\<open>JVMTI_ERROR_NONE\<close>; \<^verbatim>\<open>NewGlobalRef\<close> likewise.
  \<open>J9VM_OPT_CRIU_SUPPORT\<close> is the compile-time switch of \<^verbatim>\<open>j9cfg.h\<close>.
\<close>

record gdata =
  jvmti :: "call list \<Rightarrow> call \<Rightarrow> jvmtiError"
  thread_state :: "call list \<Rightarrow> jthread \<Rightarrow> jint"
  list_results :: "call list \<Rightarrow> call \<Rightarrow> jvmtiError list"
  all_threads :: "call list \<Rightarrow> jthread list option"
  new_bag :: "call list \<Rightarrow> nat"
  invoker_enabled :: "call list \<Rightarrow> jthread \<Rightarrow> bool"
  other_threads :: "tc_state \<Rightarrow> tc_state"
  isVThread :: "jthread \<Rightarrow> bool"
  J9VM_OPT_CRIU_SUPPORT :: bool
  vthreadsSupported :: bool
  jvmtiCallBacksCleared :: bool
  rememberVThreadsWhenDisconnected :: bool

subsection \<open>Calls out of the module\<close>

definition emit :: "call \<Rightarrow> tc_state \<Rightarrow> tc_state" where
  "emit c s = s\<lparr>trace := trace s @ [c]\<rparr>"

definition jvmti_call :: "gdata \<Rightarrow> call \<Rightarrow> tc_state \<Rightarrow> jvmtiError \<times> tc_state" where
  "jvmti_call g c s = (jvmti g (trace s) c, emit c s)"

definition set_node :: "addr \<Rightarrow> ThreadNode \<Rightarrow> tc_state \<Rightarrow> tc_state" where
  "set_node a n s = s\<lparr>heap := (heap s)(a \<mapsto> n)\<rparr>"

subsection \<open>Suspending and resuming one node\<close>

text \<open>\<^verbatim>\<open>commonSuspendByNode\<close>: the primitive, and \<^verbatim>\<open>toBeResumed\<close> only if it succeeded.\<close>

definition commonSuspendByNode :: "gdata \<Rightarrow> addr \<Rightarrow> tc_state \<Rightarrow> (jvmtiError \<times> tc_state) option" where
  "commonSuspendByNode g node s = do {
     n \<leftarrow> heap s node;
     let (error, s1) = jvmti_call g (SuspendThread (thread n)) s;
     let s2 = (if error = JVMTI_ERROR_NONE then set_node node (n\<lparr>toBeResumed := True\<rparr>) s1 else s1);
     Some (error, s2)
   }"

text \<open>\<^verbatim>\<open>deferredSuspendThreadByNode\<close>\<close>

definition deferredSuspendThreadByNode :: "gdata \<Rightarrow> addr \<Rightarrow> tc_state \<Rightarrow> (jvmtiError \<times> tc_state) option" where
  "deferredSuspendThreadByNode g node s = do {
     n \<leftarrow> heap s node;
     if isDebugThread n then Some (JVMTI_ERROR_NONE, s)
     else do {
       (error, s1) \<leftarrow>
         (if 0 < sint (suspendCount n) then do {
            (error, s1) \<leftarrow> commonSuspendByNode g node s;
            n1 \<leftarrow> heap s1 node;
            let s2 = (if error \<noteq> JVMTI_ERROR_NONE
                      then set_node node (n1\<lparr>suspendCount := suspendCount n1 - 1\<rparr>) s1 else s1);
            Some (error, s2)
          } else Some (JVMTI_ERROR_NONE, s));
       n2 \<leftarrow> heap s1 node;
       let s3 = set_node node (n2\<lparr>suspendOnStart := False\<rparr>) s1;
       Some (error, emit (debugMonitorNotifyAll threadLock) s3)
     }
   }"

text \<open>\<^verbatim>\<open>suspendThreadByNode\<close>\<close>

definition suspendThreadByNode :: "gdata \<Rightarrow> addr \<Rightarrow> tc_state \<Rightarrow> (jvmtiError \<times> tc_state) option" where
  "suspendThreadByNode g node s = do {
     n \<leftarrow> heap s node;
     if isDebugThread n then Some (JVMTI_ERROR_NONE, s)
     else if suspendOnStart n then
       Some (JVMTI_ERROR_NONE, set_node node (n\<lparr>suspendCount := suspendCount n + 1\<rparr>) s)
     else do {
       (error, s1) \<leftarrow>
         (if suspendCount n = 0 then do {
            (error, s1) \<leftarrow> commonSuspendByNode g node s;
            n1 \<leftarrow> heap s1 node;
            if error = JVMTI_ERROR_THREAD_NOT_ALIVE
            then Some (JVMTI_ERROR_NONE, set_node node (n1\<lparr>suspendOnStart := True\<rparr>) s1)
            else Some (error, s1)
          } else Some (JVMTI_ERROR_NONE, s));
       n2 \<leftarrow> heap s1 node;
       let s2 = (if error = JVMTI_ERROR_NONE
                 then set_node node (n2\<lparr>suspendCount := suspendCount n2 + 1\<rparr>) s1 else s1);
       Some (error, emit (debugMonitorNotifyAll threadLock) s2)
     }
   }"

text \<open>\<^verbatim>\<open>resumeThreadByNode\<close>\<close>

definition resumeThreadByNode :: "gdata \<Rightarrow> addr \<Rightarrow> tc_state \<Rightarrow> (jvmtiError \<times> tc_state) option" where
  "resumeThreadByNode g node s = do {
     n \<leftarrow> heap s node;
     if isDebugThread n then Some (JVMTI_ERROR_NONE, s)
     else if 0 < sint (suspendCount n) then do {
       let n1 = n\<lparr>suspendCount := suspendCount n - 1\<rparr>;
       let s1 = emit (debugMonitorNotifyAll threadLock) (set_node node n1 s);
       if suspendCount n1 = 0 \<and> toBeResumed n1 then do {
         let (error, s2) = jvmti_call g (ResumeThread (thread n1)) s1;
         let n2 = n1\<lparr>frameGeneration := frameGeneration n1 + 1, toBeResumed := False\<rparr>;
         let s3 = set_node node n2 s2;
         if error = JVMTI_ERROR_THREAD_NOT_ALIVE \<and> \<not> isStarted n2
         then Some (JVMTI_ERROR_NONE, s3)
         else Some (error, s3)
       } else Some (JVMTI_ERROR_NONE, s1)
     } else Some (JVMTI_ERROR_NONE, s)
   }"


subsection \<open>A zeroed node and a first state, for concrete runs\<close>

text \<open>The node after \<^verbatim>\<open>memset(node, 0, sizeof(*node))\<close>.\<close>

definition zero_node :: ThreadNode where
  "zero_node = \<lparr> thread = 0, toBeResumed = False, pendingInterrupt = False,
     isDebugThread = False, suspendOnStart = False, isStarted = False, is_vthread = False,
     popFrameEvent = False, popFrameProceed = False, popFrameThread = False,
     current_ei = EI_NONE, pendingStop = 0, suspendCount = 0,
     instructionStepMode = JVMTI_DISABLE, eventBag = 0,
     cleInfo = \<lparr> cle_ei = EI_NONE, cle_clazz = 0, cle_method = 0, cle_location = 0 \<rparr>,
     frameGeneration = 0, list = None \<rparr>"

text \<open>
  \<^verbatim>\<open>threadControl_initialize\<close>: the counts are 0 and the lists empty. The other static
  variables have the zero value C gives them; no node is allocated and no slot is set.
\<close>

definition threadControl_initialize :: tc_state where
  "threadControl_initialize = emit (debugMonitorCreate threadLock)
     \<lparr> heap = Map.empty, next_node = 1, runningThreads = [], otherThreads = [],
       runningVThreads = [], numRunningVThreads = 0, suspendAllCount = 0, debugThreads = [],
       deferredEventModes = [], popFrameLocksCreated = False, tls = Map.empty, trace = [] \<rparr>"

text \<open>A runtime in which every call succeeds and every thread is a live platform thread.\<close>

definition g_ok :: gdata where
  "g_ok = \<lparr> jvmti = (\<lambda>tr c. JVMTI_ERROR_NONE), thread_state = (\<lambda>tr t. 1),
     list_results = (\<lambda>tr c. []), all_threads = (\<lambda>tr. Some []), new_bag = (\<lambda>tr. 1),
     invoker_enabled = (\<lambda>tr t. False), other_threads = (\<lambda>s. s),
     isVThread = (\<lambda>t. False), J9VM_OPT_CRIU_SUPPORT = False,
     vthreadsSupported = True, jvmtiCallBacksCleared = False,
     rememberVThreadsWhenDisconnected = False \<rparr>"

subsection \<open>Global references\<close>

text \<open>
  Modelled from the spec: \<^verbatim>\<open>saveGlobalRef\<close> and \<^verbatim>\<open>tossGlobalRef\<close> of \<^verbatim>\<open>util.c\<close>, which is not
  among the sources. \<^verbatim>\<open>saveGlobalRef\<close> stores a new global reference to the same object,
  or \<^verbatim>\<open>NULL\<close> when none can be made (the callers in this file test for that);
  \<^verbatim>\<open>tossGlobalRef\<close> deletes the reference and stores \<^verbatim>\<open>NULL\<close>.
\<close>

definition saveGlobalRef :: "gdata \<Rightarrow> jobject \<Rightarrow> tc_state \<Rightarrow> jobject \<times> tc_state" where
  "saveGlobalRef g obj s =
     (let (e, s1) = jvmti_call g (NewGlobalRef obj) s in (if e = JVMTI_ERROR_NONE then obj else 0, s1))"

definition tossGlobalRef :: "jobject \<Rightarrow> tc_state \<Rightarrow> jobject \<times> tc_state" where
  "tossGlobalRef obj s = (0, emit (DeleteGlobalRef obj) s)"

subsection \<open>The thread registry\<close>

definition thread_list :: "ThreadList \<Rightarrow> tc_state \<Rightarrow> addr list" where
  "thread_list l s = (case l of L_runningThreads \<Rightarrow> runningThreads s
     | L_otherThreads \<Rightarrow> otherThreads s | L_runningVThreads \<Rightarrow> runningVThreads s)"

definition set_thread_list :: "ThreadList \<Rightarrow> addr list \<Rightarrow> tc_state \<Rightarrow> tc_state" where
  "set_thread_list l xs s = (case l of L_runningThreads \<Rightarrow> s\<lparr>runningThreads := xs\<rparr>
     | L_otherThreads \<Rightarrow> s\<lparr>otherThreads := xs\<rparr> | L_runningVThreads \<Rightarrow> s\<lparr>runningVThreads := xs\<rparr>)"

text \<open>\<^verbatim>\<open>threadState\<close>: the error code and the state bits.\<close>

definition threadState :: "gdata \<Rightarrow> jthread \<Rightarrow> tc_state \<Rightarrow> (jvmtiError \<times> jint) \<times> tc_state" where
  "threadState g t s = ((jvmti g (trace s) (GetThreadState t), thread_state g (trace s) t),
                        emit (GetThreadState t) s)"

text \<open>
  \<^verbatim>\<open>setThreadLocalStorage\<close>: \<^verbatim>\<open>THREAD_NOT_ALIVE\<close> is accepted when the slot is being cleared,
  any other error is fatal. On success the runtime has stored the pointer.
\<close>

definition setThreadLocalStorage :: "gdata \<Rightarrow> jthread \<Rightarrow> addr option \<Rightarrow> tc_state \<Rightarrow> tc_state option" where
  "setThreadLocalStorage g t node s =
     (let (error, s1) = jvmti_call g (SetThreadLocalStorage t node) s in
      if error = JVMTI_ERROR_THREAD_NOT_ALIVE \<and> node = None then Some s1
      else if error \<noteq> JVMTI_ERROR_NONE then None
      else Some (s1\<lparr>tls := (tls s1)(t := node)\<rparr>))"

text \<open>\<^verbatim>\<open>getThreadLocalStorage\<close>: \<^verbatim>\<open>NULL\<close> for a thread that is not alive, fatal on any other error.\<close>

definition getThreadLocalStorage :: "gdata \<Rightarrow> jthread \<Rightarrow> tc_state \<Rightarrow> (addr option \<times> tc_state) option" where
  "getThreadLocalStorage g t s =
     (let (error, s1) = jvmti_call g (GetThreadLocalStorage t) s in
      if error = JVMTI_ERROR_THREAD_NOT_ALIVE then Some (None, s1)
      else if error \<noteq> JVMTI_ERROR_NONE then None
      else Some (tls s t, s1))"

text \<open>\<^verbatim>\<open>nonTlsSearch\<close>: the first node of the list whose thread is the same object.\<close>

definition nonTlsSearch :: "tc_state \<Rightarrow> ThreadList \<Rightarrow> jthread \<Rightarrow> addr option" where
  "nonTlsSearch s l t =
     find (\<lambda>a. case heap s a of None \<Rightarrow> False | Some n \<Rightarrow> thread n = t) (thread_list l s)"

text \<open>
  The search \<^verbatim>\<open>findThread\<close> makes when the thread-local slot is empty: \<open>otherThreads\<close>,
  and the two running lists only once the JVMTI callbacks have been cleared. The list
  argument \<open>None\<close> is \<^verbatim>\<open>NULL\<close>, that is, all lists.
\<close>

definition findThread_search :: "gdata \<Rightarrow> ThreadList option \<Rightarrow> jthread \<Rightarrow> tc_state \<Rightarrow> addr option" where
  "findThread_search g l t s =
     (let node2 = (if l = None \<or> l = Some L_otherThreads
                   then nonTlsSearch s L_otherThreads t else None)
      in if \<not> jvmtiCallBacksCleared g then node2
         else if node2 = None then
           (let node3 = (if l = None \<or> l = Some L_runningThreads
                         then nonTlsSearch s L_runningThreads t else None)
            in if node3 = None then
                 (if l = None \<or> l = Some L_runningVThreads
                  then nonTlsSearch s L_runningVThreads t else None)
               else node3)
         else node2)"

text \<open>\<^verbatim>\<open>findThread\<close>: the slot first, then the search; a node of another list does not count.\<close>

definition findThread :: "gdata \<Rightarrow> ThreadList option \<Rightarrow> jthread \<Rightarrow> tc_state \<Rightarrow> (addr option \<times> tc_state) option" where
  "findThread g l t s = do {
     (node, s1) \<leftarrow> getThreadLocalStorage g t s;
     let node1 = (if node = None then findThread_search g l t s1 else node);
     case node1 of
       None \<Rightarrow> Some (None, s1)
     | Some a \<Rightarrow> do {
         n \<leftarrow> heap s1 a;
         if l \<noteq> None \<and> list n \<noteq> l then Some (None, s1) else Some (Some a, s1)
       }
   }"

text \<open>\<^verbatim>\<open>findRunningThread\<close>\<close>

definition findRunningThread :: "gdata \<Rightarrow> jthread \<Rightarrow> tc_state \<Rightarrow> (addr option \<times> tc_state) option" where
  "findRunningThread g t s =
     (if isVThread g t then findThread g (Some L_runningVThreads) t s
      else findThread g (Some L_runningThreads) t s)"

text \<open>
  \<^verbatim>\<open>removeNode\<close>: unlink the node from the list it says it is in. A node that is in no
  list and has no predecessor makes the C code write through a null list pointer.
\<close>

definition removeNode :: "addr \<Rightarrow> tc_state \<Rightarrow> tc_state option" where
  "removeNode node s = do {
     n \<leftarrow> heap s node;
     l \<leftarrow> list n;
     let s1 = set_thread_list l (remove1 node (thread_list l s)) s;
     let s2 = set_node node (n\<lparr>list := None\<rparr>) s1;
     Some (if l = L_runningVThreads then s2\<lparr>numRunningVThreads := numRunningVThreads s2 - 1\<rparr> else s2)
   }"

text \<open>\<^verbatim>\<open>addNode\<close>: insertion at the head.\<close>

definition addNode :: "ThreadList \<Rightarrow> addr \<Rightarrow> tc_state \<Rightarrow> tc_state option" where
  "addNode l node s = do {
     n \<leftarrow> heap s node;
     let s1 = set_thread_list l (node # thread_list l s) s;
     let s2 = set_node node (n\<lparr>list := Some l\<rparr>) s1;
     Some (if l = L_runningVThreads then s2\<lparr>numRunningVThreads := numRunningVThreads s2 + 1\<rparr> else s2)
   }"

subsection \<open>The debug threads\<close>

text \<open>\<^verbatim>\<open>MAX_DEBUG_THREADS\<close>\<close>

definition MAX_DEBUG_THREADS :: nat where
  "MAX_DEBUG_THREADS = 10"

text \<open>\<^verbatim>\<open>threadControl_isDebugThread\<close>\<close>

definition threadControl_isDebugThread :: "jthread \<Rightarrow> tc_state \<Rightarrow> bool \<times> tc_state" where
  "threadControl_isDebugThread t s =
     (let s1 = emit (debugMonitorEnter threadLock) s;
          rc = (t \<in> set (debugThreads s1))
      in (rc, emit (debugMonitorExit threadLock) s1))"

text \<open>\<^verbatim>\<open>threadControl_addDebugThread\<close>\<close>

definition threadControl_addDebugThread :: "gdata \<Rightarrow> jthread \<Rightarrow> tc_state \<Rightarrow> jvmtiError \<times> tc_state" where
  "threadControl_addDebugThread g t s =
     (let s1 = emit (debugMonitorEnter threadLock) s;
          (error, s2) =
            (if MAX_DEBUG_THREADS \<le> length (debugThreads s1) then (AGENT_ERROR_OUT_OF_MEMORY, s1)
             else let (e, s2) = jvmti_call g (NewGlobalRef t) s1 in
               if e \<noteq> JVMTI_ERROR_NONE then (AGENT_ERROR_OUT_OF_MEMORY, s2)
               else let s3 = s2\<lparr>debugThreads := debugThreads s2 @ [t]\<rparr> in
                 if J9VM_OPT_CRIU_SUPPORT g then jvmti_call g (addDebugThreadToCheckpointState t) s3
                 else (JVMTI_ERROR_NONE, s3))
      in (error, emit (debugMonitorExit threadLock) s2))"

text \<open>\<^verbatim>\<open>threadControl_removeDebugThread\<close>: the first entry for the thread goes, the rest move up.\<close>

definition threadControl_removeDebugThread :: "gdata \<Rightarrow> jthread \<Rightarrow> tc_state \<Rightarrow> jvmtiError \<times> tc_state" where
  "threadControl_removeDebugThread g t s =
     (let s1 = emit (debugMonitorEnter threadLock) s;
          (error, s2) =
            (if t \<in> set (debugThreads s1) then
               let s2 = emit (DeleteGlobalRef t) s1;
                   s3 = s2\<lparr>debugThreads := remove1 t (debugThreads s2)\<rparr> in
               if J9VM_OPT_CRIU_SUPPORT g then jvmti_call g (removeDebugThreadFromCheckpointState t) s3
               else (JVMTI_ERROR_NONE, s3)
             else (AGENT_ERROR_INVALID_THREAD, s1))
      in (error, emit (debugMonitorExit threadLock) s2))"

subsection \<open>Creating and freeing nodes\<close>

text \<open>The state bit \<^verbatim>\<open>JVMTI_THREAD_STATE_ALIVE\<close> (0x0001 in \<^verbatim>\<open>jvmti.h\<close>).\<close>

definition JVMTI_THREAD_STATE_ALIVE :: jint where
  "JVMTI_THREAD_STATE_ALIVE = 1"

text \<open>
  \<^verbatim>\<open>insertThread\<close>. The new node takes the next free address. Each of the three
  allocations (node, event bag, global reference) is fatal when it fails.
\<close>

definition insertThread :: "gdata \<Rightarrow> ThreadList \<Rightarrow> jthread \<Rightarrow> tc_state \<Rightarrow> (addr \<times> tc_state) option" where
  "insertThread g l t s = do {
     let is_vthread_v = (l = L_runningVThreads);
     (found, s1) \<leftarrow> findThread g (Some l) t s;
     case found of
       Some node \<Rightarrow> Some (node, s1)
     | None \<Rightarrow> do {
         let (e1, s2) = jvmti_call g (jvmtiAllocate 1) s1;
         _ \<leftarrow> (if e1 \<noteq> JVMTI_ERROR_NONE then None else Some ());
         let node = next_node s2;
         let s3 = s2\<lparr>next_node := Suc node\<rparr>;
         let bag = new_bag g (trace s3);
         let s4 = emit eventHelper_createEventBag s3;
         _ \<leftarrow> (if bag = 0 then None else Some ());
         let (r, s5) = saveGlobalRef g t s4;
         _ \<leftarrow> (if r = 0 then None else Some ());
         let n0 = zero_node\<lparr>thread := r\<rparr>;
         (n1, l1, s6) \<leftarrow>
           (if \<not> is_vthread_v then
              (let (dbg, s6) = threadControl_isDebugThread t s5 in
               if dbg then Some (n0\<lparr>isDebugThread := True\<rparr>, l, s6)
               else if 0 < sint (suspendAllCount s6)
                 then Some (n0\<lparr>suspendCount := suspendAllCount s6, suspendOnStart := True\<rparr>, l, s6)
                 else Some (n0, l, s6))
            else
              (let ((error, vthread_state), s6) = threadState g t s5 in
               if error \<noteq> JVMTI_ERROR_NONE then None
               else
                 let l1 = (if and vthread_state JVMTI_THREAD_STATE_ALIVE = 0 then L_otherThreads else l);
                     na = (if 0 < sint (suspendAllCount s6)
                           then (let nb = n0\<lparr>suspendCount := suspendAllCount s6\<rparr>
                                 in if vthread_state = 0 then nb\<lparr>suspendOnStart := True\<rparr> else nb)
                           else n0);
                     nc = (if vthread_state \<noteq> 0 then na\<lparr>isStarted := True\<rparr> else na)
                 in Some (nc, l1, s6)));
         let n2 = n1\<lparr>current_ei := EI_NONE, is_vthread := is_vthread_v,
                     instructionStepMode := JVMTI_DISABLE, eventBag := bag\<rparr>;
         s7 \<leftarrow> addNode l1 node (set_node node n2 s6);
         s8 \<leftarrow> (if l1 \<noteq> L_otherThreads then setThreadLocalStorage g t (Some node) s7 else Some s7);
         Some (node, s8)
       }
   }"

text \<open>\<^verbatim>\<open>clearThread\<close>: release what the node holds and free it.\<close>

definition clearThread :: "gdata \<Rightarrow> addr \<Rightarrow> tc_state \<Rightarrow> tc_state option" where
  "clearThread g node s = do {
     n \<leftarrow> heap s node;
     let s1 = (if pendingStop n \<noteq> 0 then emit (DeleteGlobalRef (pendingStop n)) s else s);
     let s2 = emit (stepControl_clearRequest (thread n)) s1;
     let s3 = (if isDebugThread n then snd (threadControl_removeDebugThread g (thread n) s2) else s2);
     s4 \<leftarrow> setThreadLocalStorage g (thread n) None s3;
     let s5 = emit (bagDestroyBag (eventBag n)) (emit (DeleteGlobalRef (thread n)) s4);
     Some (emit jvmtiDeallocate (s5\<lparr>heap := (heap s5)(node := None)\<rparr>))
   }"

text \<open>\<^verbatim>\<open>removeThread\<close>\<close>

definition removeThread :: "gdata \<Rightarrow> addr \<Rightarrow> tc_state \<Rightarrow> tc_state option" where
  "removeThread g node s = do { s1 \<leftarrow> removeNode node s; clearThread g node s1 }"

text \<open>
  \<^verbatim>\<open>removeResumed\<close>: walk the list, the successor read before the node is freed, and free
  every node whose \<open>suspendCount\<close> is 0.
\<close>

fun removeResumed_from :: "gdata \<Rightarrow> addr list \<Rightarrow> tc_state \<Rightarrow> tc_state option" where
  "removeResumed_from g [] s = Some s"
| "removeResumed_from g (node # rest) s = do {
     n \<leftarrow> heap s node;
     s1 \<leftarrow> (if suspendCount n = 0 then removeThread g node s else Some s);
     removeResumed_from g rest s1
   }"

definition removeResumed :: "gdata \<Rightarrow> ThreadList \<Rightarrow> tc_state \<Rightarrow> tc_state option" where
  "removeResumed g l s = removeResumed_from g (thread_list l s) s"

text \<open>\<^verbatim>\<open>removeVThreads\<close>\<close>

fun removeVThreads_from :: "gdata \<Rightarrow> addr list \<Rightarrow> tc_state \<Rightarrow> tc_state option" where
  "removeVThreads_from g [] s = Some s"
| "removeVThreads_from g (node # rest) s = do {
     s1 \<leftarrow> removeNode node s;
     s2 \<leftarrow> clearThread g node s1;
     removeVThreads_from g rest s2
   }"

definition removeVThreads :: "gdata \<Rightarrow> tc_state \<Rightarrow> tc_state option" where
  "removeVThreads g s = removeVThreads_from g (runningVThreads s) s"

text \<open>\<^verbatim>\<open>moveNode\<close>\<close>

definition moveNode :: "ThreadList \<Rightarrow> ThreadList \<Rightarrow> addr \<Rightarrow> tc_state \<Rightarrow> tc_state option" where
  "moveNode source dest node s = do { s1 \<leftarrow> removeNode node s; addNode dest node s1 }"

text \<open>
  \<^verbatim>\<open>enumerateOverThreadList\<close>: call the function on every node of the list, stopping at the
  first error. The \<^verbatim>\<open>void *arg\<close> points at a variable of the caller that the function may
  update; here the function takes its value and returns the new one.
\<close>

fun enumerate_from :: "(addr \<Rightarrow> 'a \<Rightarrow> tc_state \<Rightarrow> (jvmtiError \<times> 'a \<times> tc_state) option)
    \<Rightarrow> addr list \<Rightarrow> 'a \<Rightarrow> tc_state \<Rightarrow> (jvmtiError \<times> 'a \<times> tc_state) option" where
  "enumerate_from f [] arg s = Some (JVMTI_ERROR_NONE, arg, s)"
| "enumerate_from f (node # rest) arg s = do {
     (error, arg1, s1) \<leftarrow> f node arg s;
     if error \<noteq> JVMTI_ERROR_NONE then Some (error, arg1, s1)
     else enumerate_from f rest arg1 s1
   }"

definition enumerateOverThreadList :: "ThreadList
    \<Rightarrow> (addr \<Rightarrow> 'a \<Rightarrow> tc_state \<Rightarrow> (jvmtiError \<times> 'a \<times> tc_state) option)
    \<Rightarrow> 'a \<Rightarrow> tc_state \<Rightarrow> (jvmtiError \<times> 'a \<times> tc_state) option" where
  "enumerateOverThreadList l f arg s = enumerate_from f (thread_list l s) arg s"

subsection \<open>The lock order\<close>

text \<open>
  \<^verbatim>\<open>getLocks\<close> and \<^verbatim>\<open>releaseLocks\<close>. The locks of the other modules are entered through
  their own \<^verbatim>\<open>_lock\<close> functions; the trace records them as monitor entries.
\<close>

definition getLocks :: "tc_state \<Rightarrow> tc_state" where
  "getLocks s = emit (debugMonitorEnter threadLock) (emit (debugMonitorEnter commonRef_lock)
     (emit (debugMonitorEnter stepControl_lock) (emit (debugMonitorEnter eventHelper_lock)
     (emit (debugMonitorEnter invoker_lock) (emit (debugMonitorEnter eventHandler_lock) s)))))"

definition releaseLocks :: "tc_state \<Rightarrow> tc_state" where
  "releaseLocks s = emit (debugMonitorExit eventHandler_lock) (emit (debugMonitorExit invoker_lock)
     (emit (debugMonitorExit eventHelper_lock) (emit (debugMonitorExit stepControl_lock)
     (emit (debugMonitorExit commonRef_lock) (emit (debugMonitorExit threadLock) s)))))"

definition preSuspend :: "tc_state \<Rightarrow> tc_state" where
  "preSuspend s = getLocks s"

definition postSuspend :: "tc_state \<Rightarrow> tc_state" where
  "postSuspend s = releaseLocks s"

text \<open>\<^verbatim>\<open>threadControl_onHook\<close>: every thread that exists already is entered as running and started.\<close>

fun onHook_loop :: "gdata \<Rightarrow> jthread list \<Rightarrow> tc_state \<Rightarrow> tc_state option" where
  "onHook_loop g [] s = Some s"
| "onHook_loop g (t # rest) s = do {
     (node, s1) \<leftarrow> insertThread g L_runningThreads t s;
     n \<leftarrow> heap s1 node;
     onHook_loop g rest (set_node node (n\<lparr>isStarted := True\<rparr>) s1)
   }"

definition threadControl_onHook :: "gdata \<Rightarrow> tc_state \<Rightarrow> tc_state option" where
  "threadControl_onHook g s = do {
     let s1 = emit (debugMonitorEnter threadLock) s;
     let threads = all_threads g (trace s1);
     let s2 = emit allThreads s1;
     ts \<leftarrow> threads;
     s3 \<leftarrow> onHook_loop g ts s2;
     Some (emit (debugMonitorExit threadLock) (emit jvmtiDeallocate s3))
   }"

subsection \<open>Suspending and resuming by thread\<close>

text \<open>\<^verbatim>\<open>commonSuspend\<close>\<close>

definition commonSuspend :: "gdata \<Rightarrow> jthread \<Rightarrow> bool \<Rightarrow> tc_state \<Rightarrow> (jvmtiError \<times> tc_state) option" where
  "commonSuspend g t deferred s = do {
     (found, s1) \<leftarrow> findRunningThread g t s;
     (node, s2) \<leftarrow> (case found of
         Some node \<Rightarrow> Some (node, s1)
       | None \<Rightarrow> if isVThread g t then insertThread g L_runningVThreads t s1
                 else insertThread g L_otherThreads t s1);
     if deferred then deferredSuspendThreadByNode g node s2
     else suspendThreadByNode g node s2
   }"

text \<open>
  \<^verbatim>\<open>resumeCopyHelper\<close>. The argument is \<open>None\<close> for \<^verbatim>\<open>NULL\<close>; otherwise it holds the
  entries written so far through the moving pointer into the request array.
\<close>

definition resumeCopyHelper :: "addr \<Rightarrow> jthread list option \<Rightarrow> tc_state
    \<Rightarrow> (jvmtiError \<times> jthread list option \<times> tc_state) option" where
  "resumeCopyHelper node arg s = do {
     n \<leftarrow> heap s node;
     if isDebugThread n then Some (JVMTI_ERROR_NONE, arg, s)
     else if 1 < sint (suspendCount n) then
       Some (JVMTI_ERROR_NONE, arg, set_node node (n\<lparr>suspendCount := suspendCount n - 1\<rparr>) s)
     else if suspendCount n = 1 \<and> suspendOnStart n then
       Some (JVMTI_ERROR_NONE, arg, set_node node (n\<lparr>suspendCount := suspendCount n - 1\<rparr>) s)
     else case arg of
         None \<Rightarrow> Some (JVMTI_ERROR_NONE, arg, s)
       | Some listPtr \<Rightarrow>
           if suspendCount n = 1 \<and> toBeResumed n
           then Some (JVMTI_ERROR_NONE, Some (listPtr @ [thread n]), s)
           else Some (JVMTI_ERROR_NONE, arg, s)
   }"

text \<open>\<^verbatim>\<open>resumeCountHelper\<close>\<close>

definition resumeCountHelper :: "addr \<Rightarrow> jint \<Rightarrow> tc_state \<Rightarrow> (jvmtiError \<times> jint \<times> tc_state) option" where
  "resumeCountHelper node counter s = do {
     n \<leftarrow> heap s node;
     if isDebugThread n then Some (JVMTI_ERROR_NONE, counter, s)
     else if suspendCount n = 1 \<and> toBeResumed n then Some (JVMTI_ERROR_NONE, counter + 1, s)
     else Some (JVMTI_ERROR_NONE, counter, s)
   }"

text \<open>
  \<^verbatim>\<open>newArray\<close> gives \<open>length\<close> zeroed entries, or \<^verbatim>\<open>NULL\<close>. \<open>array_of\<close> is such an array
  after the entries \<open>xs\<close> were written from its start; \<open>zero\<close> is the zero of the
  entry type.
\<close>

definition newArray :: "gdata \<Rightarrow> nat \<Rightarrow> tc_state \<Rightarrow> bool \<times> tc_state" where
  "newArray g len s = (let (e, s1) = jvmti_call g (jvmtiAllocate len) s in (e = JVMTI_ERROR_NONE, s1))"

definition array_of :: "nat \<Rightarrow> 'a \<Rightarrow> 'a list \<Rightarrow> 'a list" where
  "array_of len zero xs = take len (xs @ replicate len zero)"

text \<open>The loop of \<^verbatim>\<open>commonResumeList\<close> after the call of \<^verbatim>\<open>ResumeThreadList\<close>.\<close>

fun commonResumeList_loop :: "gdata \<Rightarrow> jthread list \<Rightarrow> tc_state \<Rightarrow> tc_state option" where
  "commonResumeList_loop g [] s = Some s"
| "commonResumeList_loop g (t # rest) s = do {
     (found, s1) \<leftarrow> findRunningThread g t s;
     node \<leftarrow> found;
     n \<leftarrow> heap s1 node;
     let s2 = set_node node (n\<lparr>suspendCount := suspendCount n - 1, toBeResumed := False,
                                frameGeneration := frameGeneration n + 1\<rparr>) s1;
     commonResumeList_loop g rest s2
   }"

text \<open>\<^verbatim>\<open>commonResumeList\<close>\<close>

definition commonResumeList :: "gdata \<Rightarrow> tc_state \<Rightarrow> (jvmtiError \<times> tc_state) option" where
  "commonResumeList g s = do {
     (_, reqCnt0, s1) \<leftarrow> enumerateOverThreadList L_runningThreads resumeCountHelper 0 s;
     (_, reqCnt, s2) \<leftarrow> enumerateOverThreadList L_runningVThreads resumeCountHelper reqCnt0 s1;
     if reqCnt = 0 then do {
       (_, _, s3) \<leftarrow> enumerateOverThreadList L_runningThreads resumeCopyHelper None s2;
       (_, _, s4) \<leftarrow> enumerateOverThreadList L_runningVThreads resumeCopyHelper None s3;
       Some (JVMTI_ERROR_NONE, s4)
     } else do {
       let (ok1, s3) = newArray g (unat reqCnt) s2;
       _ \<leftarrow> (if ok1 then Some () else None);
       let (ok2, s4) = newArray g (unat reqCnt) s3;
       _ \<leftarrow> (if ok2 then Some () else None);
       (_, reqPtr0, s5) \<leftarrow> enumerateOverThreadList L_runningThreads resumeCopyHelper (Some []) s4;
       (_, reqPtr, s6) \<leftarrow> enumerateOverThreadList L_runningVThreads resumeCopyHelper reqPtr0 s5;
       written \<leftarrow> reqPtr;
       let reqList = array_of (unat reqCnt) 0 written;
       let results = array_of (unat reqCnt) JVMTI_ERROR_NONE
                       (list_results g (trace s6) (ResumeThreadList reqList));
       let (error, s7) = jvmti_call g (ResumeThreadList reqList) s6;
       s8 \<leftarrow> commonResumeList_loop g reqList s7;
       let s9 = emit jvmtiDeallocate (emit jvmtiDeallocate s8);
       Some (error, emit (debugMonitorNotifyAll threadLock) s9)
     }
   }"

text \<open>The first loop of \<^verbatim>\<open>commonSuspendList\<close>: count nested suspends, collect the rest.\<close>

fun commonSuspendList_scan :: "gdata \<Rightarrow> jthread list \<Rightarrow> jthread list \<Rightarrow> tc_state
    \<Rightarrow> (jthread list \<times> tc_state) option" where
  "commonSuspendList_scan g [] reqList s = Some (reqList, s)"
| "commonSuspendList_scan g (t # rest) reqList s = do {
     (found, s1) \<leftarrow> findThread g (Some L_runningThreads) t s;
     (node, s2) \<leftarrow> (case found of Some node \<Rightarrow> Some (node, s1)
                     | None \<Rightarrow> insertThread g L_otherThreads t s1);
     n \<leftarrow> heap s2 node;
     if isDebugThread n then commonSuspendList_scan g rest reqList s2
     else if suspendOnStart n \<or> 0 < sint (suspendCount n) then
       commonSuspendList_scan g rest reqList
         (set_node node (n\<lparr>suspendCount := suspendCount n + 1\<rparr>) s2)
     else if suspendCount n = 0 then commonSuspendList_scan g rest (reqList @ [t]) s2
     else commonSuspendList_scan g rest reqList s2
   }"

text \<open>The second loop of \<^verbatim>\<open>commonSuspendList\<close>: one result for every requested thread.\<close>

fun commonSuspendList_loop :: "gdata \<Rightarrow> jthread list \<Rightarrow> jvmtiError list \<Rightarrow> tc_state \<Rightarrow> tc_state option" where
  "commonSuspendList_loop g (t # rest) (r # results) s = do {
     (found, s1) \<leftarrow> findThread g None t s;
     node \<leftarrow> found;
     n \<leftarrow> heap s1 node;
     let (n1, r1) =
       (if r = JVMTI_ERROR_NONE then (n\<lparr>toBeResumed := True\<rparr>, r)
        else if r = JVMTI_ERROR_THREAD_SUSPENDED then (n, JVMTI_ERROR_NONE)
        else if r = JVMTI_ERROR_THREAD_NOT_ALIVE then (n\<lparr>suspendOnStart := True\<rparr>, JVMTI_ERROR_NONE)
        else (n, r));
     let n2 = (if r1 = JVMTI_ERROR_NONE then n1\<lparr>suspendCount := suspendCount n1 + 1\<rparr> else n1);
     commonSuspendList_loop g rest results (set_node node n2 s1)
   }"
| "commonSuspendList_loop g _ _ s = Some s"

text \<open>\<^verbatim>\<open>commonSuspendList\<close>\<close>

definition commonSuspendList :: "gdata \<Rightarrow> jthread list \<Rightarrow> tc_state \<Rightarrow> (jvmtiError \<times> tc_state) option" where
  "commonSuspendList g initList s = do {
     let (ok, s1) = newArray g (length initList) s;
     _ \<leftarrow> (if ok then Some () else None);
     (reqList, s2) \<leftarrow> commonSuspendList_scan g initList [] s1;
     (error, s5) \<leftarrow>
       (if 0 < length reqList then do {
          let (ok2, s3) = newArray g (length reqList) s2;
          _ \<leftarrow> (if ok2 then Some () else None);
          let results = array_of (length reqList) JVMTI_ERROR_NONE
                          (list_results g (trace s3) (SuspendThreadList reqList));
          let (error, s4) = jvmti_call g (SuspendThreadList reqList) s3;
          s5 \<leftarrow> commonSuspendList_loop g reqList results s4;
          Some (error, emit jvmtiDeallocate s5)
        } else Some (JVMTI_ERROR_NONE, s2));
     Some (error, emit (debugMonitorNotifyAll threadLock) (emit jvmtiDeallocate s5))
   }"

text \<open>\<^verbatim>\<open>commonResume\<close>\<close>

definition commonResume :: "gdata \<Rightarrow> jthread \<Rightarrow> tc_state \<Rightarrow> (jvmtiError \<times> tc_state) option" where
  "commonResume g t s = do {
     (found, s1) \<leftarrow> findThread g None t s;
     case found of
       None \<Rightarrow> Some (JVMTI_ERROR_NONE, s1)
     | Some node \<Rightarrow> resumeThreadByNode g node s1
   }"

text \<open>\<^verbatim>\<open>threadControl_suspendThread\<close>\<close>

definition threadControl_suspendThread :: "gdata \<Rightarrow> jthread \<Rightarrow> bool \<Rightarrow> tc_state \<Rightarrow> (jvmtiError \<times> tc_state) option" where
  "threadControl_suspendThread g t deferred s = do {
     (error, s1) \<leftarrow> commonSuspend g t deferred (preSuspend s);
     Some (error, postSuspend s1)
   }"

text \<open>\<^verbatim>\<open>threadControl_resumeThread\<close>\<close>

definition threadControl_resumeThread :: "gdata \<Rightarrow> jthread \<Rightarrow> bool \<Rightarrow> tc_state \<Rightarrow> (jvmtiError \<times> tc_state) option" where
  "threadControl_resumeThread g t do_unblock s = do {
     let s1 = emit (debugMonitorEnter threadLock) (emit (debugMonitorEnter eventHandler_lock) s);
     (error, s2) \<leftarrow> commonResume g t s1;
     s3 \<leftarrow> removeResumed g L_otherThreads s2;
     let s4 = emit (debugMonitorExit eventHandler_lock) (emit (debugMonitorExit threadLock) s3);
     Some (error, if do_unblock then emit unblockCommandLoop s4 else s4)
   }"

text \<open>
  \<^verbatim>\<open>threadControl_suspendCount\<close>: the status and the count written through the pointer.
  In the branch of an unknown virtual thread the source declares a second variable
  \<^verbatim>\<open>error\<close>; the binding below is local in the same way.
\<close>

definition threadControl_suspendCount :: "gdata \<Rightarrow> jthread \<Rightarrow> tc_state \<Rightarrow> ((jvmtiError \<times> jint) \<times> tc_state) option" where
  "threadControl_suspendCount g t s = do {
     let s1 = emit (debugMonitorEnter threadLock) s;
     (found, s2) \<leftarrow> findRunningThread g t s1;
     (node, s3) \<leftarrow> (if found = None then findThread g (Some L_otherThreads) t s2 else Some (found, s2));
     let error = JVMTI_ERROR_NONE;
     (count, s4) \<leftarrow>
       (case node of
          Some a \<Rightarrow> do { n \<leftarrow> heap s3 a; Some (suspendCount n, s3) }
        | None \<Rightarrow>
            if isVThread g t then
              (let ((error, vthread_state), s4) = threadState g t s3 in
               if error \<noteq> JVMTI_ERROR_NONE then None
               else if vthread_state = 0 then Some (0, s4)
               else Some (suspendAllCount s4, s4))
            else Some (0, s3));
     Some ((error, count), emit (debugMonitorExit threadLock) s4)
   }"

subsection \<open>Suspending and resuming the whole VM\<close>

text \<open>\<^verbatim>\<open>incrementSuspendCountHelper\<close>\<close>

definition incrementSuspendCountHelper :: "addr \<Rightarrow> unit \<Rightarrow> tc_state \<Rightarrow> (jvmtiError \<times> unit \<times> tc_state) option" where
  "incrementSuspendCountHelper node arg s = do {
     n \<leftarrow> heap s node;
     Some (JVMTI_ERROR_NONE, arg,
           set_node node (n\<lparr>toBeResumed := True, suspendCount := suspendCount n + 1\<rparr>) s)
   }"

text \<open>\<^verbatim>\<open>suspendAllHelper\<close>; \<^verbatim>\<open>contains\<close> is membership in the array of all threads.\<close>

definition suspendAllHelper :: "gdata \<Rightarrow> addr \<Rightarrow> jthread list \<Rightarrow> tc_state
    \<Rightarrow> (jvmtiError \<times> jthread list \<times> tc_state) option" where
  "suspendAllHelper g node saArg s = do {
     n \<leftarrow> heap s node;
     if thread n \<notin> set saArg then do {
       (error, s1) \<leftarrow> commonSuspend g (thread n) False s;
       Some (error, saArg, s1)
     } else Some (JVMTI_ERROR_NONE, saArg, s)
   }"

text \<open>\<^verbatim>\<open>threadControl_suspendAll\<close>\<close>

definition threadControl_suspendAll :: "gdata \<Rightarrow> tc_state \<Rightarrow> (jvmtiError \<times> tc_state) option" where
  "threadControl_suspendAll g s = do {
     let s1 = preSuspend s;
     s3 \<leftarrow>
       (if vthreadsSupported g then do {
          s2 \<leftarrow> (if suspendAllCount s1 = 0 then
                   (let (error, sa) = jvmti_call g (SuspendAllVirtualThreads []) s1 in
                    if error \<noteq> JVMTI_ERROR_NONE then None
                    else Some (emit (debugMonitorNotifyAll threadLock) sa))
                 else Some s1);
          (_, _, s3) \<leftarrow> enumerateOverThreadList L_runningVThreads incrementSuspendCountHelper () s2;
          Some s3
        } else Some s1);
     let threads = all_threads g (trace s3);
     let s4 = emit allThreads s3;
     (error, s5) \<leftarrow>
       (case threads of
          None \<Rightarrow> Some (AGENT_ERROR_OUT_OF_MEMORY, s4)
        | Some ts \<Rightarrow> do {
            (error, sa) \<leftarrow> commonSuspendList g ts s4;
            if error \<noteq> JVMTI_ERROR_NONE then Some (error, sa)
            else do {
              (error, _, sb) \<leftarrow> enumerateOverThreadList L_otherThreads (suspendAllHelper g) ts sa;
              if error = JVMTI_ERROR_NONE
              then (let sc = emit commonRef_pinAll sb
                    in Some (error, sc\<lparr>suspendAllCount := suspendAllCount sc + 1\<rparr>))
              else Some (error, sb)
            }
          });
     Some (error, postSuspend (emit jvmtiDeallocate s5))
   }"

text \<open>\<^verbatim>\<open>resumeHelper\<close>\<close>

definition resumeHelper :: "gdata \<Rightarrow> addr \<Rightarrow> unit \<Rightarrow> tc_state \<Rightarrow> (jvmtiError \<times> unit \<times> tc_state) option" where
  "resumeHelper g node ignored s = do {
     (error, s1) \<leftarrow> resumeThreadByNode g node s;
     Some (error, ignored, s1)
   }"

text \<open>\<^verbatim>\<open>excludeCountHelper\<close>\<close>

definition excludeCountHelper :: "addr \<Rightarrow> jint \<Rightarrow> tc_state \<Rightarrow> (jvmtiError \<times> jint \<times> tc_state) option" where
  "excludeCountHelper node counter s = do {
     n \<leftarrow> heap s node;
     if 0 < sint (suspendCount n) then Some (JVMTI_ERROR_NONE, counter + 1, s)
     else Some (JVMTI_ERROR_NONE, counter, s)
   }"

text \<open>\<^verbatim>\<open>excludeCopyHelper\<close>; the argument holds the entries written so far.\<close>

definition excludeCopyHelper :: "addr \<Rightarrow> jthread list \<Rightarrow> tc_state \<Rightarrow> (jvmtiError \<times> jthread list \<times> tc_state) option" where
  "excludeCopyHelper node listPtr s = do {
     n \<leftarrow> heap s node;
     if 0 < sint (suspendCount n) then Some (JVMTI_ERROR_NONE, listPtr @ [thread n], s)
     else Some (JVMTI_ERROR_NONE, listPtr, s)
   }"

text \<open>\<^verbatim>\<open>threadControl_resumeAll\<close>\<close>

definition threadControl_resumeAll :: "gdata \<Rightarrow> tc_state \<Rightarrow> (jvmtiError \<times> tc_state) option" where
  "threadControl_resumeAll g s = do {
     let s1 = emit (debugMonitorEnter threadLock) (emit (debugMonitorEnter eventHandler_lock) s);
     s5 \<leftarrow>
       (if vthreadsSupported g \<and> suspendAllCount s1 = 1 then do {
          (_, excludeCnt, s2) \<leftarrow> enumerateOverThreadList L_runningVThreads excludeCountHelper 0 s1;
          (excludeList, s3) \<leftarrow>
            (if 0 < sint excludeCnt then
               (let (ok, sa) = newArray g (unat excludeCnt) s2 in
                if \<not> ok then None
                else do {
                  (_, written, sb) \<leftarrow> enumerateOverThreadList L_runningVThreads excludeCopyHelper [] sa;
                  Some (array_of (unat excludeCnt) 0 written, sb)
                })
             else Some ([], s2));
          let (error, s4) = jvmti_call g (ResumeAllVirtualThreads excludeList) s3;
          if error \<noteq> JVMTI_ERROR_NONE then None
          else Some (emit (debugMonitorNotifyAll threadLock) s4)
        } else Some s1);
     (error, s6) \<leftarrow> commonResumeList g s5;
     (error, s7) \<leftarrow>
       (if error = JVMTI_ERROR_NONE \<and> otherThreads s6 \<noteq> [] then do {
          (error, _, sa) \<leftarrow> enumerateOverThreadList L_otherThreads (resumeHelper g) () s6;
          sb \<leftarrow> removeResumed g L_otherThreads sa;
          Some (error, sb)
        } else Some (error, s6));
     let s8 = (if 0 < sint (suspendAllCount s7)
               then (let sa = emit commonRef_unpinAll s7
                     in sa\<lparr>suspendAllCount := suspendAllCount sa - 1\<rparr>)
               else s7);
     let s9 = emit (debugMonitorExit eventHandler_lock) (emit (debugMonitorExit threadLock) s8);
     Some (error, emit unblockCommandLoop s9)
   }"

subsection \<open>Reset\<close>

text \<open>\<^verbatim>\<open>resetHelper\<close>\<close>

definition resetHelper :: "gdata \<Rightarrow> addr \<Rightarrow> unit \<Rightarrow> tc_state \<Rightarrow> (jvmtiError \<times> unit \<times> tc_state) option" where
  "resetHelper g node arg s = do {
     n \<leftarrow> heap s node;
     let (n1, s1) =
       (if toBeResumed n
        then (n\<lparr>frameGeneration := frameGeneration n + 1\<rparr>, snd (jvmti_call g (ResumeThread (thread n)) s))
        else (n, s));
     let s2 = emit (stepControl_clearRequest (thread n1)) s1;
     Some (JVMTI_ERROR_NONE, arg,
           set_node node (n1\<lparr>toBeResumed := False, suspendCount := 0, suspendOnStart := False\<rparr>) s2)
   }"

text \<open>\<^verbatim>\<open>freeDeferredEventModes\<close>\<close>

definition freeDeferredEventModes :: "tc_state \<Rightarrow> tc_state" where
  "freeDeferredEventModes s =
     (fold (\<lambda>m s. emit jvmtiDeallocate (emit (DeleteGlobalRef (dem_thread m)) s)) (deferredEventModes s) s)
       \<lparr>deferredEventModes := []\<rparr>"

text \<open>\<^verbatim>\<open>threadControl_reset\<close>\<close>

definition threadControl_reset :: "gdata \<Rightarrow> tc_state \<Rightarrow> tc_state option" where
  "threadControl_reset g s = do {
     let s1 = emit (debugMonitorEnter threadLock) (emit (debugMonitorEnter eventHandler_lock) s);
     s2 \<leftarrow> (if vthreadsSupported g \<and> 0 < sint (suspendAllCount s1) then
              (let (error, sa) = jvmti_call g (ResumeAllVirtualThreads []) s1 in
               if error \<noteq> JVMTI_ERROR_NONE then None else Some sa)
            else Some s1);
     (_, _, s3) \<leftarrow> enumerateOverThreadList L_runningThreads (resetHelper g) () s2;
     (_, _, s4) \<leftarrow> enumerateOverThreadList L_otherThreads (resetHelper g) () s3;
     (_, _, s5) \<leftarrow> enumerateOverThreadList L_runningVThreads (resetHelper g) () s4;
     s6 \<leftarrow> removeResumed g L_otherThreads s5;
     let s7 = (freeDeferredEventModes s6)\<lparr>suspendAllCount := 0\<rparr>;
     let s8 = emit (debugMonitorExit eventHandler_lock) (emit (debugMonitorExit threadLock)
                (emit (debugMonitorNotifyAll threadLock) s7));
     if \<not> rememberVThreadsWhenDisconnected g then do {
       let s9 = emit (debugMonitorEnter threadLock) (emit eventHandler_waitForActiveCallbacks s8);
       s10 \<leftarrow> removeVThreads g s9;
       Some (emit (debugMonitorExit threadLock) s10)
     } else Some s8
   }"

subsection \<open>Co-located events\<close>

text \<open>\<^verbatim>\<open>threadControl_clearCLEInfo\<close>\<close>

definition threadControl_clearCLEInfo :: "gdata \<Rightarrow> jthread \<Rightarrow> tc_state \<Rightarrow> tc_state option" where
  "threadControl_clearCLEInfo g t s = do {
     let s1 = emit (debugMonitorEnter threadLock) s;
     (found, s2) \<leftarrow> findRunningThread g t s1;
     s3 \<leftarrow> (case found of
         None \<Rightarrow> Some s2
       | Some node \<Rightarrow> do {
           n \<leftarrow> heap s2 node;
           let c1 = (cleInfo n)\<lparr>cle_ei := EI_NONE\<rparr>;
           let (c2, sa) = (if cle_clazz c1 \<noteq> 0
                           then (let (r, sa) = tossGlobalRef (cle_clazz c1) s2 in (c1\<lparr>cle_clazz := r\<rparr>, sa))
                           else (c1, s2));
           Some (set_node node (n\<lparr>cleInfo := c2\<rparr>) sa)
         });
     Some (emit (debugMonitorExit threadLock) s3)
   }"

text \<open>\<^verbatim>\<open>threadControl_cmpCLEInfo\<close>\<close>

definition threadControl_cmpCLEInfo :: "gdata \<Rightarrow> jthread \<Rightarrow> jclass \<Rightarrow> jmethodID \<Rightarrow> jlocation
    \<Rightarrow> tc_state \<Rightarrow> (bool \<times> tc_state) option" where
  "threadControl_cmpCLEInfo g t clazz method location s = do {
     let s1 = emit (debugMonitorEnter threadLock) s;
     (found, s2) \<leftarrow> findRunningThread g t s1;
     result \<leftarrow> (case found of
         None \<Rightarrow> Some False
       | Some node \<Rightarrow> do {
           n \<leftarrow> heap s2 node;
           Some (cle_ei (cleInfo n) \<noteq> EI_NONE \<and> cle_method (cleInfo n) = method
                 \<and> cle_location (cleInfo n) = location \<and> cle_clazz (cleInfo n) = clazz)
         });
     Some (result, emit (debugMonitorExit threadLock) s2)
   }"

text \<open>\<^verbatim>\<open>threadControl_saveCLEInfo\<close>\<close>

definition threadControl_saveCLEInfo :: "gdata \<Rightarrow> jthread \<Rightarrow> EventIndex \<Rightarrow> jclass \<Rightarrow> jmethodID \<Rightarrow> jlocation
    \<Rightarrow> tc_state \<Rightarrow> tc_state option" where
  "threadControl_saveCLEInfo g t ei clazz method location s = do {
     let s1 = emit (debugMonitorEnter threadLock) s;
     (found, s2) \<leftarrow> findRunningThread g t s1;
     s3 \<leftarrow> (case found of
         None \<Rightarrow> Some s2
       | Some node \<Rightarrow> do {
           n \<leftarrow> heap s2 node;
           let (r, sa) = saveGlobalRef g clazz s2;
           Some (set_node node (n\<lparr>cleInfo := \<lparr> cle_ei = ei, cle_clazz = r, cle_method = method,
                                               cle_location = location \<rparr>\<rparr>) sa)
         });
     Some (emit (debugMonitorExit threadLock) s3)
   }"

subsection \<open>Event modes\<close>

text \<open>\<^verbatim>\<open>threadControl_getInstructionStepMode\<close>\<close>

definition threadControl_getInstructionStepMode :: "gdata \<Rightarrow> jthread \<Rightarrow> tc_state
    \<Rightarrow> (jvmtiEventMode \<times> tc_state) option" where
  "threadControl_getInstructionStepMode g t s = do {
     let s1 = emit (debugMonitorEnter threadLock) s;
     (found, s2) \<leftarrow> findRunningThread g t s1;
     mode \<leftarrow> (case found of None \<Rightarrow> Some JVMTI_DISABLE
              | Some node \<Rightarrow> do { n \<leftarrow> heap s2 node; Some (instructionStepMode n) });
     Some (mode, emit (debugMonitorExit threadLock) s2)
   }"

text \<open>\<^verbatim>\<open>addDeferredEventMode\<close>, with \<^verbatim>\<open>insertEventMode\<close> at the end of the queue.\<close>

definition addDeferredEventMode :: "gdata \<Rightarrow> jvmtiEventMode \<Rightarrow> EventIndex \<Rightarrow> jthread \<Rightarrow> tc_state
    \<Rightarrow> jvmtiError \<times> tc_state" where
  "addDeferredEventMode g mode ei t s =
     (let (e, s1) = jvmti_call g (jvmtiAllocate 1) s in
      if e \<noteq> JVMTI_ERROR_NONE then (AGENT_ERROR_OUT_OF_MEMORY, s1)
      else let (r, s2) = saveGlobalRef g t s1;
               eventMode = \<lparr> dem_ei = ei, dem_mode = mode, dem_thread = r \<rparr>
           in (JVMTI_ERROR_NONE, s2\<lparr>deferredEventModes := deferredEventModes s2 @ [eventMode]\<rparr>))"

text \<open>\<^verbatim>\<open>threadSetEventNotificationMode\<close>\<close>

definition threadSetEventNotificationMode :: "gdata \<Rightarrow> addr \<Rightarrow> jvmtiEventMode \<Rightarrow> EventIndex \<Rightarrow> jthread
    \<Rightarrow> tc_state \<Rightarrow> (jvmtiError \<times> tc_state) option" where
  "threadSetEventNotificationMode g node mode ei t s = do {
     n \<leftarrow> heap s node;
     let s1 = (if ei = EI_SINGLE_STEP then set_node node (n\<lparr>instructionStepMode := mode\<rparr>) s else s);
     Some (jvmti_call g (SetEventNotificationMode mode ei t) s1)
   }"

text \<open>\<^verbatim>\<open>threadControl_setEventMode\<close>; the thread \<open>0\<close> is \<^verbatim>\<open>NULL\<close>, a global event.\<close>

definition threadControl_setEventMode :: "gdata \<Rightarrow> jvmtiEventMode \<Rightarrow> EventIndex \<Rightarrow> jthread \<Rightarrow> tc_state
    \<Rightarrow> (jvmtiError \<times> tc_state) option" where
  "threadControl_setEventMode g mode ei t s =
     (if t = 0 then Some (jvmti_call g (SetEventNotificationMode mode ei t) s)
      else do {
        let s1 = emit (debugMonitorEnter threadLock) s;
        (found, s2) \<leftarrow> findRunningThread g t s1;
        (error, s3) \<leftarrow> (case found of
            None \<Rightarrow> Some (addDeferredEventMode g mode ei t s2)
          | Some node \<Rightarrow> do {
              n \<leftarrow> heap s2 node;
              if \<not> isStarted n then Some (addDeferredEventMode g mode ei t s2)
              else threadSetEventNotificationMode g node mode ei t s2
            });
        Some (error, emit (debugMonitorExit threadLock) s3)
      })"

subsection \<open>Popping frames\<close>

text \<open>\<^verbatim>\<open>initLocks\<close>: the two monitors are created on the first use.\<close>

definition initLocks :: "tc_state \<Rightarrow> tc_state" where
  "initLocks s =
     (if \<not> popFrameLocksCreated s
      then (emit (debugMonitorCreate popFrameProceedLock) (emit (debugMonitorCreate popFrameEventLock) s))
             \<lparr>popFrameLocksCreated := True\<rparr>
      else s)"

text \<open>\<^verbatim>\<open>setPopFrameThread\<close>\<close>

definition setPopFrameThread :: "gdata \<Rightarrow> jthread \<Rightarrow> bool \<Rightarrow> tc_state \<Rightarrow> tc_state option" where
  "setPopFrameThread g t v s = do {
     (found, s1) \<leftarrow> findThread g None t (emit (debugMonitorEnter threadLock) s);
     node \<leftarrow> found;
     n \<leftarrow> heap s1 node;
     Some (emit (debugMonitorExit threadLock) (set_node node (n\<lparr>popFrameThread := v\<rparr>) s1))
   }"

text \<open>\<^verbatim>\<open>getPopFrameEvent\<close>\<close>

definition getPopFrameEvent :: "gdata \<Rightarrow> jthread \<Rightarrow> tc_state \<Rightarrow> (bool \<times> tc_state) option" where
  "getPopFrameEvent g t s = do {
     (found, s1) \<leftarrow> findThread g None t (emit (debugMonitorEnter threadLock) s);
     node \<leftarrow> found;
     n \<leftarrow> heap s1 node;
     Some (popFrameEvent n, emit (debugMonitorExit threadLock) s1)
   }"

text \<open>\<^verbatim>\<open>setPopFrameEvent\<close>\<close>

definition setPopFrameEvent :: "gdata \<Rightarrow> jthread \<Rightarrow> bool \<Rightarrow> tc_state \<Rightarrow> tc_state option" where
  "setPopFrameEvent g t v s = do {
     (found, s1) \<leftarrow> findThread g None t (emit (debugMonitorEnter threadLock) s);
     node \<leftarrow> found;
     n \<leftarrow> heap s1 node;
     Some (emit (debugMonitorExit threadLock)
             (set_node node (n\<lparr>popFrameEvent := v, frameGeneration := frameGeneration n + 1\<rparr>) s1))
   }"

text \<open>\<^verbatim>\<open>setPopFrameProceed\<close>\<close>

definition setPopFrameProceed :: "gdata \<Rightarrow> jthread \<Rightarrow> bool \<Rightarrow> tc_state \<Rightarrow> tc_state option" where
  "setPopFrameProceed g t v s = do {
     (found, s1) \<leftarrow> findThread g None t (emit (debugMonitorEnter threadLock) s);
     node \<leftarrow> found;
     n \<leftarrow> heap s1 node;
     Some (emit (debugMonitorExit threadLock) (set_node node (n\<lparr>popFrameProceed := v\<rparr>) s1))
   }"

text \<open>
  The wait of \<^verbatim>\<open>popOneFrame\<close>: until the popped thread has set \<^verbatim>\<open>popFrameEvent\<close>. The
  flag is set by another thread, so the loop need not end.
\<close>

partial_function (option) await_popFrameEvent :: "gdata \<Rightarrow> jthread \<Rightarrow> tc_state \<Rightarrow> tc_state option" where
  "await_popFrameEvent g t s = do {
     (ev, s1) \<leftarrow> getPopFrameEvent g t s;
     if ev then Some s1
     else await_popFrameEvent g t (other_threads g (emit (debugMonitorWait popFrameEventLock) s1))
   }"

text \<open>\<^verbatim>\<open>popOneFrame\<close>\<close>

definition popOneFrame :: "gdata \<Rightarrow> jthread \<Rightarrow> tc_state \<Rightarrow> (jvmtiError \<times> tc_state) option" where
  "popOneFrame g t s =
     (let (error, s1) = jvmti_call g (PopFrame t) s in
      if error \<noteq> JVMTI_ERROR_NONE then Some (error, s1)
      else let (error, s2) = jvmti_call g (ResumeThread t) s1 in
        if error \<noteq> JVMTI_ERROR_NONE then Some (error, s2)
        else do {
          s3 \<leftarrow> setPopFrameEvent g t False s2;
          s4 \<leftarrow> await_popFrameEvent g t s3;
          let (error, s5) = jvmti_call g (SuspendThread t) (emit (debugMonitorEnter popFrameProceedLock) s4);
          s6 \<leftarrow> setPopFrameProceed g t True s5;
          Some (error, emit (debugMonitorExit popFrameProceedLock)
                         (emit (debugMonitorNotify popFrameProceedLock) s6))
        })"

text \<open>The loop of \<^verbatim>\<open>threadControl_popFrames\<close>, for the frames still to pop.\<close>

fun popFrames_loop :: "gdata \<Rightarrow> jthread \<Rightarrow> nat \<Rightarrow> tc_state \<Rightarrow> (jvmtiError \<times> tc_state) option" where
  "popFrames_loop g t 0 s = Some (JVMTI_ERROR_NONE, s)"
| "popFrames_loop g t (Suc k) s = do {
     (error, s1) \<leftarrow> popOneFrame g t s;
     if error \<noteq> JVMTI_ERROR_NONE then Some (error, s1) else popFrames_loop g t k s1
   }"

text \<open>
  \<^verbatim>\<open>threadControl_popFrames\<close>; \<^verbatim>\<open>FrameNumber\<close> is a \<^verbatim>\<open>jint\<close>. The sum \<^verbatim>\<open>fnum+1\<close> is a sum of
  signed integers: for the greatest \<^verbatim>\<open>jint\<close> it overflows, and C gives the function no
  meaning from there on (a compiler may test \<^verbatim>\<open>fnum < 0\<close> in place of \<^verbatim>\<open>popCount < 1\<close>),
  so the function has no result for that frame number. For every other frame number
  the sum is the sum of the integers.
\<close>

definition threadControl_popFrames :: "gdata \<Rightarrow> jthread \<Rightarrow> jint \<Rightarrow> tc_state \<Rightarrow> (jvmtiError \<times> tc_state) option" where
  "threadControl_popFrames g t fnum s = do {
     let s1 = initLocks s;
     if 2 ^ 31 \<le> sint fnum + 1 then None
     else do {
       let popCount = fnum + 1;
       if sint popCount < 1 then Some (AGENT_ERROR_NO_MORE_FRAMES, s1)
       else do {
         (prevStepMode, s2) \<leftarrow> threadControl_getInstructionStepMode g t s1;
         let prevInvokeRequestMode = invoker_enabled g (trace s2) t;
         let s3 = emit (invoker_isEnabled t) s2;
         (error, s4) \<leftarrow> threadControl_setEventMode g JVMTI_ENABLE EI_SINGLE_STEP t s3;
         if error \<noteq> JVMTI_ERROR_NONE then Some (error, s4)
         else do {
           s5 \<leftarrow> setPopFrameThread g t True (emit (debugMonitorEnter popFrameEventLock) s4);
           (error, s6) \<leftarrow> popFrames_loop g t (nat (sint popCount)) s5;
           s7 \<leftarrow> setPopFrameThread g t False s6;
           let s8 = emit (debugMonitorExit popFrameEventLock) s7;
           let s9 = (if prevStepMode = JVMTI_ENABLE then emit (stepControl_resetRequest t) s8 else s8);
           let s10 = (if prevInvokeRequestMode then emit (invoker_enableInvokeRequests t) s9 else s9);
           (_, s11) \<leftarrow> threadControl_setEventMode g prevStepMode EI_SINGLE_STEP t s10;
           Some (error, s11)
         }
       }
     }
   }"

subsection \<open>Concrete runtimes, runs and observers\<close>

text \<open>
  A runtime in which every call succeeds; thread 1 is the only platform thread the
  runtime lists, and threads 11 and 12 are live virtual threads (state bits alive and
  runnable).
\<close>

definition g_vt :: gdata where
  "g_vt = \<lparr> jvmti = (\<lambda>tr c. JVMTI_ERROR_NONE), thread_state = (\<lambda>tr t. 5),
     list_results = (\<lambda>tr c. []), all_threads = (\<lambda>tr. Some [1]), new_bag = (\<lambda>tr. 1),
     invoker_enabled = (\<lambda>tr t. False), other_threads = (\<lambda>s. s),
     isVThread = (\<lambda>t. t = 11 \<or> t = 12), J9VM_OPT_CRIU_SUPPORT = False,
     vthreadsSupported = True, jvmtiCallBacksCleared = False,
     rememberVThreadsWhenDisconnected = False \<rparr>"

text \<open>The same runtime, but thread 11 has ended by the time \<^verbatim>\<open>SuspendThread\<close> reaches it.\<close>

definition g_ended :: gdata where
  "g_ended = g_vt\<lparr> jvmti := (\<lambda>tr c. if c = SuspendThread 11 then JVMTI_ERROR_THREAD_NOT_ALIVE
                                       else JVMTI_ERROR_NONE) \<rparr>"

text \<open>The same runtime, listing the platform threads 1 and 9.\<close>

definition g_two :: gdata where
  "g_two = g_vt\<lparr> all_threads := (\<lambda>tr. Some [1, 9]) \<rparr>"

text \<open>The node at an address, and the trace, after a run.\<close>

definition node_of :: "addr \<Rightarrow> ('a \<times> tc_state) option \<Rightarrow> ThreadNode option" where
  "node_of a r = Option.bind r (\<lambda>(x, s). heap s a)"

definition trace_of :: "('a \<times> tc_state) option \<Rightarrow> call list" where
  "trace_of r = (case r of None \<Rightarrow> [] | Some (x, s) \<Rightarrow> trace s)"

text \<open>The suspend and resume primitives of the runtime.\<close>

fun is_primitive :: "call \<Rightarrow> bool" where
  "is_primitive (SuspendThread t) = True"
| "is_primitive (ResumeThread t) = True"
| "is_primitive (SuspendThreadList ts) = True"
| "is_primitive (ResumeThreadList ts) = True"
| "is_primitive (SuspendAllVirtualThreads ts) = True"
| "is_primitive (ResumeAllVirtualThreads ts) = True"
| "is_primitive _ = False"

text \<open>
  Scenario 3 of the specification: the threads that exist are entered, the virtual
  threads 11 and 12 become tracked, the VM is suspended, and thread 11 is suspended once
  more. Then the VM is resumed.
\<close>

definition scenario3_setup :: "(jvmtiError \<times> tc_state) option" where
  "scenario3_setup = do {
     s1 \<leftarrow> threadControl_onHook g_vt threadControl_initialize;
     (_, s2) \<leftarrow> insertThread g_vt L_runningVThreads 11 s1;
     (_, s3) \<leftarrow> insertThread g_vt L_runningVThreads 12 s2;
     (_, s4) \<leftarrow> threadControl_suspendAll g_vt s3;
     threadControl_suspendThread g_vt 11 False s4
   }"

definition scenario3 :: "(jvmtiError \<times> tc_state) option" where
  "scenario3 = do { (_, s) \<leftarrow> scenario3_setup; threadControl_resumeAll g_vt s }"

text \<open>
  A virtual thread that ends while it is being suspended, and a suspension of the VM
  after that.
\<close>

definition ended_suspend :: "(jvmtiError \<times> tc_state) option" where
  "ended_suspend = do {
     s1 \<leftarrow> threadControl_onHook g_ended threadControl_initialize;
     threadControl_suspendThread g_ended 11 False s1
   }"

definition ended_suspendAll :: "(jvmtiError \<times> tc_state) option" where
  "ended_suspendAll = do { (_, s) \<leftarrow> ended_suspend; threadControl_suspendAll g_ended s }"

text \<open>
  A debug thread 9 that the VM-wide suspend meets for the first time, and a resume of
  that thread afterwards.
\<close>

definition debug_suspendAll :: "(jvmtiError \<times> tc_state) option" where
  "debug_suspendAll = do {
     s1 \<leftarrow> threadControl_onHook g_vt threadControl_initialize;
     let (_, s2) = threadControl_addDebugThread g_two 9 s1;
     threadControl_suspendAll g_two s2
   }"

definition debug_resume :: "(jvmtiError \<times> tc_state) option" where
  "debug_resume = do { (_, s) \<leftarrow> debug_suspendAll; threadControl_resumeThread g_two 9 False s }"

text \<open>A state in which the VM is suspended once and thread 9 is a debug thread.\<close>

definition s_suspended :: tc_state where
  "s_suspended = threadControl_initialize\<lparr>suspendAllCount := 1, debugThreads := [9]\<rparr>"

subsection \<open>Predicates of the statements\<close>

text \<open>
  The later state has the trace of the earlier one and then only calls that are not
  suspend or resume primitives.
\<close>

definition quiet_ext :: "tc_state \<Rightarrow> tc_state \<Rightarrow> bool" where
  "quiet_ext s s' = (\<exists>cs. trace s' = trace s @ cs \<and> (\<forall>c\<in>set cs. \<not> is_primitive c))"

text \<open>The lists and the VM-wide count are the same in both states.\<close>

definition same_lists :: "tc_state \<Rightarrow> tc_state \<Rightarrow> bool" where
  "same_lists s s' = (runningThreads s' = runningThreads s \<and> runningVThreads s' = runningVThreads s
     \<and> otherThreads s' = otherThreads s \<and> suspendAllCount s' = suspendAllCount s)"

text \<open>A state with one running platform thread 7 that is not suspended.\<close>

definition s_one :: tc_state where
  "s_one = set_node 1 (zero_node\<lparr>thread := 7, list := Some L_runningThreads\<rparr>)
             (threadControl_initialize\<lparr>runningThreads := [1], tls := [7 \<mapsto> 1]\<rparr>)"

text \<open>The running node that \<^verbatim>\<open>findRunningThread\<close> finds for a thread, if any.\<close>

definition lookup_running :: "gdata \<Rightarrow> jthread \<Rightarrow> tc_state \<Rightarrow> addr option" where
  "lookup_running g t s = Option.bind (findRunningThread g t s) fst"

text \<open>Every thread-local slot that is set points at a node of that thread.\<close>

definition slots_ok :: "tc_state \<Rightarrow> bool" where
  "slots_ok s = (\<forall>t a. tls s t = Some a \<longrightarrow> (case heap s a of None \<Rightarrow> False | Some n \<Rightarrow> thread n = t))"

text \<open>
  Two states have the same slots and lists, and the same nodes up to the fields other
  than \<open>thread\<close> and \<open>list\<close>.
\<close>

definition shape_eq :: "tc_state \<Rightarrow> tc_state \<Rightarrow> bool" where
  "shape_eq s s' = (tls s' = tls s \<and> runningThreads s' = runningThreads s
     \<and> otherThreads s' = otherThreads s \<and> runningVThreads s' = runningVThreads s
     \<and> (\<forall>a. map_option (\<lambda>n. (thread n, list n)) (heap s' a) = map_option (\<lambda>n. (thread n, list n)) (heap s a)))"

text \<open>The calls that write the co-located-event record of a thread.\<close>

datatype cle_op =
    SaveCLE jthread EventIndex jclass jmethodID jlocation
  | ClearCLE jthread

text \<open>A sequence of such calls, made through the functions of the source.\<close>

fun run_cle :: "gdata \<Rightarrow> cle_op list \<Rightarrow> tc_state \<Rightarrow> tc_state option" where
  "run_cle g [] s = Some s"
| "run_cle g (SaveCLE t ei c m l # ops) s = do {
     s1 \<leftarrow> threadControl_saveCLEInfo g t ei c m l s;
     run_cle g ops s1
   }"
| "run_cle g (ClearCLE t # ops) s = do {
     s1 \<leftarrow> threadControl_clearCLEInfo g t s;
     run_cle g ops s1
   }"

text \<open>
  The words of the specification: the record of the most recent \<^verbatim>\<open>saveCLEInfo\<close> on the
  thread, with no \<^verbatim>\<open>clearCLEInfo\<close> on it since; \<open>None\<close> if there is none.
\<close>

fun cle_history :: "jthread \<Rightarrow> cle_op list \<Rightarrow> CoLocatedEventInfo option \<Rightarrow> CoLocatedEventInfo option" where
  "cle_history t [] r = r"
| "cle_history t (SaveCLE t' ei c m l # ops) r =
     cle_history t ops (if t' = t then Some \<lparr> cle_ei = ei, cle_clazz = c, cle_method = m, cle_location = l \<rparr> else r)"
| "cle_history t (ClearCLE t' # ops) r = cle_history t ops (if t' = t then None else r)"

text \<open>
  The words of the specification: the comparison is true iff that record exists, its
  event index is not none, its method and location are the given ones and its class is
  the given object.
\<close>

definition cmpCLEInfo_spec :: "jthread \<Rightarrow> cle_op list \<Rightarrow> jclass \<Rightarrow> jmethodID \<Rightarrow> jlocation \<Rightarrow> bool" where
  "cmpCLEInfo_spec t ops c m l =
     (case cle_history t ops None of
        None \<Rightarrow> False
      | Some r \<Rightarrow> cle_ei r \<noteq> EI_NONE \<and> cle_method r = m \<and> cle_location r = l \<and> cle_clazz r = c)"

text \<open>The record of a node is the given one; \<open>None\<close> stands for no event index.\<close>

definition cle_matches :: "ThreadNode \<Rightarrow> CoLocatedEventInfo option \<Rightarrow> bool" where
  "cle_matches n r = (case r of None \<Rightarrow> cle_ei (cleInfo n) = EI_NONE | Some c \<Rightarrow> cleInfo n = c)"

text \<open>The node is one that \<^verbatim>\<open>commonResumeList\<close> puts on the request list.\<close>

definition hard_resume :: "ThreadNode \<Rightarrow> bool" where
  "hard_resume n = (\<not> isDebugThread n \<and> suspendCount n = 1 \<and> toBeResumed n)"

definition hard_at :: "tc_state \<Rightarrow> addr \<Rightarrow> bool" where
  "hard_at s a = (case heap s a of None \<Rightarrow> False | Some n \<Rightarrow> hard_resume n)"

text \<open>The thread of the node at an address.\<close>

definition thread_at :: "tc_state \<Rightarrow> addr \<Rightarrow> jthread" where
  "thread_at s a = (case heap s a of None \<Rightarrow> 0 | Some n \<Rightarrow> thread n)"

text \<open>What the accounting of \<^verbatim>\<open>resumeCopyHelper\<close> does to a node.\<close>

definition nested_resume :: "ThreadNode \<Rightarrow> ThreadNode" where
  "nested_resume n =
     (if isDebugThread n then n
      else if 1 < sint (suspendCount n) \<or> (suspendCount n = 1 \<and> suspendOnStart n)
      then n\<lparr>suspendCount := suspendCount n - 1\<rparr> else n)"

text \<open>What the loop after \<^verbatim>\<open>ResumeThreadList\<close> does to a node.\<close>

definition resumed :: "ThreadNode \<Rightarrow> ThreadNode" where
  "resumed n = n\<lparr>suspendCount := suspendCount n - 1, toBeResumed := False,
                 frameGeneration := frameGeneration n + 1\<rparr>"

text \<open>
  The two running lists hold distinct nodes; each node is marked as being in its list,
  its thread's slot points at it, and the virtual threads are those of \<open>runningVThreads\<close>.
\<close>

definition running_ok :: "gdata \<Rightarrow> tc_state \<Rightarrow> bool" where
  "running_ok g s = (distinct (runningThreads s @ runningVThreads s)
     \<and> (\<forall>a\<in>set (runningThreads s). case heap s a of None \<Rightarrow> False
            | Some n \<Rightarrow> list n = Some L_runningThreads \<and> tls s (thread n) = Some a \<and> \<not> isVThread g (thread n))
     \<and> (\<forall>a\<in>set (runningVThreads s). case heap s a of None \<Rightarrow> False
            | Some n \<Rightarrow> list n = Some L_runningVThreads \<and> tls s (thread n) = Some a \<and> isVThread g (thread n)))"

text \<open>The state after a function has been applied to the nodes of a list.\<close>

definition upd_nodes :: "(ThreadNode \<Rightarrow> ThreadNode) \<Rightarrow> addr list \<Rightarrow> tc_state \<Rightarrow> tc_state" where
  "upd_nodes f xs s = s\<lparr>heap := (\<lambda>a. if a \<in> set xs then map_option f (heap s a) else heap s a)\<rparr>"

text \<open>A runtime whose list primitives report a failure for the first thread of the list.\<close>

definition g_listfail :: gdata where
  "g_listfail = g_ok\<lparr> list_results := (\<lambda>tr c. [JVMTI_ERROR_INVALID_THREAD]) \<rparr>"

text \<open>A state with one running platform thread 7, suspended once through the runtime.\<close>

definition s_hard :: tc_state where
  "s_hard = set_node 1 (zero_node\<lparr>thread := 7, list := Some L_runningThreads, suspendCount := 1,
                                   toBeResumed := True\<rparr>)
              (threadControl_initialize\<lparr>runningThreads := [1], tls := [7 \<mapsto> 1]\<rparr>)"

text \<open>No node of the list is a node of the thread.\<close>

definition no_node_of :: "tc_state \<Rightarrow> jthread \<Rightarrow> addr list \<Rightarrow> bool" where
  "no_node_of s t xs = (\<forall>b\<in>set xs. case heap s b of None \<Rightarrow> True | Some m \<Rightarrow> thread m \<noteq> t)"

text \<open>
  A state in which the VM is suspended once: the running platform thread 7 is suspended
  twice, and thread 8, which has not started, has a node in \<open>otherThreads\<close> with a
  suspension waiting for its start. No other thread has a node.
\<close>

definition s_counts :: tc_state where
  "s_counts =
     set_node 2 (zero_node\<lparr>thread := 8, list := Some L_otherThreads, suspendCount := 1,
                            suspendOnStart := True\<rparr>)
       (set_node 1 (zero_node\<lparr>thread := 7, list := Some L_runningThreads, suspendCount := 2,
                              toBeResumed := True\<rparr>)
          (threadControl_initialize\<lparr>runningThreads := [1], otherThreads := [2], tls := [7 \<mapsto> 1],
                                     suspendAllCount := 1, next_node := 3\<rparr>))"

section \<open>Properties\<close>

subsection \<open>Reading a state after a call or a store\<close>

lemma heap_emit [simp]: "heap (emit c s) = heap s"
  by (simp add: emit_def)

lemma tls_emit [simp]: "tls (emit c s) = tls s"
  by (simp add: emit_def)

lemma runningThreads_emit [simp]: "runningThreads (emit c s) = runningThreads s"
  by (simp add: emit_def)

lemma otherThreads_emit [simp]: "otherThreads (emit c s) = otherThreads s"
  by (simp add: emit_def)

lemma runningVThreads_emit [simp]: "runningVThreads (emit c s) = runningVThreads s"
  by (simp add: emit_def)

lemma suspendAllCount_emit [simp]: "suspendAllCount (emit c s) = suspendAllCount s"
  by (simp add: emit_def)

lemma debugThreads_emit [simp]: "debugThreads (emit c s) = debugThreads s"
  by (simp add: emit_def)

lemma trace_emit [simp]: "trace (emit c s) = trace s @ [c]"
  by (simp add: emit_def)

lemma heap_set_node [simp]: "heap (set_node a n s) = (heap s)(a \<mapsto> n)"
  by (simp add: set_node_def)

lemma tls_set_node [simp]: "tls (set_node a n s) = tls s"
  by (simp add: set_node_def)

lemma runningThreads_set_node [simp]: "runningThreads (set_node a n s) = runningThreads s"
  by (simp add: set_node_def)

lemma otherThreads_set_node [simp]: "otherThreads (set_node a n s) = otherThreads s"
  by (simp add: set_node_def)

lemma runningVThreads_set_node [simp]: "runningVThreads (set_node a n s) = runningVThreads s"
  by (simp add: set_node_def)

lemma suspendAllCount_set_node [simp]: "suspendAllCount (set_node a n s) = suspendAllCount s"
  by (simp add: set_node_def)

lemma debugThreads_set_node [simp]: "debugThreads (set_node a n s) = debugThreads s"
  by (simp add: set_node_def)

lemma trace_set_node [simp]: "trace (set_node a n s) = trace s"
  by (simp add: set_node_def)

lemma set_node_set_node [simp]: "set_node a n (set_node a m s) = set_node a n s"
  by (simp add: set_node_def)

lemma thread_list_emit [simp]: "thread_list l (emit c s) = thread_list l s"
  by (simp add: thread_list_def split: ThreadList.splits)

lemma thread_list_set_node [simp]: "thread_list l (set_node a n s) = thread_list l s"
  by (simp add: thread_list_def split: ThreadList.splits)

lemma nonTlsSearch_emit [simp]: "nonTlsSearch (emit c s) l t = nonTlsSearch s l t"
  by (simp add: nonTlsSearch_def)

lemma findThread_search_emit [simp]: "findThread_search g l t (emit c s) = findThread_search g l t s"
  by (simp only: findThread_search_def nonTlsSearch_emit)

subsection \<open>Lookups\<close>

lemma getThreadLocalStorage_eq:
  "getThreadLocalStorage g t s =
     (if jvmti g (trace s) (GetThreadLocalStorage t) = JVMTI_ERROR_THREAD_NOT_ALIVE
      then Some (None, emit (GetThreadLocalStorage t) s)
      else if jvmti g (trace s) (GetThreadLocalStorage t) \<noteq> JVMTI_ERROR_NONE then None
      else Some (tls s t, emit (GetThreadLocalStorage t) s))"
  by (simp add: getThreadLocalStorage_def jvmti_call_def)

lemma getTLS_fields:
  "getThreadLocalStorage g t s = Some (r, s') \<Longrightarrow> s' = emit (GetThreadLocalStorage t) s"
  by (simp add: getThreadLocalStorage_eq split: if_splits)

lemma nonTlsSearch_Some:
  "nonTlsSearch s l t = Some a \<Longrightarrow> \<exists>n. heap s a = Some n \<and> thread n = t"
  by (auto simp add: nonTlsSearch_def find_Some_iff split: option.splits)

lemma findThread_search_Some:
  "findThread_search g l t s = Some a \<Longrightarrow> \<exists>n. heap s a = Some n \<and> thread n = t"
  by (auto simp add: findThread_search_def Let_def split: if_splits dest: nonTlsSearch_Some)

lemma findThread_state:
  "findThread g l t s = Some (r, s') \<Longrightarrow> s' = emit (GetThreadLocalStorage t) s"
  by (auto simp add: findThread_def getThreadLocalStorage_eq Let_def
      split: if_splits option.splits Option.bind_splits)

lemma findRunningThread_state:
  "findRunningThread g t s = Some (r, s') \<Longrightarrow> s' = emit (GetThreadLocalStorage t) s"
  by (auto simp add: findRunningThread_def split: if_splits dest: findThread_state)

lemma findThread_found:
  assumes "findThread g l t s = Some (Some a, s')"
  shows "\<exists>n. heap s a = Some n \<and> (tls s t = Some a \<or> thread n = t) \<and> (l = None \<or> list n = l)"
  using assms
  by (auto simp add: findThread_def getThreadLocalStorage_eq Let_def
      split: if_splits option.splits Option.bind_splits dest: findThread_search_Some)

lemma findThread_total:
  assumes "jvmti g (trace s) (GetThreadLocalStorage t) = JVMTI_ERROR_NONE
           \<or> jvmti g (trace s) (GetThreadLocalStorage t) = JVMTI_ERROR_THREAD_NOT_ALIVE"
    and "\<forall>a. tls s t = Some a \<longrightarrow> heap s a \<noteq> None"
  shows "\<exists>r. findThread g l t s = Some (r, emit (GetThreadLocalStorage t) s)"
proof (cases "jvmti g (trace s) (GetThreadLocalStorage t) = JVMTI_ERROR_NONE \<and> tls s t \<noteq> None")
  case True
  then obtain a n where "tls s t = Some a" "heap s a = Some n"
    using assms(2) by auto
  with True show ?thesis
    by (simp add: findThread_def getThreadLocalStorage_eq)
next
  case False
  show ?thesis
  proof (cases "findThread_search g l t s")
    case None
    with False assms(1) show ?thesis
      by (auto simp add: findThread_def getThreadLocalStorage_eq)
  next
    case (Some a)
    then obtain n where "heap s a = Some n"
      using findThread_search_Some by blast
    with Some False assms(1) show ?thesis
      by (auto simp add: findThread_def getThreadLocalStorage_eq)
  qed
qed

lemma findThread_tls:
  assumes "jvmti g (trace s) (GetThreadLocalStorage t) = JVMTI_ERROR_NONE"
    and "tls s t = Some a" and "heap s a = Some n" and "l = None \<or> list n = l"
  shows "findThread g l t s = Some (Some a, emit (GetThreadLocalStorage t) s)"
  using assms by (auto simp add: findThread_def getThreadLocalStorage_eq)

lemma findRunningThread_tls:
  assumes "jvmti g (trace s) (GetThreadLocalStorage t) = JVMTI_ERROR_NONE"
    and "tls s t = Some a" and "heap s a = Some n"
    and "list n = Some (if isVThread g t then L_runningVThreads else L_runningThreads)"
  shows "findRunningThread g t s = Some (Some a, emit (GetThreadLocalStorage t) s)"
  using assms by (simp add: findRunningThread_def findThread_tls)

text \<open>The search of a list for the node of a thread.\<close>

lemma no_node_of_emit [simp]: "no_node_of (emit c s) t xs = no_node_of s t xs"
  by (simp add: no_node_of_def)

lemma no_node_of_append [simp]: "no_node_of s t (xs @ ys) = (no_node_of s t xs \<and> no_node_of s t ys)"
  by (auto simp add: no_node_of_def)

lemma find_no_node:
  "no_node_of s t xs \<Longrightarrow>
   find (\<lambda>a. case heap s a of None \<Rightarrow> False | Some n \<Rightarrow> thread n = t) xs = None"
  by (induction xs) (auto simp add: no_node_of_def split: option.splits)

lemma find_first_node:
  "no_node_of s t xs \<Longrightarrow> heap s a = Some n \<Longrightarrow> thread n = t \<Longrightarrow>
   find (\<lambda>a. case heap s a of None \<Rightarrow> False | Some n \<Rightarrow> thread n = t) (xs @ a # ys) = Some a"
  by (induction xs) (auto simp add: no_node_of_def split: option.splits)

lemma nonTlsSearch_None:
  "no_node_of s t (thread_list l s) \<Longrightarrow> nonTlsSearch s l t = None"
  by (simp add: nonTlsSearch_def find_no_node)

lemma nonTlsSearch_first:
  "thread_list l s = xs @ a # ys \<Longrightarrow> no_node_of s t xs \<Longrightarrow> heap s a = Some n \<Longrightarrow> thread n = t \<Longrightarrow>
   nonTlsSearch s l t = Some a"
  by (simp add: nonTlsSearch_def find_first_node)

lemma findThread_search_running_None:
  assumes "no_node_of s t (runningThreads s)" "no_node_of s t (runningVThreads s)"
    and "l = Some L_runningThreads \<or> l = Some L_runningVThreads"
  shows "findThread_search g l t s = None"
  using assms nonTlsSearch_None [of s t L_runningThreads] nonTlsSearch_None [of s t L_runningVThreads]
  by (auto simp add: findThread_search_def thread_list_def)

lemma findThread_search_other_None:
  assumes "no_node_of s t (runningThreads s)" "no_node_of s t (runningVThreads s)"
    "no_node_of s t (otherThreads s)"
  shows "findThread_search g (Some L_otherThreads) t s = None"
  using assms nonTlsSearch_None [of s t L_runningThreads] nonTlsSearch_None [of s t L_runningVThreads]
    nonTlsSearch_None [of s t L_otherThreads]
  by (auto simp add: findThread_search_def thread_list_def)

lemma findThread_search_other_first:
  assumes "otherThreads s = xs @ a # ys" "no_node_of s t xs" "heap s a = Some n" "thread n = t"
  shows "findThread_search g (Some L_otherThreads) t s = Some a"
  using nonTlsSearch_first [of L_otherThreads s xs a ys t n] assms
  by (auto simp add: findThread_search_def thread_list_def Let_def)

lemma findThread_by_search:
  assumes "jvmti g (trace s) (GetThreadLocalStorage t) = JVMTI_ERROR_NONE
           \<or> jvmti g (trace s) (GetThreadLocalStorage t) = JVMTI_ERROR_THREAD_NOT_ALIVE"
    and "tls s t = None"
  shows "findThread g l t s =
     (case findThread_search g l t s of
        None \<Rightarrow> Some (None, emit (GetThreadLocalStorage t) s)
      | Some a \<Rightarrow> (case heap s a of None \<Rightarrow> None
          | Some n \<Rightarrow> if l \<noteq> None \<and> list n \<noteq> l then Some (None, emit (GetThreadLocalStorage t) s)
                      else Some (Some a, emit (GetThreadLocalStorage t) s)))"
  using assms
  by (auto simp add: findThread_def getThreadLocalStorage_eq split: option.splits)

lemma findThread_other_list:
  assumes "jvmti g (trace s) (GetThreadLocalStorage t) = JVMTI_ERROR_NONE"
    and "tls s t = Some a" and "heap s a = Some n" and "list n \<noteq> l" "l \<noteq> None"
  shows "findThread g l t s = Some (None, emit (GetThreadLocalStorage t) s)"
  using assms by (auto simp add: findThread_def getThreadLocalStorage_eq)

lemma commonSuspendByNode_eq:
  "heap s node = Some n \<Longrightarrow>
   commonSuspendByNode g node s =
     Some (jvmti g (trace s) (SuspendThread (thread n)),
           if jvmti g (trace s) (SuspendThread (thread n)) = JVMTI_ERROR_NONE
           then set_node node (n\<lparr>toBeResumed := True\<rparr>) (emit (SuspendThread (thread n)) s)
           else emit (SuspendThread (thread n)) s)"
  by (simp add: commonSuspendByNode_def jvmti_call_def)

subsection \<open>Traces without primitives\<close>

lemma quiet_ext_refl [simp]: "quiet_ext s s"
  by (simp add: quiet_ext_def)

lemma quiet_ext_trans: "quiet_ext s s1 \<Longrightarrow> quiet_ext s1 s2 \<Longrightarrow> quiet_ext s s2"
  by (auto simp add: quiet_ext_def)

lemma quiet_ext_emit: "\<not> is_primitive c \<Longrightarrow> quiet_ext s (emit c s)"
  by (simp add: quiet_ext_def)

lemma quiet_ext_emit': "quiet_ext s s1 \<Longrightarrow> \<not> is_primitive c \<Longrightarrow> quiet_ext s (emit c s1)"
  by (auto simp add: quiet_ext_def)

lemma quiet_ext_set_node [simp]: "quiet_ext s (set_node a n s1) = quiet_ext s s1"
  by (simp add: quiet_ext_def)

subsection \<open>Per-thread suspend\<close>

text \<open>
  C1. For a node that is not a debug thread, \<^verbatim>\<open>suspendThreadByNode\<close> does this:
  if \<open>suspendOnStart\<close> is already set, it increments \<open>suspendCount\<close>, changes nothing
  else and returns success; if \<open>suspendOnStart\<close> is clear and \<open>suspendCount\<close> is 0, it
  calls the runtime's \<^verbatim>\<open>SuspendThread\<close> on the node's thread; an answer
  \<^verbatim>\<open>THREAD_NOT_ALIVE\<close> becomes success with \<open>suspendOnStart\<close> set; a successful call sets
  \<open>toBeResumed\<close>; and whenever the operation returns success, \<open>suspendCount\<close> has grown by
  exactly one (and is unchanged when it returns an error). The operation always returns.
\<close>

theorem suspendThreadByNode_cases:
  assumes h: "heap s node = Some n" and nd: "\<not> isDebugThread n"
  shows "(suspendOnStart n \<longrightarrow>
           suspendThreadByNode g node s =
             Some (JVMTI_ERROR_NONE, set_node node (n\<lparr>suspendCount := suspendCount n + 1\<rparr>) s))
       \<and> (\<not> suspendOnStart n \<and> suspendCount n = 0 \<longrightarrow>
           (\<exists>e s'. suspendThreadByNode g node s = Some (e, s')
              \<and> trace s' = trace s @ [SuspendThread (thread n), debugMonitorNotifyAll threadLock]))
       \<and> (\<not> suspendOnStart n \<and> suspendCount n = 0
            \<and> jvmti g (trace s) (SuspendThread (thread n)) = JVMTI_ERROR_THREAD_NOT_ALIVE \<longrightarrow>
           (\<exists>s'. suspendThreadByNode g node s = Some (JVMTI_ERROR_NONE, s')
              \<and> heap s' node = Some (n\<lparr>suspendOnStart := True, suspendCount := 1\<rparr>)))
       \<and> (\<not> suspendOnStart n \<and> suspendCount n = 0
            \<and> jvmti g (trace s) (SuspendThread (thread n)) = JVMTI_ERROR_NONE \<longrightarrow>
           (\<exists>s'. suspendThreadByNode g node s = Some (JVMTI_ERROR_NONE, s')
              \<and> heap s' node = Some (n\<lparr>toBeResumed := True, suspendCount := 1\<rparr>)))
       \<and> (\<exists>e s' n'. suspendThreadByNode g node s = Some (e, s') \<and> heap s' node = Some n'
            \<and> suspendCount n' = (if e = JVMTI_ERROR_NONE then suspendCount n + 1 else suspendCount n))"
  using h nd
  by (auto simp add: suspendThreadByNode_def commonSuspendByNode_eq)

text \<open>A first suspend of thread 7 in a runtime where \<^verbatim>\<open>SuspendThread\<close> succeeds.\<close>

theorem suspendThreadByNode_cases_witness:
  "heap (set_node 1 (zero_node\<lparr>thread := 7\<rparr>) threadControl_initialize) 1
     = Some (zero_node\<lparr>thread := 7\<rparr>)
   \<and> \<not> isDebugThread (zero_node\<lparr>thread := 7\<rparr>)
   \<and> \<not> suspendOnStart (zero_node\<lparr>thread := 7\<rparr>)
   \<and> suspendCount (zero_node\<lparr>thread := 7\<rparr>) = 0
   \<and> (\<exists>s'. suspendThreadByNode g_ok 1 (set_node 1 (zero_node\<lparr>thread := 7\<rparr>) threadControl_initialize)
             = Some (JVMTI_ERROR_NONE, s')
          \<and> heap s' 1 = Some (zero_node\<lparr>thread := 7, toBeResumed := True, suspendCount := 1\<rparr>))"
  using suspendThreadByNode_cases [of "set_node 1 (zero_node\<lparr>thread := 7\<rparr>) threadControl_initialize"
      1 "zero_node\<lparr>thread := 7\<rparr>" g_ok]
  by (simp add: zero_node_def g_ok_def)

text \<open>
  C7. The deferred suspend of a node (a debug node never has \<open>suspendOnStart\<close> set, and the
  function leaves it alone) always returns and leaves \<open>suspendOnStart\<close> clear. It calls
  \<^verbatim>\<open>SuspendThread\<close> only when \<open>suspendCount\<close> is positive, and then returns the code of
  that call; if the call failed, \<open>suspendCount\<close> is one less than before, and if it
  succeeded the count is unchanged and \<open>toBeResumed\<close> is set. Without the call it returns
  success and the count is unchanged.
\<close>

theorem deferredSuspendThreadByNode_spec:
  assumes h: "heap s node = Some n" and dbg: "isDebugThread n \<longrightarrow> \<not> suspendOnStart n"
  shows "\<exists>e s' n'. deferredSuspendThreadByNode g node s = Some (e, s') \<and> heap s' node = Some n'
      \<and> \<not> suspendOnStart n'
      \<and> (\<not> isDebugThread n \<and> 0 < sint (suspendCount n) \<longrightarrow>
           trace s' = trace s @ [SuspendThread (thread n), debugMonitorNotifyAll threadLock]
           \<and> e = jvmti g (trace s) (SuspendThread (thread n))
           \<and> (e \<noteq> JVMTI_ERROR_NONE \<longrightarrow> suspendCount n' = suspendCount n - 1)
           \<and> (e = JVMTI_ERROR_NONE \<longrightarrow> suspendCount n' = suspendCount n \<and> toBeResumed n'))
      \<and> (isDebugThread n \<or> \<not> 0 < sint (suspendCount n) \<longrightarrow>
           e = JVMTI_ERROR_NONE \<and> suspendCount n' = suspendCount n
           \<and> (\<forall>t. SuspendThread t \<notin> set (drop (length (trace s)) (trace s'))))"
  using h dbg
  by (auto simp add: deferredSuspendThreadByNode_def commonSuspendByNode_eq)

text \<open>A node waiting for its start, in a runtime where \<^verbatim>\<open>SuspendThread\<close> fails.\<close>

theorem deferredSuspendThreadByNode_spec_witness:
  "heap (set_node 1 (zero_node\<lparr>thread := 7, suspendOnStart := True, suspendCount := 1\<rparr>) threadControl_initialize) 1
     = Some (zero_node\<lparr>thread := 7, suspendOnStart := True, suspendCount := 1\<rparr>)
   \<and> \<not> isDebugThread (zero_node\<lparr>thread := 7, suspendOnStart := True, suspendCount := 1\<rparr>)
   \<and> (\<exists>s' n'. deferredSuspendThreadByNode (g_ok\<lparr>jvmti := \<lambda>tr c. JVMTI_ERROR_INVALID_THREAD\<rparr>) 1
            (set_node 1 (zero_node\<lparr>thread := 7, suspendOnStart := True, suspendCount := 1\<rparr>) threadControl_initialize)
          = Some (JVMTI_ERROR_INVALID_THREAD, s')
        \<and> heap s' 1 = Some n' \<and> \<not> suspendOnStart n' \<and> suspendCount n' = 0)"
  using deferredSuspendThreadByNode_spec [of
      "set_node 1 (zero_node\<lparr>thread := 7, suspendOnStart := True, suspendCount := 1\<rparr>) threadControl_initialize"
      1 "zero_node\<lparr>thread := 7, suspendOnStart := True, suspendCount := 1\<rparr>"
      "g_ok\<lparr>jvmti := \<lambda>tr c. JVMTI_ERROR_INVALID_THREAD\<rparr>"]
  by (auto simp add: zero_node_def g_ok_def)

subsection \<open>Popping frames\<close>

text \<open>For a negative frame number the sum \<^verbatim>\<open>fnum+1\<close> does not overflow.\<close>

lemma sint_succ_neg:
  assumes "sint (fnum :: jint) < 0"
  shows "sint (fnum + 1) = sint fnum + 1"
proof -
  have "- (2 ^ 31) \<le> sint fnum" using sint_ge [of fnum] by simp
  with assms have "- (2 ^ 31) \<le> sint fnum + 1" "sint fnum + 1 < 2 ^ 31" by simp_all
  then have "signed_take_bit 31 (sint fnum + 1) = sint fnum + 1"
    by (simp add: signed_take_bit_int_eq_self)
  then show ?thesis by (simp add: sint_word_add)
qed

text \<open>
  C9. When the frame number is negative (as for \<open>fnum = -1\<close>), that is, when the number
  of frames to pop \<open>fnum + 1\<close> is less than 1, \<^verbatim>\<open>threadControl_popFrames\<close> returns
  \<^verbatim>\<open>AGENT_ERROR_NO_MORE_FRAMES\<close>. Until then it has only created the two pop-frame
  monitors if they did not exist: no monitor is entered, the event mode is not touched,
  no runtime call is made and no node or list has changed.
\<close>

theorem popFrames_no_more_frames:
  assumes "sint fnum < 0"
  shows "\<exists>s' cs. threadControl_popFrames g t fnum s = Some (AGENT_ERROR_NO_MORE_FRAMES, s')
      \<and> s'\<lparr>trace := trace s, popFrameLocksCreated := popFrameLocksCreated s\<rparr> = s
      \<and> trace s' = trace s @ cs
      \<and> set cs \<subseteq> {debugMonitorCreate popFrameEventLock, debugMonitorCreate popFrameProceedLock}"
  using assms sint_succ_neg [OF assms]
  by (auto simp add: threadControl_popFrames_def initLocks_def emit_def Let_def)

text \<open>The frame number \<open>-1\<close>.\<close>

theorem popFrames_no_more_frames_witness:
  "sint (- 1 :: jint) < 0
   \<and> (\<exists>s'. threadControl_popFrames g_ok 7 (- 1) threadControl_initialize = Some (AGENT_ERROR_NO_MORE_FRAMES, s')
          \<and> heap s' = heap threadControl_initialize)"
proof -
  have h: "sint (- 1 :: jint) < 0" by simp
  obtain s' cs where "threadControl_popFrames g_ok 7 (- 1) threadControl_initialize = Some (AGENT_ERROR_NO_MORE_FRAMES, s')"
    and e: "s'\<lparr>trace := trace threadControl_initialize, popFrameLocksCreated := popFrameLocksCreated threadControl_initialize\<rparr> = threadControl_initialize"
    using popFrames_no_more_frames [OF h, of g_ok 7 threadControl_initialize] by blast
  moreover have "heap s' = heap threadControl_initialize"
    using arg_cong [OF e, of heap] by simp
  ultimately show ?thesis using h by blast
qed

subsection \<open>Evaluating concrete runs\<close>

lemmas tc_eval = emit_def jvmti_call_def set_node_def commonSuspendByNode_def
  deferredSuspendThreadByNode_def suspendThreadByNode_def resumeThreadByNode_def
  zero_node_def threadControl_initialize_def thread_list_def set_thread_list_def
  threadState_def setThreadLocalStorage_def getThreadLocalStorage_def nonTlsSearch_def
  findThread_search_def findThread_def findRunningThread_def removeNode_def addNode_def MAX_DEBUG_THREADS_def
  threadControl_isDebugThread_def threadControl_addDebugThread_def
  threadControl_removeDebugThread_def JVMTI_THREAD_STATE_ALIVE_def insertThread_def
  clearThread_def removeThread_def removeResumed_def removeVThreads_def moveNode_def
  enumerateOverThreadList_def getLocks_def releaseLocks_def preSuspend_def postSuspend_def
  threadControl_onHook_def commonSuspend_def resumeCopyHelper_def resumeCountHelper_def
  newArray_def array_of_def commonResumeList_def commonSuspendList_def commonResume_def
  threadControl_suspendThread_def threadControl_resumeThread_def threadControl_suspendCount_def
  incrementSuspendCountHelper_def suspendAllHelper_def threadControl_suspendAll_def
  resumeHelper_def excludeCountHelper_def excludeCopyHelper_def threadControl_resumeAll_def
  saveGlobalRef_def tossGlobalRef_def node_of_def trace_of_def g_vt_def g_ended_def g_two_def
  Let_def

subsection \<open>The suspend-count query\<close>

text \<open>
  C6. \<^verbatim>\<open>threadControl_suspendCount\<close>, read from the state. A thread is tracked when its
  thread-local slot points at a node that is in the running list of its kind or in
  \<open>otherThreads\<close>, or when its slot is empty and \<open>otherThreads\<close> holds a node of it (the
  first such node is the one that counts); then the count returned is the
  \<open>suspendCount\<close> of that node. A thread is untracked when its slot is empty and no list
  holds a node of it; then the count is 0 for a platform thread, and for a virtual thread
  it is 0 when the runtime reports the state 0 and \<open>suspendAllCount\<close> otherwise. The
  runtime is assumed to answer the reads of the slot (a thread that is not alive reads
  as an empty slot). Whenever the query returns, the status it returns is
  \<^verbatim>\<open>JVMTI_ERROR_NONE\<close>, the outer variable (an error of the inner state query ends the
  process instead). The state changes by the trace only.
\<close>

theorem threadControl_suspendCount_spec:
  fixes g :: gdata and t :: jthread and s :: tc_state
  defines "s1 \<equiv> emit (GetThreadLocalStorage t) (emit (debugMonitorEnter threadLock) s)"
  defines "s2 \<equiv> emit (GetThreadLocalStorage t) s1"
  shows "(\<forall>a n. (\<forall>tr. jvmti g tr (GetThreadLocalStorage t) = JVMTI_ERROR_NONE)
            \<and> tls s t = Some a \<and> heap s a = Some n
            \<and> list n = Some (if isVThread g t then L_runningVThreads else L_runningThreads) \<longrightarrow>
          threadControl_suspendCount g t s
            = Some ((JVMTI_ERROR_NONE, suspendCount n), emit (debugMonitorExit threadLock) s1))
       \<and> (\<forall>a n. (\<forall>tr. jvmti g tr (GetThreadLocalStorage t) = JVMTI_ERROR_NONE)
            \<and> tls s t = Some a \<and> heap s a = Some n \<and> list n = Some L_otherThreads \<longrightarrow>
          threadControl_suspendCount g t s
            = Some ((JVMTI_ERROR_NONE, suspendCount n), emit (debugMonitorExit threadLock) s2))
       \<and> (\<forall>a n xs ys. (\<forall>tr. jvmti g tr (GetThreadLocalStorage t) = JVMTI_ERROR_NONE
                           \<or> jvmti g tr (GetThreadLocalStorage t) = JVMTI_ERROR_THREAD_NOT_ALIVE)
            \<and> tls s t = None
            \<and> no_node_of s t (runningThreads s) \<and> no_node_of s t (runningVThreads s)
            \<and> otherThreads s = xs @ a # ys \<and> no_node_of s t xs
            \<and> heap s a = Some n \<and> thread n = t \<and> list n = Some L_otherThreads \<longrightarrow>
          threadControl_suspendCount g t s
            = Some ((JVMTI_ERROR_NONE, suspendCount n), emit (debugMonitorExit threadLock) s2))
       \<and> ((\<forall>tr. jvmti g tr (GetThreadLocalStorage t) = JVMTI_ERROR_NONE
                  \<or> jvmti g tr (GetThreadLocalStorage t) = JVMTI_ERROR_THREAD_NOT_ALIVE)
            \<and> tls s t = None
            \<and> no_node_of s t (runningThreads s) \<and> no_node_of s t (runningVThreads s)
            \<and> no_node_of s t (otherThreads s) \<and> \<not> isVThread g t \<longrightarrow>
          threadControl_suspendCount g t s
            = Some ((JVMTI_ERROR_NONE, 0), emit (debugMonitorExit threadLock) s2))
       \<and> ((\<forall>tr. jvmti g tr (GetThreadLocalStorage t) = JVMTI_ERROR_NONE
                  \<or> jvmti g tr (GetThreadLocalStorage t) = JVMTI_ERROR_THREAD_NOT_ALIVE)
            \<and> tls s t = None
            \<and> no_node_of s t (runningThreads s) \<and> no_node_of s t (runningVThreads s)
            \<and> no_node_of s t (otherThreads s) \<and> isVThread g t
            \<and> jvmti g (trace s2) (GetThreadState t) = JVMTI_ERROR_NONE \<longrightarrow>
          threadControl_suspendCount g t s
            = Some ((JVMTI_ERROR_NONE,
                     if thread_state g (trace s2) t = 0 then 0 else suspendAllCount s),
                    emit (debugMonitorExit threadLock) (emit (GetThreadState t) s2)))
       \<and> (\<forall>e c s'. threadControl_suspendCount g t s = Some ((e, c), s') \<longrightarrow> e = JVMTI_ERROR_NONE)"
proof (intro conjI allI impI)
  let ?e = "emit (debugMonitorEnter threadLock) s"
  {
    fix a n
    assume h: "(\<forall>tr. jvmti g tr (GetThreadLocalStorage t) = JVMTI_ERROR_NONE)
            \<and> tls s t = Some a \<and> heap s a = Some n
            \<and> list n = Some (if isVThread g t then L_runningVThreads else L_runningThreads)"
    then have "findRunningThread g t ?e = Some (Some a, s1)"
      unfolding s1_def by (intro findRunningThread_tls [where n = n]) simp_all
    with h show "threadControl_suspendCount g t s
            = Some ((JVMTI_ERROR_NONE, suspendCount n), emit (debugMonitorExit threadLock) s1)"
      by (simp add: threadControl_suspendCount_def s1_def)
  next
    fix a n
    assume h: "(\<forall>tr. jvmti g tr (GetThreadLocalStorage t) = JVMTI_ERROR_NONE)
            \<and> tls s t = Some a \<and> heap s a = Some n \<and> list n = Some L_otherThreads"
    then have "findRunningThread g t ?e = Some (None, s1)"
      unfolding s1_def findRunningThread_def
      by (auto intro!: findThread_other_list [where n = n and a = a])
    moreover from h have "findThread g (Some L_otherThreads) t s1 = Some (Some a, s2)"
      unfolding s2_def by (intro findThread_tls [where n = n]) (simp_all add: s1_def)
    ultimately show "threadControl_suspendCount g t s
            = Some ((JVMTI_ERROR_NONE, suspendCount n), emit (debugMonitorExit threadLock) s2)"
      using h by (simp add: threadControl_suspendCount_def s1_def s2_def)
  next
    fix a n xs ys
    assume h: "(\<forall>tr. jvmti g tr (GetThreadLocalStorage t) = JVMTI_ERROR_NONE
                           \<or> jvmti g tr (GetThreadLocalStorage t) = JVMTI_ERROR_THREAD_NOT_ALIVE)
            \<and> tls s t = None
            \<and> no_node_of s t (runningThreads s) \<and> no_node_of s t (runningVThreads s)
            \<and> otherThreads s = xs @ a # ys \<and> no_node_of s t xs
            \<and> heap s a = Some n \<and> thread n = t \<and> list n = Some L_otherThreads"
    have r: "findRunningThread g t ?e = Some (None, s1)"
      unfolding s1_def findRunningThread_def using h
      by (simp add: findThread_by_search findThread_search_running_None)
    have "findThread_search g (Some L_otherThreads) t s1 = Some a"
      unfolding s1_def using h
      by (simp add: findThread_search_other_first [where xs = xs and ys = ys and n = n])
    then have "findThread g (Some L_otherThreads) t s1 = Some (Some a, s2)"
      unfolding s2_def using h by (simp add: findThread_by_search s1_def)
    with r h show "threadControl_suspendCount g t s
            = Some ((JVMTI_ERROR_NONE, suspendCount n), emit (debugMonitorExit threadLock) s2)"
      by (simp add: threadControl_suspendCount_def s1_def s2_def)
  next
    assume h: "(\<forall>tr. jvmti g tr (GetThreadLocalStorage t) = JVMTI_ERROR_NONE
                  \<or> jvmti g tr (GetThreadLocalStorage t) = JVMTI_ERROR_THREAD_NOT_ALIVE)
            \<and> tls s t = None
            \<and> no_node_of s t (runningThreads s) \<and> no_node_of s t (runningVThreads s)
            \<and> no_node_of s t (otherThreads s) \<and> \<not> isVThread g t"
    have r: "findRunningThread g t ?e = Some (None, s1)"
      unfolding s1_def findRunningThread_def using h
      by (simp add: findThread_by_search findThread_search_running_None)
    have "findThread g (Some L_otherThreads) t s1 = Some (None, s2)"
      unfolding s2_def using h
      by (simp add: findThread_by_search findThread_search_other_None s1_def)
    with r h show "threadControl_suspendCount g t s
            = Some ((JVMTI_ERROR_NONE, 0), emit (debugMonitorExit threadLock) s2)"
      by (simp add: threadControl_suspendCount_def s1_def s2_def)
  next
    assume h: "(\<forall>tr. jvmti g tr (GetThreadLocalStorage t) = JVMTI_ERROR_NONE
                  \<or> jvmti g tr (GetThreadLocalStorage t) = JVMTI_ERROR_THREAD_NOT_ALIVE)
            \<and> tls s t = None
            \<and> no_node_of s t (runningThreads s) \<and> no_node_of s t (runningVThreads s)
            \<and> no_node_of s t (otherThreads s) \<and> isVThread g t
            \<and> jvmti g (trace s2) (GetThreadState t) = JVMTI_ERROR_NONE"
    have r: "findRunningThread g t ?e = Some (None, s1)"
      unfolding s1_def findRunningThread_def using h
      by (simp add: findThread_by_search findThread_search_running_None)
    have "findThread g (Some L_otherThreads) t s1 = Some (None, s2)"
      unfolding s2_def using h
      by (simp add: findThread_by_search findThread_search_other_None s1_def)
    with r h show "threadControl_suspendCount g t s
            = Some ((JVMTI_ERROR_NONE,
                     if thread_state g (trace s2) t = 0 then 0 else suspendAllCount s),
                    emit (debugMonitorExit threadLock) (emit (GetThreadState t) s2))"
      by (simp add: threadControl_suspendCount_def s1_def s2_def threadState_def)
  next
    fix e c s'
    assume "threadControl_suspendCount g t s = Some ((e, c), s')"
    then show "e = JVMTI_ERROR_NONE"
      by (auto simp add: threadControl_suspendCount_def Let_def threadState_def
          split: Option.bind_splits option.splits if_splits prod.splits)
  }
qed

text \<open>
  In the state \<open>s_counts\<close> the tracked threads 7 and 8 have the counts 2 and 1 of their
  nodes, the untracked platform thread 9 has 0, and the untracked live virtual thread 11
  has the VM-wide count 1.
\<close>

theorem threadControl_suspendCount_spec_witness:
  "tls s_counts 7 = Some 1 \<and> suspendAllCount s_counts = 1
   \<and> map_option fst (threadControl_suspendCount g_ok 7 s_counts) = Some (JVMTI_ERROR_NONE, 2)
   \<and> map_option fst (threadControl_suspendCount g_ok 8 s_counts) = Some (JVMTI_ERROR_NONE, 1)
   \<and> map_option fst (threadControl_suspendCount g_ok 9 s_counts) = Some (JVMTI_ERROR_NONE, 0)
   \<and> map_option fst (threadControl_suspendCount g_vt 11 s_counts) = Some (JVMTI_ERROR_NONE, 1)"
proof -
  let ?n7 = "zero_node\<lparr>thread := 7, list := Some L_runningThreads, suspendCount := 2, toBeResumed := True\<rparr>"
  let ?n8 = "zero_node\<lparr>thread := 8, list := Some L_otherThreads, suspendCount := 1, suspendOnStart := True\<rparr>"
  have st: "tls s_counts = [7 \<mapsto> 1]" "heap s_counts 1 = Some ?n7" "heap s_counts 2 = Some ?n8"
    "runningThreads s_counts = [1]" "runningVThreads s_counts = []" "otherThreads s_counts = [] @ 2 # []"
    "suspendAllCount s_counts = 1"
    by (simp_all add: s_counts_def threadControl_initialize_def emit_def set_node_def)
  have nn: "no_node_of s_counts 8 [1]" "no_node_of s_counts 9 [1]" "no_node_of s_counts 9 ([] @ 2 # [])"
    "no_node_of s_counts 11 [1]" "no_node_of s_counts 11 ([] @ 2 # [])" "\<And>t. no_node_of s_counts t []"
    using st(2,3) by (simp_all add: no_node_of_def zero_node_def)
  have g: "\<And>tr c. jvmti g_ok tr c = JVMTI_ERROR_NONE" "\<And>t. \<not> isVThread g_ok t"
    "\<And>tr c. jvmti g_vt tr c = JVMTI_ERROR_NONE" "isVThread g_vt 11" "\<And>tr. thread_state g_vt tr 11 = 5"
    by (simp_all add: g_ok_def g_vt_def)
  note th7 = threadControl_suspendCount_spec [of g_ok 7 s_counts]
  note th8 = threadControl_suspendCount_spec [of g_ok 8 s_counts]
  note th9 = threadControl_suspendCount_spec [of g_ok 9 s_counts]
  note th11 = threadControl_suspendCount_spec [of g_vt 11 s_counts]
  have "map_option fst (threadControl_suspendCount g_ok 7 s_counts) = Some (JVMTI_ERROR_NONE, 2)"
    using th7 [THEN conjunct1, rule_format, of 1 ?n7] st g by (simp add: zero_node_def)
  moreover have "map_option fst (threadControl_suspendCount g_ok 8 s_counts) = Some (JVMTI_ERROR_NONE, 1)"
    using th8 [THEN conjunct2, THEN conjunct2, THEN conjunct1, rule_format, of "[]" 2 "[]" ?n8] st g nn
    by (simp add: zero_node_def)
  moreover have "map_option fst (threadControl_suspendCount g_ok 9 s_counts) = Some (JVMTI_ERROR_NONE, 0)"
    using th9 [THEN conjunct2, THEN conjunct2, THEN conjunct2, THEN conjunct1] st g nn
    by simp
  moreover have "map_option fst (threadControl_suspendCount g_vt 11 s_counts) = Some (JVMTI_ERROR_NONE, 1)"
    using th11 [THEN conjunct2, THEN conjunct2, THEN conjunct2, THEN conjunct2, THEN conjunct1] st g nn
    by simp
  ultimately show ?thesis using st by simp
qed

subsection \<open>The first suspend count of a node\<close>

text \<open>
  C4, as the code has it. When \<^verbatim>\<open>insertThread\<close> creates a node while \<open>suspendAllCount\<close> is
  positive, the node starts with \<open>suspendCount = suspendAllCount\<close> if it is created for a
  virtual thread or for a thread that is not a debug thread. A node created for a debug
  thread (in a platform list) is only marked as such: its \<open>suspendCount\<close> is 0 and
  \<open>suspendOnStart\<close> is clear. The hypotheses say that no node exists yet and that the
  allocations and runtime calls of the creation succeed (otherwise the process exits).
\<close>

theorem insertThread_initial_suspendCount:
  assumes nf: "findThread g (Some l) t s = Some (None, s1)"
    and alloc: "\<forall>tr. jvmti g tr (jvmtiAllocate 1) = JVMTI_ERROR_NONE"
    and bag: "\<forall>tr. new_bag g tr \<noteq> 0"
    and ref: "\<forall>tr. jvmti g tr (NewGlobalRef t) = JVMTI_ERROR_NONE" and tnz: "t \<noteq> 0"
    and st: "\<forall>tr. jvmti g tr (GetThreadState t) = JVMTI_ERROR_NONE"
    and settls: "\<forall>tr a. jvmti g tr (SetThreadLocalStorage t (Some a)) = JVMTI_ERROR_NONE"
    and pos: "0 < sint (suspendAllCount s)"
  shows "\<exists>node s' n. insertThread g l t s = Some (node, s') \<and> heap s' node = Some n \<and> thread n = t
      \<and> (l = L_runningVThreads \<or> t \<notin> set (debugThreads s) \<longrightarrow> suspendCount n = suspendAllCount s)
      \<and> (l \<noteq> L_runningVThreads \<and> t \<in> set (debugThreads s) \<longrightarrow>
           isDebugThread n \<and> suspendCount n = 0 \<and> \<not> suspendOnStart n)"
proof -
  have s1: "s1 = emit (GetThreadLocalStorage t) s"
    using nf by (rule findThread_state)
  show ?thesis
    using nf alloc bag ref tnz st settls pos unfolding s1
    by (cases l)
      (auto simp add: insertThread_def Let_def jvmti_call_def saveGlobalRef_def
        threadControl_isDebugThread_def threadState_def addNode_def setThreadLocalStorage_def
        set_thread_list_def thread_list_def zero_node_def emit_def set_node_def)
qed

text \<open>A platform thread 7 first seen while the VM is suspended once.\<close>

theorem insertThread_initial_suspendCount_witness:
  "0 < sint (suspendAllCount s_suspended) \<and> 7 \<notin> set (debugThreads s_suspended)
   \<and> (\<exists>node s' n. insertThread g_ok L_otherThreads 7 s_suspended = Some (node, s')
          \<and> heap s' node = Some n \<and> thread n = 7 \<and> suspendCount n = 1)"
proof -
  have nf: "findThread g_ok (Some L_otherThreads) 7 s_suspended
              = Some (None, emit (GetThreadLocalStorage 7) s_suspended)"
    by (simp add: tc_eval s_suspended_def g_ok_def)
  have pos: "0 < sint (suspendAllCount s_suspended)"
    by (simp add: s_suspended_def)
  have nd: "7 \<notin> set (debugThreads s_suspended)" "suspendAllCount s_suspended = 1"
    by (simp_all add: s_suspended_def)
  from insertThread_initial_suspendCount [OF nf _ _ _ _ _ _ pos, of ]
  show ?thesis using pos nd by (auto simp add: g_ok_def)
qed

text \<open>
  The claim as stated fails for a debug thread: with \<open>suspendAllCount = 1\<close>, the node
  created for the debug thread 9 has \<open>suspendCount = 0\<close>.
\<close>

theorem insertThread_debug_counterexample:
  "sint (suspendAllCount s_suspended) = 1
   \<and> heap s_suspended 1 = None
   \<and> map_option fst (insertThread g_ok L_otherThreads 9 s_suspended) = Some 1
   \<and> map_option suspendCount (node_of 1 (insertThread g_ok L_otherThreads 9 s_suspended)) = Some 0"
  by (simp add: tc_eval s_suspended_def g_ok_def)

subsection \<open>The exclusion list of the VM-wide resume\<close>

text \<open>
  C3, as the code has it. In scenario 3 (node 2 is thread 11 with count 2, node 3 is
  thread 12 with count 1), \<^verbatim>\<open>threadControl_resumeAll\<close> calls \<^verbatim>\<open>ResumeAllVirtualThreads\<close>
  with both tracked virtual threads in the exclusion list, since both have a positive
  \<open>suspendCount\<close>. The list resume then takes thread 11 to count 1 without resuming it
  (\<open>toBeResumed\<close> stays set), and thread 12 to count 0 through \<^verbatim>\<open>ResumeThreadList\<close>.
\<close>

theorem scenario3_exclusion_list:
  "map_option fst scenario3_setup = Some JVMTI_ERROR_NONE
   \<and> map_option suspendCount (node_of 2 scenario3_setup) = Some 2
   \<and> map_option suspendCount (node_of 3 scenario3_setup) = Some 1
   \<and> map_option fst scenario3 = Some JVMTI_ERROR_NONE
   \<and> filter is_primitive (drop (length (trace_of scenario3_setup)) (trace_of scenario3))
       = [ResumeAllVirtualThreads [12, 11], ResumeThreadList [1, 12]]
   \<and> map_option (\<lambda>n. (thread n, suspendCount n, toBeResumed n)) (node_of 2 scenario3) = Some (11, 1, True)
   \<and> map_option (\<lambda>n. (thread n, suspendCount n, toBeResumed n)) (node_of 3 scenario3) = Some (12, 0, False)"
  by (simp add: scenario3_def scenario3_setup_def tc_eval)

text \<open>The exclusion list is never the list of thread 11 alone.\<close>

theorem scenario3_counterexample:
  "map_option suspendCount (node_of 2 scenario3_setup) = Some 2
   \<and> map_option suspendCount (node_of 3 scenario3_setup) = Some 1
   \<and> ResumeAllVirtualThreads [11] \<notin> set (trace_of scenario3)"
  by (simp add: scenario3_def scenario3_setup_def tc_eval)

subsection \<open>The two flags\<close>

text \<open>
  C2. The virtual thread 11 is alive when its node is created and has ended when
  \<^verbatim>\<open>SuspendThread\<close> reaches it: the node is in \<open>runningVThreads\<close> with \<open>suspendOnStart\<close>
  set and \<open>toBeResumed\<close> clear, and no node has both flags. After
  \<^verbatim>\<open>threadControl_suspendAll\<close>, whose \<^verbatim>\<open>incrementSuspendCountHelper\<close> sets \<open>toBeResumed\<close>
  on every tracked virtual thread, the node has both flags.
\<close>

theorem suspendAll_sets_both_flags:
  "map_option fst ended_suspend = Some JVMTI_ERROR_NONE
   \<and> map_option (\<lambda>n. (thread n, toBeResumed n, suspendOnStart n)) (node_of 1 ended_suspend)
       = Some (1, False, False)
   \<and> map_option (\<lambda>n. (thread n, toBeResumed n, suspendOnStart n, list n)) (node_of 2 ended_suspend)
       = Some (11, False, True, Some L_runningVThreads)
   \<and> map_option fst ended_suspendAll = Some JVMTI_ERROR_NONE
   \<and> map_option (\<lambda>n. (thread n, toBeResumed n, suspendOnStart n)) (node_of 2 ended_suspendAll)
       = Some (11, True, True)"
  by (simp add: ended_suspend_def ended_suspendAll_def tc_eval)

subsection \<open>Resume at count zero\<close>

text \<open>
  The claim C5 as stated fails: the debug thread 9 has a node in \<open>otherThreads\<close> with
  \<open>suspendCount = 0\<close>; \<^verbatim>\<open>threadControl_resumeThread\<close> on it returns success, but its sweep
  of \<open>otherThreads\<close> frees the node, clears the thread-local slot through the runtime and
  takes the thread out of the debug threads.
\<close>

theorem resumeThread_frees_node_counterexample:
  "map_option thread (node_of 2 debug_suspendAll) = Some 9
   \<and> map_option suspendCount (node_of 2 debug_suspendAll) = Some 0
   \<and> map_option otherThreads (map_option snd debug_suspendAll) = Some [2]
   \<and> map_option debugThreads (map_option snd debug_suspendAll) = Some [9]
   \<and> map_option fst debug_resume = Some JVMTI_ERROR_NONE
   \<and> node_of 2 debug_resume = None
   \<and> map_option otherThreads (map_option snd debug_resume) = Some []
   \<and> map_option debugThreads (map_option snd debug_resume) = Some []
   \<and> SetThreadLocalStorage 9 None \<in> set (drop (length (trace_of debug_suspendAll)) (trace_of debug_resume))"
  by (simp add: debug_suspendAll_def debug_resume_def tc_eval)

text \<open>The sweep of \<open>otherThreads\<close>: what freeing a node changes.\<close>

lemma setThreadLocalStorage_None:
  assumes "jvmti g (trace s) (SetThreadLocalStorage t None) = JVMTI_ERROR_NONE
         \<or> jvmti g (trace s) (SetThreadLocalStorage t None) = JVMTI_ERROR_THREAD_NOT_ALIVE"
  shows "\<exists>s'. setThreadLocalStorage g t None s = Some s' \<and> heap s' = heap s \<and> quiet_ext s s'
     \<and> same_lists s s'"
  using assms
  by (auto simp add: setThreadLocalStorage_def jvmti_call_def quiet_ext_def same_lists_def)

lemma removeDebugThread_frame:
  "heap (snd (threadControl_removeDebugThread g t s)) = heap s
   \<and> quiet_ext s (snd (threadControl_removeDebugThread g t s))
   \<and> same_lists s (snd (threadControl_removeDebugThread g t s))"
  by (auto simp add: threadControl_removeDebugThread_def jvmti_call_def Let_def quiet_ext_def same_lists_def
      split: prod.splits)

lemma clearThread_frame:
  assumes h: "heap s a = Some n"
    and tlsset: "\<forall>tr t'. jvmti g tr (SetThreadLocalStorage t' None) = JVMTI_ERROR_NONE
                   \<or> jvmti g tr (SetThreadLocalStorage t' None) = JVMTI_ERROR_THREAD_NOT_ALIVE"
  shows "\<exists>s'. clearThread g a s = Some s' \<and> heap s' = (heap s)(a := None) \<and> quiet_ext s s'
     \<and> same_lists s s'"
proof -
  define s1 where "s1 = (if pendingStop n \<noteq> 0 then emit (DeleteGlobalRef (pendingStop n)) s else s)"
  define s2 where "s2 = emit (stepControl_clearRequest (thread n)) s1"
  define s3 where "s3 = (if isDebugThread n then snd (threadControl_removeDebugThread g (thread n) s2) else s2)"
  have q1: "heap s1 = heap s \<and> quiet_ext s s1 \<and> same_lists s s1"
    by (simp add: s1_def quiet_ext_emit same_lists_def)
  have q2: "heap s2 = heap s \<and> quiet_ext s s2 \<and> same_lists s s2"
    using q1 by (simp add: s2_def quiet_ext_emit' same_lists_def)
  have q3: "heap s3 = heap s \<and> quiet_ext s s3 \<and> same_lists s s3"
    using q2 removeDebugThread_frame [of g "thread n" s2]
    by (auto simp add: s3_def same_lists_def intro: quiet_ext_trans)
  obtain s4 where s4: "setThreadLocalStorage g (thread n) None s3 = Some s4"
    and q4: "heap s4 = heap s3" "quiet_ext s3 s4" "same_lists s3 s4"
    using setThreadLocalStorage_None [of g s3 "thread n"] tlsset by blast
  have "clearThread g a s = Some (emit jvmtiDeallocate
          ((emit (bagDestroyBag (eventBag n)) (emit (DeleteGlobalRef (thread n)) s4))
             \<lparr>heap := (heap (emit (bagDestroyBag (eventBag n)) (emit (DeleteGlobalRef (thread n)) s4)))(a := None)\<rparr>))"
    using h s4 [unfolded s3_def s2_def s1_def]
    by (auto simp add: clearThread_def Let_def split: if_splits)
  moreover have "quiet_ext s s4" using q3 q4 by (blast intro: quiet_ext_trans)
  ultimately show ?thesis
    using q3 q4 by (auto simp add: same_lists_def quiet_ext_def emit_def)
qed

lemma removeThread_other:
  assumes h: "heap s a = Some n" and l: "list n = Some L_otherThreads"
    and tlsset: "\<forall>tr t'. jvmti g tr (SetThreadLocalStorage t' None) = JVMTI_ERROR_NONE
                   \<or> jvmti g tr (SetThreadLocalStorage t' None) = JVMTI_ERROR_THREAD_NOT_ALIVE"
  shows "\<exists>s'. removeThread g a s = Some s' \<and> heap s' = (heap s)(a := None) \<and> quiet_ext s s'
      \<and> runningThreads s' = runningThreads s \<and> runningVThreads s' = runningVThreads s
      \<and> otherThreads s' = remove1 a (otherThreads s) \<and> suspendAllCount s' = suspendAllCount s"
proof -
  let ?s1 = "set_node a (n\<lparr>list := None\<rparr>) (s\<lparr>otherThreads := remove1 a (otherThreads s)\<rparr>)"
  have rn: "removeNode a s = Some ?s1"
    using h l by (simp add: removeNode_def set_thread_list_def thread_list_def)
  have h1: "heap ?s1 a = Some (n\<lparr>list := None\<rparr>)" by simp
  obtain s' where c: "clearThread g a ?s1 = Some s'" "heap s' = (heap ?s1)(a := None)"
      "quiet_ext ?s1 s'" "same_lists ?s1 s'"
    using clearThread_frame [OF h1 tlsset] by blast
  have "removeThread g a s = Some s'"
    using rn c(1) by (simp add: removeThread_def)
  moreover have "quiet_ext s s'"
    using c(3) by (simp add: quiet_ext_def set_node_def)
  ultimately show ?thesis
    using c(2,4) by (auto simp add: same_lists_def set_node_def)
qed

lemma removeResumed_from_other:
  assumes tlsset: "\<forall>tr t'. jvmti g tr (SetThreadLocalStorage t' None) = JVMTI_ERROR_NONE
                   \<or> jvmti g tr (SetThreadLocalStorage t' None) = JVMTI_ERROR_THREAD_NOT_ALIVE"
  shows "distinct xs \<Longrightarrow> \<forall>a\<in>set xs. \<exists>n. heap s a = Some n \<and> list n = Some L_otherThreads \<Longrightarrow>
    \<exists>s'. removeResumed_from g xs s = Some s' \<and> quiet_ext s s'
      \<and> (\<forall>a. heap s' a = (if a \<in> set xs \<and> (\<exists>n. heap s a = Some n \<and> suspendCount n = 0) then None else heap s a))
      \<and> runningThreads s' = runningThreads s \<and> runningVThreads s' = runningVThreads s
      \<and> suspendAllCount s' = suspendAllCount s"
proof (induction xs arbitrary: s)
  case Nil
  then show ?case by simp
next
  case (Cons a xs)
  then obtain n where n: "heap s a = Some n" "list n = Some L_otherThreads"
    by auto
  show ?case
  proof (cases "suspendCount n = 0")
    case True
    obtain s1 where s1: "removeThread g a s = Some s1" "heap s1 = (heap s)(a := None)" "quiet_ext s s1"
      "runningThreads s1 = runningThreads s" "runningVThreads s1 = runningVThreads s"
      "suspendAllCount s1 = suspendAllCount s"
      using removeThread_other [OF n tlsset] by blast
    have pre: "distinct xs" "\<forall>b\<in>set xs. \<exists>m. heap s1 b = Some m \<and> list m = Some L_otherThreads"
      using Cons.prems s1(2) by auto
    obtain s' where s': "removeResumed_from g xs s1 = Some s'" "quiet_ext s1 s'"
      "\<forall>b. heap s' b = (if b \<in> set xs \<and> (\<exists>m. heap s1 b = Some m \<and> suspendCount m = 0) then None else heap s1 b)"
      "runningThreads s' = runningThreads s1" "runningVThreads s' = runningVThreads s1"
      "suspendAllCount s' = suspendAllCount s1"
      using Cons.IH [OF pre] by blast
    have "removeResumed_from g (a # xs) s = Some s'"
      using n True s1(1) s'(1) by simp
    moreover have "quiet_ext s s'" using s1(3) s'(2) by (rule quiet_ext_trans)
    ultimately show ?thesis
      using s1 s' n True Cons.prems(1) by auto
  next
    case False
    have pre: "distinct xs" "\<forall>b\<in>set xs. \<exists>m. heap s b = Some m \<and> list m = Some L_otherThreads"
      using Cons.prems by auto
    obtain s' where s': "removeResumed_from g xs s = Some s'" "quiet_ext s s'"
      "\<forall>b. heap s' b = (if b \<in> set xs \<and> (\<exists>m. heap s b = Some m \<and> suspendCount m = 0) then None else heap s b)"
      "runningThreads s' = runningThreads s" "runningVThreads s' = runningVThreads s"
      "suspendAllCount s' = suspendAllCount s"
      using Cons.IH [OF pre] by blast
    have "removeResumed_from g (a # xs) s = Some s'"
      using n False s'(1) by simp
    then show ?thesis
      using s' n False Cons.prems(1) by auto
  qed
qed


lemma commonResume_zero:
  assumes tlsget: "jvmti g (trace s) (GetThreadLocalStorage t) = JVMTI_ERROR_NONE
                 \<or> jvmti g (trace s) (GetThreadLocalStorage t) = JVMTI_ERROR_THREAD_NOT_ALIVE"
    and slot: "\<forall>a. tls s t = Some a \<longrightarrow> heap s a \<noteq> None"
    and zero: "\<forall>a n. heap s a = Some n \<and> (tls s t = Some a \<or> thread n = t) \<longrightarrow> suspendCount n = 0"
  shows "commonResume g t s = Some (JVMTI_ERROR_NONE, emit (GetThreadLocalStorage t) s)"
proof -
  obtain r where r: "findThread g None t s = Some (r, emit (GetThreadLocalStorage t) s)"
    using findThread_total [OF tlsget slot] by blast
  show ?thesis
  proof (cases r)
    case None
    with r show ?thesis by (simp add: commonResume_def)
  next
    case (Some a)
    with r obtain n where n: "heap s a = Some n" "tls s t = Some a \<or> thread n = t"
      using findThread_found [of g None t s a] by blast
    then have "suspendCount n = 0" using zero by blast
    with r Some n show ?thesis
      by (simp add: commonResume_def resumeThreadByNode_def)
  qed
qed

text \<open>
  C5, as the code has it. Let every node that the lookup of \<open>t\<close> can find (through the
  thread-local slot or by the thread itself) have \<open>suspendCount = 0\<close>, or let there be
  none. Then \<^verbatim>\<open>commonResume\<close> changes nothing: its only call is the read of the slot.
  \<^verbatim>\<open>threadControl_resumeThread\<close> returns success and calls no suspend or resume
  primitive; the running lists and \<open>suspendAllCount\<close> are unchanged and no field of a
  node changes. Its sweep frees the nodes of \<open>otherThreads\<close> whose \<open>suspendCount\<close> is 0,
  and only those. The hypotheses say that the runtime answers the slot calls and that
  \<open>otherThreads\<close> is a list of distinct nodes that are marked as being in it.
\<close>

theorem resumeThread_at_zero:
  assumes tlsget: "\<forall>tr. jvmti g tr (GetThreadLocalStorage t) = JVMTI_ERROR_NONE
                     \<or> jvmti g tr (GetThreadLocalStorage t) = JVMTI_ERROR_THREAD_NOT_ALIVE"
    and tlsset: "\<forall>tr t'. jvmti g tr (SetThreadLocalStorage t' None) = JVMTI_ERROR_NONE
                   \<or> jvmti g tr (SetThreadLocalStorage t' None) = JVMTI_ERROR_THREAD_NOT_ALIVE"
    and dist: "distinct (otherThreads s)"
    and oth: "\<forall>a\<in>set (otherThreads s). \<exists>n. heap s a = Some n \<and> list n = Some L_otherThreads"
    and slot: "\<forall>a. tls s t = Some a \<longrightarrow> heap s a \<noteq> None"
    and zero: "\<forall>a n. heap s a = Some n \<and> (tls s t = Some a \<or> thread n = t) \<longrightarrow> suspendCount n = 0"
  shows "commonResume g t s = Some (JVMTI_ERROR_NONE, emit (GetThreadLocalStorage t) s)
     \<and> (\<exists>s'. threadControl_resumeThread g t do_unblock s = Some (JVMTI_ERROR_NONE, s')
          \<and> quiet_ext s s'
          \<and> (\<forall>a. heap s' a = (if a \<in> set (otherThreads s) \<and> (\<exists>n. heap s a = Some n \<and> suspendCount n = 0)
                                 then None else heap s a))
          \<and> runningThreads s' = runningThreads s \<and> runningVThreads s' = runningVThreads s
          \<and> suspendAllCount s' = suspendAllCount s)"
proof
  show "commonResume g t s = Some (JVMTI_ERROR_NONE, emit (GetThreadLocalStorage t) s)"
    using tlsget slot zero by (intro commonResume_zero) auto
next
  let ?s1 = "emit (debugMonitorEnter threadLock) (emit (debugMonitorEnter eventHandler_lock) s)"
  let ?s2 = "emit (GetThreadLocalStorage t) ?s1"
  have cr: "commonResume g t ?s1 = Some (JVMTI_ERROR_NONE, ?s2)"
    using tlsget slot zero by (intro commonResume_zero) auto
  have pre: "distinct (thread_list L_otherThreads ?s2)"
    "\<forall>a\<in>set (thread_list L_otherThreads ?s2). \<exists>n. heap ?s2 a = Some n \<and> list n = Some L_otherThreads"
    using dist oth by (simp_all add: thread_list_def)
  obtain s3 where s3: "removeResumed_from g (thread_list L_otherThreads ?s2) ?s2 = Some s3"
    "quiet_ext ?s2 s3"
    "\<forall>a. heap s3 a = (if a \<in> set (thread_list L_otherThreads ?s2) \<and> (\<exists>n. heap ?s2 a = Some n \<and> suspendCount n = 0)
                          then None else heap ?s2 a)"
    "runningThreads s3 = runningThreads ?s2" "runningVThreads s3 = runningVThreads ?s2"
    "suspendAllCount s3 = suspendAllCount ?s2"
    using removeResumed_from_other [OF tlsset pre] by blast
  let ?s4 = "emit (debugMonitorExit eventHandler_lock) (emit (debugMonitorExit threadLock) s3)"
  let ?s5 = "if do_unblock then emit unblockCommandLoop ?s4 else ?s4"
  have res: "threadControl_resumeThread g t do_unblock s = Some (JVMTI_ERROR_NONE, ?s5)"
    using cr s3(1) by (simp add: threadControl_resumeThread_def removeResumed_def Let_def)
  have q: "quiet_ext s ?s2" by (simp add: quiet_ext_def)
  have "quiet_ext s s3" using q s3(2) by (rule quiet_ext_trans)
  then have "quiet_ext s ?s5" by (auto simp add: quiet_ext_def)
  then show "\<exists>s'. threadControl_resumeThread g t do_unblock s = Some (JVMTI_ERROR_NONE, s')
          \<and> quiet_ext s s'
          \<and> (\<forall>a. heap s' a = (if a \<in> set (otherThreads s) \<and> (\<exists>n. heap s a = Some n \<and> suspendCount n = 0)
                                 then None else heap s a))
          \<and> runningThreads s' = runningThreads s \<and> runningVThreads s' = runningVThreads s
          \<and> suspendAllCount s' = suspendAllCount s"
    using res s3(3-6) by (intro exI [of _ ?s5]) (auto simp add: thread_list_def)
qed

text \<open>A resume of the running thread 7, which is not suspended.\<close>

theorem resumeThread_at_zero_witness:
  "map_option suspendCount (heap s_one 1) = Some 0
   \<and> (\<exists>s'. threadControl_resumeThread g_ok 7 True s_one = Some (JVMTI_ERROR_NONE, s')
          \<and> quiet_ext s_one s' \<and> heap s' 1 = heap s_one 1)"
proof -
  have a: "\<forall>tr. jvmti g_ok tr (GetThreadLocalStorage 7) = JVMTI_ERROR_NONE
              \<or> jvmti g_ok tr (GetThreadLocalStorage 7) = JVMTI_ERROR_THREAD_NOT_ALIVE"
    and b: "\<forall>tr t'. jvmti g_ok tr (SetThreadLocalStorage t' None) = JVMTI_ERROR_NONE
              \<or> jvmti g_ok tr (SetThreadLocalStorage t' None) = JVMTI_ERROR_THREAD_NOT_ALIVE"
    by (simp_all add: g_ok_def)
  have c: "distinct (otherThreads s_one)"
    "\<forall>a\<in>set (otherThreads s_one). \<exists>n. heap s_one a = Some n \<and> list n = Some L_otherThreads"
    "\<forall>a. tls s_one 7 = Some a \<longrightarrow> heap s_one a \<noteq> None"
    "\<forall>a n. heap s_one a = Some n \<and> (tls s_one 7 = Some a \<or> thread n = 7) \<longrightarrow> suspendCount n = 0"
    by (auto simp add: s_one_def threadControl_initialize_def emit_def set_node_def zero_node_def)
  have d: "otherThreads s_one = []" "map_option suspendCount (heap s_one 1) = Some 0"
    by (simp_all add: s_one_def threadControl_initialize_def emit_def set_node_def zero_node_def)
  from resumeThread_at_zero [OF a b c, of True] d show ?thesis
    by auto
qed

subsection \<open>Lookups in states of the same shape\<close>

lemma shape_eq_refl [simp]: "shape_eq s s"
  by (simp add: shape_eq_def)

lemma shape_eq_trans: "shape_eq s s1 \<Longrightarrow> shape_eq s1 s2 \<Longrightarrow> shape_eq s s2"
proof -
  assume a: "shape_eq s s1" and b: "shape_eq s1 s2"
  have "\<And>a. map_option (\<lambda>n. (thread n, list n)) (heap s2 a) = map_option (\<lambda>n. (thread n, list n)) (heap s a)"
  proof -
    fix a
    have "map_option (\<lambda>n. (thread n, list n)) (heap s2 a) = map_option (\<lambda>n. (thread n, list n)) (heap s1 a)"
      using b unfolding shape_eq_def by blast
    also have "\<dots> = map_option (\<lambda>n. (thread n, list n)) (heap s a)"
      using a unfolding shape_eq_def by blast
    finally show "map_option (\<lambda>n. (thread n, list n)) (heap s2 a) = map_option (\<lambda>n. (thread n, list n)) (heap s a)" .
  qed
  moreover have "tls s2 = tls s" "runningThreads s2 = runningThreads s"
    "otherThreads s2 = otherThreads s" "runningVThreads s2 = runningVThreads s"
    using a b unfolding shape_eq_def by simp_all
  ultimately show ?thesis unfolding shape_eq_def by blast
qed

lemma shape_eq_emit [simp]: "shape_eq s (emit c s1) = shape_eq s s1"
  by (simp add: shape_eq_def)

lemma shape_eq_heap:
  assumes "shape_eq s s'"
  shows "(case heap s' a of None \<Rightarrow> False | Some n \<Rightarrow> thread n = t)
       = (case heap s a of None \<Rightarrow> False | Some n \<Rightarrow> thread n = t)"
proof -
  have "map_option (\<lambda>n. (thread n, list n)) (heap s' a) = map_option (\<lambda>n. (thread n, list n)) (heap s a)"
    using assms by (simp add: shape_eq_def)
  then show ?thesis by (cases "heap s a"; cases "heap s' a") auto
qed

lemma shape_eq_nonTlsSearch:
  assumes "shape_eq s s'"
  shows "nonTlsSearch s' l t = nonTlsSearch s l t"
proof -
  have "thread_list l s' = thread_list l s"
    using assms by (simp add: shape_eq_def thread_list_def split: ThreadList.splits)
  moreover have "(\<lambda>a. case heap s' a of None \<Rightarrow> False | Some n \<Rightarrow> thread n = t)
               = (\<lambda>a. case heap s a of None \<Rightarrow> False | Some n \<Rightarrow> thread n = t)"
    using shape_eq_heap [OF assms] by blast
  ultimately show ?thesis by (simp add: nonTlsSearch_def)
qed

lemma shape_eq_search:
  assumes "shape_eq s s'"
  shows "findThread_search g l t s' = findThread_search g l t s"
  by (simp only: findThread_search_def shape_eq_nonTlsSearch [OF assms])

lemma shape_eq_slots:
  assumes "shape_eq s s'" and "slots_ok s"
  shows "slots_ok s'"
  unfolding slots_ok_def
proof (intro allI impI)
  fix t a
  assume "tls s' t = Some a"
  then have "tls s t = Some a"
    using assms(1) by (simp add: shape_eq_def)
  then have "case heap s a of None \<Rightarrow> False | Some n \<Rightarrow> thread n = t"
    using assms(2) by (simp add: slots_ok_def)
  then show "case heap s' a of None \<Rightarrow> False | Some n \<Rightarrow> thread n = t"
    using shape_eq_heap [OF assms(1), where a = a and t = t] by simp
qed

lemma findThread_by_slot:
  assumes "jvmti g (trace s) (GetThreadLocalStorage t) = JVMTI_ERROR_NONE"
  shows "findThread g l t s =
     (case (if tls s t = None then findThread_search g l t s else tls s t) of
        None \<Rightarrow> Some (None, emit (GetThreadLocalStorage t) s)
      | Some a \<Rightarrow> (case heap s a of None \<Rightarrow> None
          | Some n \<Rightarrow> if l \<noteq> None \<and> list n \<noteq> l then Some (None, emit (GetThreadLocalStorage t) s)
                      else Some (Some a, emit (GetThreadLocalStorage t) s)))"
  using assms
  by (auto simp add: findThread_def getThreadLocalStorage_eq split: option.splits)

lemma findThread_shape:
  assumes rt: "\<forall>tr t'. jvmti g tr (GetThreadLocalStorage t') = JVMTI_ERROR_NONE"
    and sh: "shape_eq s s'"
  shows "Option.bind (findThread g l t s') fst = Option.bind (findThread g l t s) fst"
proof -
  have tls: "tls s' t = tls s t" using sh by (simp add: shape_eq_def)
  have srch: "findThread_search g l t s' = findThread_search g l t s"
    using sh by (rule shape_eq_search)
  define node1 where "node1 = (if tls s t = None then findThread_search g l t s else tls s t)"
  have e: "findThread g l t s =
     (case node1 of
        None \<Rightarrow> Some (None, emit (GetThreadLocalStorage t) s)
      | Some a \<Rightarrow> (case heap s a of None \<Rightarrow> None
          | Some n \<Rightarrow> if l \<noteq> None \<and> list n \<noteq> l then Some (None, emit (GetThreadLocalStorage t) s)
                      else Some (Some a, emit (GetThreadLocalStorage t) s)))"
    unfolding node1_def using rt by (intro findThread_by_slot) simp
  have e': "findThread g l t s' =
     (case node1 of
        None \<Rightarrow> Some (None, emit (GetThreadLocalStorage t) s')
      | Some a \<Rightarrow> (case heap s' a of None \<Rightarrow> None
          | Some n \<Rightarrow> if l \<noteq> None \<and> list n \<noteq> l then Some (None, emit (GetThreadLocalStorage t) s')
                      else Some (Some a, emit (GetThreadLocalStorage t) s')))"
    unfolding node1_def tls [symmetric] srch [symmetric] using rt by (intro findThread_by_slot) simp
  show ?thesis
  proof (cases node1)
    case None
    then show ?thesis by (simp add: e e')
  next
    case (Some a)
    have m: "map_option (\<lambda>n. (thread n, list n)) (heap s' a) = map_option (\<lambda>n. (thread n, list n)) (heap s a)"
      using sh by (simp add: shape_eq_def)
    show ?thesis
    proof (cases "heap s a")
      case None
      then have "heap s' a = None" using m by simp
      with None Some show ?thesis by (simp add: e e')
    next
      case (Some n)
      then obtain n' where n': "heap s' a = Some n'" "list n' = list n"
        using m by (cases "heap s' a") auto
      with Some \<open>node1 = Some a\<close> show ?thesis by (simp add: e e')
    qed
  qed
qed

lemma lookup_shape:
  assumes rt: "\<forall>tr t'. jvmti g tr (GetThreadLocalStorage t') = JVMTI_ERROR_NONE"
    and sh: "shape_eq s s'"
  shows "lookup_running g t s' = lookup_running g t s"
  using findThread_shape [OF rt sh] by (simp add: lookup_running_def findRunningThread_def)

lemma lookup_total:
  assumes rt: "\<forall>tr t'. jvmti g tr (GetThreadLocalStorage t') = JVMTI_ERROR_NONE"
    and ok: "slots_ok s"
  shows "findRunningThread g t s = Some (lookup_running g t s, emit (GetThreadLocalStorage t) s)"
proof -
  have a: "jvmti g (trace s) (GetThreadLocalStorage t) = JVMTI_ERROR_NONE
         \<or> jvmti g (trace s) (GetThreadLocalStorage t) = JVMTI_ERROR_THREAD_NOT_ALIVE"
    using rt by simp
  have b: "\<forall>a. tls s t = Some a \<longrightarrow> heap s a \<noteq> None"
    using ok by (auto simp add: slots_ok_def split: option.splits)
  obtain r where "findThread g (Some (if isVThread g t then L_runningVThreads else L_runningThreads)) t s
                    = Some (r, emit (GetThreadLocalStorage t) s)"
    using findThread_total [OF a b] by blast
  then show ?thesis
    by (simp add: lookup_running_def findRunningThread_def split: if_splits)
qed

lemma lookup_node:
  assumes ok: "slots_ok s" and l: "lookup_running g t s = Some a"
  shows "\<exists>n. heap s a = Some n \<and> thread n = t"
proof -
  obtain s' where "findRunningThread g t s = Some (Some a, s')"
    using l by (cases "findRunningThread g t s") (auto simp add: lookup_running_def)
  then obtain n where n: "heap s a = Some n" "tls s t = Some a \<or> thread n = t"
    using findThread_found [of g _ t s a s'] by (auto simp add: findRunningThread_def split: if_splits)
  then show ?thesis
    using ok by (auto simp add: slots_ok_def split: option.splits)
qed

lemma lookup_emit:
  assumes rt: "\<forall>tr t'. jvmti g tr (GetThreadLocalStorage t') = JVMTI_ERROR_NONE"
  shows "lookup_running g t (emit c s) = lookup_running g t s"
  by (rule lookup_shape [OF rt]) simp

lemma slots_ok_emit [simp]: "slots_ok (emit c s) = slots_ok s"
  by (simp add: slots_ok_def)

subsection \<open>Co-located events\<close>

lemma saveCLEInfo_step:
  assumes rt: "\<forall>tr t'. jvmti g tr (GetThreadLocalStorage t') = JVMTI_ERROR_NONE"
    and ref: "\<forall>tr c. jvmti g tr (NewGlobalRef c) = JVMTI_ERROR_NONE"
    and ok: "slots_ok s"
  shows "\<exists>s1. threadControl_saveCLEInfo g t ei c m l s = Some s1 \<and> shape_eq s s1
     \<and> (\<forall>a. heap s1 a = (if lookup_running g t s = Some a
           then map_option (\<lambda>n. n\<lparr>cleInfo := \<lparr> cle_ei = ei, cle_clazz = c, cle_method = m, cle_location = l \<rparr>\<rparr>) (heap s a)
           else heap s a))"
proof -
  let ?s1 = "emit (debugMonitorEnter threadLock) s"
  have f: "findRunningThread g t ?s1 = Some (lookup_running g t s, emit (GetThreadLocalStorage t) ?s1)"
    using lookup_total [OF rt, of ?s1 t] ok lookup_emit [OF rt] by simp
  show ?thesis
  proof (cases "lookup_running g t s")
    case None
    with f show ?thesis
      by (simp add: threadControl_saveCLEInfo_def)
  next
    case (Some a)
    then obtain n where n: "heap s a = Some n"
      using lookup_node [OF ok] by blast
    with f Some ref show ?thesis
      by (auto simp add: threadControl_saveCLEInfo_def saveGlobalRef_def jvmti_call_def shape_eq_def)
  qed
qed

lemma clearCLEInfo_step:
  assumes rt: "\<forall>tr t'. jvmti g tr (GetThreadLocalStorage t') = JVMTI_ERROR_NONE"
    and ok: "slots_ok s"
  shows "\<exists>s1. threadControl_clearCLEInfo g t s = Some s1 \<and> shape_eq s s1
     \<and> (\<forall>a. heap s1 a = (if lookup_running g t s = Some a
           then map_option (\<lambda>n. n\<lparr>cleInfo := (cleInfo n)\<lparr>cle_ei := EI_NONE, cle_clazz := 0\<rparr>\<rparr>) (heap s a)
           else heap s a))"
proof -
  let ?s1 = "emit (debugMonitorEnter threadLock) s"
  have f: "findRunningThread g t ?s1 = Some (lookup_running g t s, emit (GetThreadLocalStorage t) ?s1)"
    using lookup_total [OF rt, of ?s1 t] ok lookup_emit [OF rt] by simp
  show ?thesis
  proof (cases "lookup_running g t s")
    case None
    with f show ?thesis
      by (simp add: threadControl_clearCLEInfo_def)
  next
    case (Some a)
    then obtain n where n: "heap s a = Some n"
      using lookup_node [OF ok] by blast
    show ?thesis
    proof (cases "cle_clazz (cleInfo n) = 0")
      case True
      with f Some n show ?thesis
        by (auto simp add: threadControl_clearCLEInfo_def shape_eq_def Let_def)
    next
      case False
      with f Some n show ?thesis
        by (auto simp add: threadControl_clearCLEInfo_def tossGlobalRef_def shape_eq_def Let_def)
    qed
  qed
qed

lemma lookup_distinct:
  assumes ok: "slots_ok s" and a: "lookup_running g t s = Some a" and b: "lookup_running g t' s = Some a"
  shows "t' = t"
  using lookup_node [OF ok a] lookup_node [OF ok b] by auto

lemma run_cle_history:
  assumes rt: "\<forall>tr t'. jvmti g tr (GetThreadLocalStorage t') = JVMTI_ERROR_NONE"
    and ref: "\<forall>tr c. jvmti g tr (NewGlobalRef c) = JVMTI_ERROR_NONE"
  shows "slots_ok s \<Longrightarrow>
     (\<forall>a n. lookup_running g t s = Some a \<longrightarrow> heap s a = Some n \<longrightarrow> cle_matches n r) \<Longrightarrow>
     \<exists>s1. run_cle g ops s = Some s1 \<and> slots_ok s1 \<and> lookup_running g t s1 = lookup_running g t s
       \<and> (\<forall>a n. lookup_running g t s1 = Some a \<longrightarrow> heap s1 a = Some n \<longrightarrow> cle_matches n (cle_history t ops r))"
proof (induction ops arbitrary: s r)
  case Nil
  then show ?case by simp
next
  case (Cons x ops)
  show ?case
  proof (cases x)
    case (SaveCLE t' ei c m l)
    let ?new = "\<lparr> cle_ei = ei, cle_clazz = c, cle_method = m, cle_location = l \<rparr>"
    let ?r = "if t' = t then Some ?new else r"
    obtain s1 where s1: "threadControl_saveCLEInfo g t' ei c m l s = Some s1" "shape_eq s s1"
      "\<forall>a. heap s1 a = (if lookup_running g t' s = Some a
           then map_option (\<lambda>n. n\<lparr>cleInfo := ?new\<rparr>) (heap s a) else heap s a)"
      using saveCLEInfo_step [OF rt ref Cons.prems(1)] by blast
    have ok1: "slots_ok s1" using s1(2) Cons.prems(1) by (rule shape_eq_slots)
    have lk: "lookup_running g t s1 = lookup_running g t s"
      using lookup_shape [OF rt s1(2)] .
    have m1: "\<forall>a n. lookup_running g t s1 = Some a \<longrightarrow> heap s1 a = Some n \<longrightarrow> cle_matches n ?r"
    proof (intro allI impI)
      fix a n
      assume a: "lookup_running g t s1 = Some a" and h: "heap s1 a = Some n"
      have la: "lookup_running g t s = Some a" using a lk by simp
      show "cle_matches n ?r"
      proof (cases "t' = t")
        case True
        then show ?thesis using s1(3) la h by (auto simp add: cle_matches_def)
      next
        case False
        then have "lookup_running g t' s \<noteq> Some a"
          using lookup_distinct [OF Cons.prems(1) la] by blast
        then have "heap s a = Some n" using s1(3) h by simp
        then show ?thesis using Cons.prems(2) la False by simp
      qed
    qed
    obtain s2 where "run_cle g ops s1 = Some s2" "slots_ok s2"
      "lookup_running g t s2 = lookup_running g t s1"
      "\<forall>a n. lookup_running g t s2 = Some a \<longrightarrow> heap s2 a = Some n \<longrightarrow> cle_matches n (cle_history t ops ?r)"
      using Cons.IH [OF ok1 m1] by blast
    then show ?thesis
      using SaveCLE s1(1) lk by (intro exI [of _ s2]) simp
  next
    case (ClearCLE t')
    let ?r = "if t' = t then None else r"
    obtain s1 where s1: "threadControl_clearCLEInfo g t' s = Some s1" "shape_eq s s1"
      "\<forall>a. heap s1 a = (if lookup_running g t' s = Some a
           then map_option (\<lambda>n. n\<lparr>cleInfo := (cleInfo n)\<lparr>cle_ei := EI_NONE, cle_clazz := 0\<rparr>\<rparr>) (heap s a)
           else heap s a)"
      using clearCLEInfo_step [OF rt Cons.prems(1)] by blast
    have ok1: "slots_ok s1" using s1(2) Cons.prems(1) by (rule shape_eq_slots)
    have lk: "lookup_running g t s1 = lookup_running g t s"
      using lookup_shape [OF rt s1(2)] .
    have m1: "\<forall>a n. lookup_running g t s1 = Some a \<longrightarrow> heap s1 a = Some n \<longrightarrow> cle_matches n ?r"
    proof (intro allI impI)
      fix a n
      assume a: "lookup_running g t s1 = Some a" and h: "heap s1 a = Some n"
      have la: "lookup_running g t s = Some a" using a lk by simp
      show "cle_matches n ?r"
      proof (cases "t' = t")
        case True
        then show ?thesis using s1(3) la h by (auto simp add: cle_matches_def)
      next
        case False
        then have "lookup_running g t' s \<noteq> Some a"
          using lookup_distinct [OF Cons.prems(1) la] by blast
        then have "heap s a = Some n" using s1(3) h by simp
        then show ?thesis using Cons.prems(2) la False by simp
      qed
    qed
    obtain s2 where "run_cle g ops s1 = Some s2" "slots_ok s2"
      "lookup_running g t s2 = lookup_running g t s1"
      "\<forall>a n. lookup_running g t s2 = Some a \<longrightarrow> heap s2 a = Some n \<longrightarrow> cle_matches n (cle_history t ops ?r)"
      using Cons.IH [OF ok1 m1] by blast
    then show ?thesis
      using ClearCLE s1(1) lk by (intro exI [of _ s2]) simp
  qed
qed

text \<open>
  C8. Let the runtime answer the slot reads and make the global references, let every
  slot point at a node of its thread, and let no node hold a co-located event yet. After
  any sequence of \<^verbatim>\<open>saveCLEInfo\<close> and \<^verbatim>\<open>clearCLEInfo\<close> calls (on any threads),
  \<^verbatim>\<open>threadControl_cmpCLEInfo\<close> on \<open>t\<close> returns true iff \<open>t\<close> has a running node and the most
  recent \<^verbatim>\<open>saveCLEInfo\<close> on \<open>t\<close>, with no \<^verbatim>\<open>clearCLEInfo\<close> on \<open>t\<close> after it, stored an
  event index that is not none, the same method and location, and the same class object.
  In every other case it returns false.
\<close>

theorem cmpCLEInfo_history:
  assumes rt: "\<forall>tr t'. jvmti g tr (GetThreadLocalStorage t') = JVMTI_ERROR_NONE"
    and ref: "\<forall>tr c. jvmti g tr (NewGlobalRef c) = JVMTI_ERROR_NONE"
    and ok: "slots_ok s"
    and fresh: "\<forall>a n. heap s a = Some n \<longrightarrow> cle_ei (cleInfo n) = EI_NONE"
  shows "\<exists>s1 s2. run_cle g ops s = Some s1
     \<and> threadControl_cmpCLEInfo g t c m l s1
         = Some (lookup_running g t s \<noteq> None \<and> cmpCLEInfo_spec t ops c m l, s2)"
proof -
  have m0: "\<forall>a n. lookup_running g t s = Some a \<longrightarrow> heap s a = Some n \<longrightarrow> cle_matches n None"
    using fresh by (simp add: cle_matches_def)
  obtain s1 where s1: "run_cle g ops s = Some s1" "slots_ok s1"
    "lookup_running g t s1 = lookup_running g t s"
    "\<forall>a n. lookup_running g t s1 = Some a \<longrightarrow> heap s1 a = Some n \<longrightarrow> cle_matches n (cle_history t ops None)"
    using run_cle_history [OF rt ref ok m0] by blast
  let ?s2 = "emit (debugMonitorEnter threadLock) s1"
  have f: "findRunningThread g t ?s2 = Some (lookup_running g t s, emit (GetThreadLocalStorage t) ?s2)"
    using lookup_total [OF rt, of ?s2 t] s1(2,3) lookup_emit [OF rt] by simp
  show ?thesis
  proof (cases "lookup_running g t s")
    case None
    with f s1(1) show ?thesis
      by (simp add: threadControl_cmpCLEInfo_def)
  next
    case (Some a)
    then obtain n where n: "heap s1 a = Some n"
      using lookup_node [OF s1(2), of g t a] s1(3) by auto
    then have "cle_matches n (cle_history t ops None)"
      using s1(3,4) Some by simp
    with f s1(1) Some n show ?thesis
      by (auto simp add: threadControl_cmpCLEInfo_def cmpCLEInfo_spec_def cle_matches_def
          split: option.splits)
  qed
qed

text \<open>A clear and then a save of a breakpoint on the running thread 7.\<close>

theorem cmpCLEInfo_history_witness:
  "lookup_running g_ok 7 s_one = Some 1
   \<and> cmpCLEInfo_spec 7 [ClearCLE 7, SaveCLE 7 EI_BREAKPOINT 5 3 4] 5 3 4
   \<and> (\<exists>s1 s2. run_cle g_ok [ClearCLE 7, SaveCLE 7 EI_BREAKPOINT 5 3 4] s_one = Some s1
         \<and> threadControl_cmpCLEInfo g_ok 7 5 3 4 s1 = Some (True, s2))"
proof -
  have rt: "\<forall>tr t'. jvmti g_ok tr (GetThreadLocalStorage t') = JVMTI_ERROR_NONE"
    and ref: "\<forall>tr c. jvmti g_ok tr (NewGlobalRef c) = JVMTI_ERROR_NONE"
    by (simp_all add: g_ok_def)
  have ok: "slots_ok s_one"
    by (simp add: slots_ok_def s_one_def threadControl_initialize_def emit_def set_node_def zero_node_def)
  have fresh: "\<forall>a n. heap s_one a = Some n \<longrightarrow> cle_ei (cleInfo n) = EI_NONE"
    by (auto simp add: s_one_def threadControl_initialize_def emit_def set_node_def zero_node_def)
  have lk: "lookup_running g_ok 7 s_one = Some 1"
    by (simp add: lookup_running_def findRunningThread_def findThread_def getThreadLocalStorage_eq
        s_one_def threadControl_initialize_def emit_def set_node_def zero_node_def g_ok_def)
  have sp: "cmpCLEInfo_spec 7 [ClearCLE 7, SaveCLE 7 EI_BREAKPOINT 5 3 4] 5 3 4"
    by (simp add: cmpCLEInfo_spec_def)
  from cmpCLEInfo_history [OF rt ref ok fresh, of "[ClearCLE 7, SaveCLE 7 EI_BREAKPOINT 5 3 4]" 7 5 3 4]
  show ?thesis using lk sp by simp
qed

subsection \<open>The list resume\<close>

lemma resumeCount_enum:
  "\<forall>a\<in>set xs. heap s a \<noteq> None \<Longrightarrow>
   enumerate_from resumeCountHelper xs c s
     = Some (JVMTI_ERROR_NONE, c + of_nat (length (filter (hard_at s) xs)), s)"
proof (induction xs arbitrary: c)
  case Nil
  then show ?case by simp
next
  case (Cons a xs)
  then obtain n where n: "heap s a = Some n" by auto
  have IH: "\<And>c. enumerate_from resumeCountHelper xs c s
     = Some (JVMTI_ERROR_NONE, c + of_nat (length (filter (hard_at s) xs)), s)"
    using Cons by simp
  have step: "resumeCountHelper a c s
     = Some (JVMTI_ERROR_NONE, (if hard_resume n then c + 1 else c), s)"
    using n by (simp add: resumeCountHelper_def hard_resume_def)
  have ha: "hard_at s a = hard_resume n"
    using n by (simp add: hard_at_def)
  show ?case
    by (simp add: step IH ha)
qed

lemma upd_nodes_Nil [simp]: "upd_nodes f [] s = s"
  by (simp add: upd_nodes_def)

lemma upd_nodes_Cons:
  "a \<notin> set xs \<Longrightarrow> heap s a = Some n \<Longrightarrow>
   upd_nodes f xs (set_node a (f n) s) = upd_nodes f (a # xs) s"
  by (auto simp add: upd_nodes_def set_node_def intro!: arg_cong [where f = "\<lambda>h. s\<lparr>heap := h\<rparr>"])

lemma upd_nodes_Cons_same:
  "a \<notin> set xs \<Longrightarrow> heap s a = Some n \<Longrightarrow> f n = n \<Longrightarrow>
   upd_nodes f xs s = upd_nodes f (a # xs) s"
  by (auto simp add: upd_nodes_def intro!: arg_cong [where f = "\<lambda>h. s\<lparr>heap := h\<rparr>"])

lemma hard_at_set_node_other [simp]: "b \<noteq> a \<Longrightarrow> hard_at (set_node a n s) b = hard_at s b"
  by (simp add: hard_at_def)

lemma thread_at_set_node_other [simp]: "b \<noteq> a \<Longrightarrow> thread_at (set_node a n s) b = thread_at s b"
  by (simp add: thread_at_def)

lemma set_node_same: "heap s a = Some n \<Longrightarrow> set_node a n s = s"
  by (simp add: set_node_def map_upd_triv)

lemma resumeCopy_enum:
  "distinct xs \<Longrightarrow>
   \<forall>a\<in>set xs. case heap s a of None \<Rightarrow> False | Some n \<Rightarrow> \<not> (toBeResumed n \<and> suspendOnStart n) \<Longrightarrow>
   enumerate_from resumeCopyHelper xs (Some acc) s
     = Some (JVMTI_ERROR_NONE, Some (acc @ map (thread_at s) (filter (hard_at s) xs)),
             upd_nodes nested_resume xs s)"
proof (induction xs arbitrary: acc s)
  case Nil
  then show ?case by simp
next
  case (Cons a xs)
  then obtain n where n: "heap s a = Some n" "\<not> (toBeResumed n \<and> suspendOnStart n)"
    by (auto split: option.splits)
  have nin: "a \<notin> set xs" and dist: "distinct xs" using Cons.prems(1) by auto
  have filt: "\<And>s'. (\<forall>b\<in>set xs. heap s' b = heap s b) \<Longrightarrow>
      filter (hard_at s') xs = filter (hard_at s) xs \<and> map (thread_at s') (filter (hard_at s) xs) = map (thread_at s) (filter (hard_at s) xs)"
    by (auto simp add: hard_at_def thread_at_def intro!: filter_cong)
  show ?case
  proof (cases "hard_resume n")
    case True
    then have same: "nested_resume n = n"
      using n(2) by (auto simp add: hard_resume_def nested_resume_def)
    have step: "resumeCopyHelper a (Some acc) s = Some (JVMTI_ERROR_NONE, Some (acc @ [thread n]), s)"
      using n True by (auto simp add: resumeCopyHelper_def hard_resume_def)
    have pre: "\<forall>b\<in>set xs. case heap s b of None \<Rightarrow> False | Some n \<Rightarrow> \<not> (toBeResumed n \<and> suspendOnStart n)"
      using Cons.prems(2) by simp
    have ha: "hard_at s a" "thread_at s a = thread n"
      using n True by (simp_all add: hard_at_def thread_at_def)
    show ?thesis
      using step Cons.IH [OF dist pre, of "acc @ [thread n]"]
        upd_nodes_Cons_same [where f = nested_resume, OF nin n(1) same]
      by (simp add: ha)
  next
    case False
    let ?s1 = "set_node a (nested_resume n) s"
    have step: "resumeCopyHelper a (Some acc) s = Some (JVMTI_ERROR_NONE, Some acc, ?s1)"
    proof (cases "\<not> isDebugThread n
        \<and> (1 < sint (suspendCount n) \<or> (suspendCount n = 1 \<and> suspendOnStart n))")
      case True
      then have nr: "nested_resume n = n\<lparr>suspendCount := suspendCount n - 1\<rparr>"
        by (simp add: nested_resume_def)
      show ?thesis
        unfolding nr using n(1) True by (auto simp add: resumeCopyHelper_def)
    next
      case nb: False
      then have nr: "nested_resume n = n"
        by (auto simp add: nested_resume_def)
      have "resumeCopyHelper a (Some acc) s = Some (JVMTI_ERROR_NONE, Some acc, s)"
        using n(1) nb False by (auto simp add: resumeCopyHelper_def hard_resume_def)
      then show ?thesis
        unfolding nr using n(1) by (simp add: set_node_same)
    qed
    have hp: "\<forall>b\<in>set xs. heap ?s1 b = heap s b" using nin by auto
    have pre: "\<forall>b\<in>set xs. case heap ?s1 b of None \<Rightarrow> False | Some n \<Rightarrow> \<not> (toBeResumed n \<and> suspendOnStart n)"
      using Cons.prems(2) hp by simp
    have "enumerate_from resumeCopyHelper xs (Some acc) ?s1
        = Some (JVMTI_ERROR_NONE, Some (acc @ map (thread_at ?s1) (filter (hard_at ?s1) xs)),
             upd_nodes nested_resume xs ?s1)"
      using Cons.IH [OF dist pre] .
    moreover have ha: "\<not> hard_at s a"
      using n False by (simp add: hard_at_def)
    ultimately show ?thesis
      using step filt [OF hp] upd_nodes_Cons [where f = nested_resume, OF nin n(1)]
      by simp
  qed
qed

lemma heap_upd_nodes [simp]:
  "heap (upd_nodes f xs s) = (\<lambda>a. if a \<in> set xs then map_option f (heap s a) else heap s a)"
  by (simp add: upd_nodes_def)

lemma tls_upd_nodes [simp]: "tls (upd_nodes f xs s) = tls s"
  by (simp add: upd_nodes_def)

lemma trace_upd_nodes [simp]: "trace (upd_nodes f xs s) = trace s"
  by (simp add: upd_nodes_def)

lemma thread_list_upd_nodes [simp]: "thread_list l (upd_nodes f xs s) = thread_list l s"
  by (simp add: upd_nodes_def thread_list_def split: ThreadList.splits)

lemma enumerate_from_append:
  "enumerate_from f (xs @ ys) arg s =
     Option.bind (enumerate_from f xs arg s)
       (\<lambda>(e, arg1, s1). if e \<noteq> JVMTI_ERROR_NONE then Some (e, arg1, s1) else enumerate_from f ys arg1 s1)"
proof (induction xs arbitrary: arg s)
  case Nil
  then show ?case by simp
next
  case (Cons a xs)
  show ?case
  proof (cases "f a arg s")
    case None
    then show ?thesis by simp
  next
    case (Some r)
    obtain e arg1 s1 where r: "r = (e, arg1, s1)" by (cases r)
    show ?thesis
      using Some r Cons.IH [of arg1 s1] by simp
  qed
qed

lemma resumeCopy_enum_None:
  "\<forall>a\<in>set xs. heap s a \<noteq> None \<Longrightarrow>
   \<exists>s'. enumerate_from resumeCopyHelper xs None s = Some (JVMTI_ERROR_NONE, None, s')
     \<and> (\<forall>l. thread_list l s' = thread_list l s) \<and> (\<forall>a. heap s a \<noteq> None \<longrightarrow> heap s' a \<noteq> None)"
proof (induction xs arbitrary: s)
  case Nil
  then show ?case by simp
next
  case (Cons a xs)
  then obtain n where n: "heap s a = Some n" by auto
  have "\<exists>s1. resumeCopyHelper a None s = Some (JVMTI_ERROR_NONE, None, s1)
    \<and> (\<forall>l. thread_list l s1 = thread_list l s) \<and> (\<forall>b. heap s b \<noteq> None \<longrightarrow> heap s1 b \<noteq> None)"
    using n by (simp add: resumeCopyHelper_def)
  then obtain s1 where s1: "resumeCopyHelper a None s = Some (JVMTI_ERROR_NONE, None, s1)"
    "\<forall>l. thread_list l s1 = thread_list l s" "\<forall>b. heap s b \<noteq> None \<longrightarrow> heap s1 b \<noteq> None"
    by blast
  have "\<forall>b\<in>set xs. heap s1 b \<noteq> None" using Cons.prems s1(3) by simp
  then obtain s' where "enumerate_from resumeCopyHelper xs None s1 = Some (JVMTI_ERROR_NONE, None, s')"
    "\<forall>l. thread_list l s' = thread_list l s1" "\<forall>b. heap s1 b \<noteq> None \<longrightarrow> heap s' b \<noteq> None"
    using Cons.IH by blast
  then show ?case using s1 by (intro exI [of _ s']) simp
qed

lemma resumeList_loop:
  assumes rt: "\<forall>tr t'. jvmti g tr (GetThreadLocalStorage t') = JVMTI_ERROR_NONE"
  shows "distinct as \<Longrightarrow>
    \<forall>a\<in>set as. case heap s a of None \<Rightarrow> False
        | Some n \<Rightarrow> tls s (thread n) = Some a
            \<and> list n = Some (if isVThread g (thread n) then L_runningVThreads else L_runningThreads) \<Longrightarrow>
    \<exists>s'. commonResumeList_loop g (map (thread_at s) as) s = Some s'
      \<and> (\<forall>b. heap s' b = (if b \<in> set as then map_option resumed (heap s b) else heap s b))"
proof (induction as arbitrary: s)
  case Nil
  then show ?case by simp
next
  case (Cons a as)
  then obtain n where n: "heap s a = Some n" "tls s (thread n) = Some a"
    "list n = Some (if isVThread g (thread n) then L_runningVThreads else L_runningThreads)"
    by (auto split: option.splits)
  have nin: "a \<notin> set as" and dist: "distinct as" using Cons.prems(1) by auto
  have ta: "thread_at s a = thread n" using n(1) by (simp add: thread_at_def)
  let ?s1 = "emit (GetThreadLocalStorage (thread n)) s"
  let ?s2 = "set_node a (resumed n) ?s1"
  have f: "findRunningThread g (thread n) s = Some (Some a, ?s1)"
    using rt n by (intro findRunningThread_tls) auto
  have hp: "\<forall>b\<in>set as. heap ?s2 b = heap s b" using nin by auto
  have pre: "\<forall>b\<in>set as. case heap ?s2 b of None \<Rightarrow> False
        | Some n \<Rightarrow> tls ?s2 (thread n) = Some b
            \<and> list n = Some (if isVThread g (thread n) then L_runningVThreads else L_runningThreads)"
  proof (intro ballI)
    fix b
    assume b: "b \<in> set as"
    then have "heap ?s2 b = heap s b" using hp by blast
    moreover have "case heap s b of None \<Rightarrow> False
        | Some n \<Rightarrow> tls s (thread n) = Some b
            \<and> list n = Some (if isVThread g (thread n) then L_runningVThreads else L_runningThreads)"
      using Cons.prems(2) b by simp
    ultimately show "case heap ?s2 b of None \<Rightarrow> False
        | Some n \<Rightarrow> tls ?s2 (thread n) = Some b
            \<and> list n = Some (if isVThread g (thread n) then L_runningVThreads else L_runningThreads)"
      by (simp only: tls_set_node tls_emit)
  qed
  have mp: "map (thread_at ?s2) as = map (thread_at s) as"
    using hp by (simp add: thread_at_def)
  obtain s' where s': "commonResumeList_loop g (map (thread_at ?s2) as) ?s2 = Some s'"
    "\<forall>b. heap s' b = (if b \<in> set as then map_option resumed (heap ?s2 b) else heap ?s2 b)"
    using Cons.IH [OF dist pre] by blast
  have "commonResumeList_loop g (map (thread_at s) (a # as)) s = Some s'"
    using f n(1) s'(1) [unfolded mp] by (simp add: ta resumed_def)
  moreover have "\<forall>b. heap s' b = (if b \<in> set (a # as) then map_option resumed (heap s b) else heap s b)"
    using s'(2) n(1) nin by auto
  ultimately show ?case by blast
qed

lemma hard_at_emit [simp]: "hard_at (emit c s) = hard_at s"
  by (rule ext) (simp add: hard_at_def)

lemma thread_at_emit [simp]: "thread_at (emit c s) = thread_at s"
  by (rule ext) (simp add: thread_at_def)

lemma unat_count:
  assumes "k < 2 ^ 31"
  shows "unat (of_nat k :: jint) = k"
proof -
  have "k < 2 ^ LENGTH(32)" using assms by simp
  then show ?thesis by (simp add: unat_of_nat)
qed

lemma array_of_full: "length xs = k \<Longrightarrow> array_of k z xs = xs"
  by (simp add: array_of_def)

lemma findThread_list_results [simp]:
  "findThread (g\<lparr>list_results := r\<rparr>) l t s = findThread g l t s"
  by (simp add: findThread_def getThreadLocalStorage_def jvmti_call_def findThread_search_def)

lemma findRunningThread_list_results [simp]:
  "findRunningThread (g\<lparr>list_results := r\<rparr>) t s = findRunningThread g t s"
  by (simp add: findRunningThread_def)

lemma commonResumeList_loop_list_results [simp]:
  "commonResumeList_loop (g\<lparr>list_results := r\<rparr>) ts s = commonResumeList_loop g ts s"
  by (induction ts arbitrary: s) simp_all

lemma newArray_list_results [simp]: "newArray (g\<lparr>list_results := r\<rparr>) k s = newArray g k s"
  by (simp add: newArray_def jvmti_call_def)

lemma jvmti_call_list_results [simp]: "jvmti_call (g\<lparr>list_results := r\<rparr>) c s = jvmti_call g c s"
  by (simp add: jvmti_call_def)

lemma commonResumeList_list_results:
  "commonResumeList (g\<lparr>list_results := r\<rparr>) s = commonResumeList g s"
  unfolding commonResumeList_def Let_def
  by (simp cong del: if_weak_cong prod.case_cong_weak cong: if_cong prod.case_cong)

lemma nested_resume_hard:
  "hard_resume n \<Longrightarrow> \<not> (toBeResumed n \<and> suspendOnStart n) \<Longrightarrow> nested_resume n = n"
  by (auto simp add: hard_resume_def nested_resume_def)

text \<open>
  C10. Let the running lists be well formed, let no node have both flags, and let the
  allocations and slot reads succeed. Then \<^verbatim>\<open>commonResumeList\<close> returns, and every node
  that it puts on the request list (not a debug thread, \<open>suspendCount = 1\<close>,
  \<open>toBeResumed\<close>) has afterwards its count decremented, \<open>toBeResumed\<close> cleared and
  \<open>frameGeneration\<close> incremented. Nothing is assumed about the code that
  \<^verbatim>\<open>ResumeThreadList\<close> returns nor about its \<^verbatim>\<open>results\<close> array, and the whole function is
  the same whatever that array holds: it is never read.
\<close>

theorem commonResumeList_accounting:
  assumes rt: "\<forall>tr t'. jvmti g tr (GetThreadLocalStorage t') = JVMTI_ERROR_NONE"
    and alloc: "\<forall>tr k. jvmti g tr (jvmtiAllocate k) = JVMTI_ERROR_NONE"
    and ok: "running_ok g s"
    and flags: "\<forall>a\<in>set (runningThreads s @ runningVThreads s).
                  case heap s a of None \<Rightarrow> False | Some n \<Rightarrow> \<not> (toBeResumed n \<and> suspendOnStart n)"
    and small: "length (runningThreads s @ runningVThreads s) < 2 ^ 31"
  shows "\<exists>e s'. commonResumeList g s = Some (e, s')
      \<and> (\<forall>a\<in>set (runningThreads s @ runningVThreads s). \<forall>n.
            heap s a = Some n \<longrightarrow> hard_resume n \<longrightarrow> heap s' a = Some (resumed n))
      \<and> (\<forall>r. commonResumeList (g\<lparr>list_results := r\<rparr>) s = commonResumeList g s)"
proof -
  define R where "R = runningThreads s"
  define V where "V = runningVThreads s"
  define xs where "xs = R @ V"
  define as where "as = filter (hard_at s) xs"
  define k where "k = length as"
  have dist: "distinct xs" using ok by (simp add: running_ok_def xs_def R_def V_def)
  have nodes: "\<forall>a\<in>set xs. heap s a \<noteq> None"
    using flags by (auto simp add: xs_def R_def V_def split: option.splits)
  have flx: "\<forall>a\<in>set xs. case heap s a of None \<Rightarrow> False | Some n \<Rightarrow> \<not> (toBeResumed n \<and> suspendOnStart n)"
    using flags by (simp add: xs_def R_def V_def)
  have nodesR: "\<forall>a\<in>set R. heap s a \<noteq> None" and nodesV: "\<forall>a\<in>set V. heap s a \<noteq> None"
    using nodes by (simp_all add: xs_def)
  have klen: "k \<le> length xs" by (simp add: k_def as_def)
  then have ksmall: "k < 2 ^ 31" using small by (simp add: xs_def R_def V_def)
  have tlR: "thread_list L_runningThreads s = R" and tlV: "thread_list L_runningVThreads s = V"
    by (simp_all add: thread_list_def R_def V_def)
  \<comment> \<open>the counting pass\<close>
  have c1: "enumerateOverThreadList L_runningThreads resumeCountHelper 0 s
      = Some (JVMTI_ERROR_NONE, of_nat (length (filter (hard_at s) R)), s)"
    using resumeCount_enum [OF nodesR, of 0] by (simp add: enumerateOverThreadList_def tlR)
  have c2: "enumerateOverThreadList L_runningVThreads resumeCountHelper (of_nat (length (filter (hard_at s) R))) s
      = Some (JVMTI_ERROR_NONE, of_nat k, s)"
    using resumeCount_enum [OF nodesV, of "of_nat (length (filter (hard_at s) R))"]
    by (simp add: enumerateOverThreadList_def tlV k_def as_def xs_def)
  have ind: "\<forall>r. commonResumeList (g\<lparr>list_results := r\<rparr>) s = commonResumeList g s"
    by (simp add: commonResumeList_list_results)
  show ?thesis
  proof (cases "k = 0")
    case True
    obtain s3 where s3: "enumerate_from resumeCopyHelper R None s = Some (JVMTI_ERROR_NONE, None, s3)"
      "\<forall>l. thread_list l s3 = thread_list l s" "\<forall>a. heap s a \<noteq> None \<longrightarrow> heap s3 a \<noteq> None"
      using resumeCopy_enum_None [OF nodesR] by blast
    have "\<forall>a\<in>set V. heap s3 a \<noteq> None" using nodesV s3(3) by simp
    then obtain s4 where s4: "enumerate_from resumeCopyHelper V None s3 = Some (JVMTI_ERROR_NONE, None, s4)"
      using resumeCopy_enum_None [of V s3] by blast
    have res: "commonResumeList g s = Some (JVMTI_ERROR_NONE, s4)"
      using c1 c2 True s3(1,2) s4 tlR tlV
      by (simp add: commonResumeList_def enumerateOverThreadList_def)
    have none: "\<forall>a\<in>set xs. \<forall>n. heap s a = Some n \<longrightarrow> \<not> hard_resume n"
    proof (intro ballI allI impI)
      fix a n
      assume a: "a \<in> set xs" and h: "heap s a = Some n"
      show "\<not> hard_resume n"
      proof
        assume "hard_resume n"
        then have "a \<in> set as" using a h by (simp add: as_def hard_at_def)
        then show False using True by (simp add: k_def)
      qed
    qed
    show ?thesis
      using res none ind by (simp add: xs_def R_def V_def)
  next
    case False
    have un: "unat (of_nat k :: jint) = k" using ksmall by (rule unat_count)
    have nz: "(of_nat k :: jint) \<noteq> 0"
    proof
      assume "(of_nat k :: jint) = 0"
      then have "unat (of_nat k :: jint) = 0" by simp
      then show False using un False by simp
    qed
    let ?s4 = "emit (jvmtiAllocate k) (emit (jvmtiAllocate k) s)"
    have fl4: "\<forall>a\<in>set xs. case heap ?s4 a of None \<Rightarrow> False | Some n \<Rightarrow> \<not> (toBeResumed n \<and> suspendOnStart n)"
      using flags by (simp add: xs_def R_def V_def)
    have fl4R: "\<forall>a\<in>set R. case heap ?s4 a of None \<Rightarrow> False | Some n \<Rightarrow> \<not> (toBeResumed n \<and> suspendOnStart n)"
      using fl4 by (simp add: xs_def)
    have distR: "distinct R" using dist by (simp add: xs_def)
    have eR: "enumerate_from resumeCopyHelper R (Some []) ?s4
        = Some (JVMTI_ERROR_NONE, Some ([] @ map (thread_at ?s4) (filter (hard_at ?s4) R)),
                upd_nodes nested_resume R ?s4)"
      using resumeCopy_enum [OF distR fl4R] .
    have eX: "enumerate_from resumeCopyHelper xs (Some []) ?s4
        = Some (JVMTI_ERROR_NONE, Some ([] @ map (thread_at ?s4) (filter (hard_at ?s4) xs)),
                upd_nodes nested_resume xs ?s4)"
      using resumeCopy_enum [OF dist fl4] .
    let ?s6 = "upd_nodes nested_resume xs ?s4"
    have eV: "enumerate_from resumeCopyHelper V (Some (map (thread_at s) (filter (hard_at s) R)))
                (upd_nodes nested_resume R ?s4)
        = Some (JVMTI_ERROR_NONE, Some (map (thread_at s) as), ?s6)"
      using eX eR by (simp add: xs_def enumerate_from_append as_def)
    let ?req = "map (thread_at s) as"
    let ?s7 = "emit (ResumeThreadList ?req) ?s6"
    have distas: "distinct as" using dist by (simp add: as_def)
    have hard_nodes: "\<forall>a\<in>set as. \<exists>n. heap s a = Some n \<and> hard_resume n \<and> heap ?s7 a = Some n
        \<and> tls s (thread n) = Some a
        \<and> list n = Some (if isVThread g (thread n) then L_runningVThreads else L_runningThreads)"
    proof
      fix a
      assume a: "a \<in> set as"
      then have ax: "a \<in> set xs" and ha: "hard_at s a" by (simp_all add: as_def)
      then obtain n where n: "heap s a = Some n" "hard_resume n"
        by (auto simp add: hard_at_def split: option.splits)
      have "\<not> (toBeResumed n \<and> suspendOnStart n)"
        using bspec [OF flx ax] n(1) by simp
      then have nr: "nested_resume n = n" using n(2) by (intro nested_resume_hard)
      have h7: "heap ?s7 a = Some n" using ax n(1) nr by simp
      have reg: "tls s (thread n) = Some a
        \<and> list n = Some (if isVThread g (thread n) then L_runningVThreads else L_runningThreads)"
        using ok ax n(1) by (auto simp add: running_ok_def xs_def R_def V_def)
      show "\<exists>n. heap s a = Some n \<and> hard_resume n \<and> heap ?s7 a = Some n
        \<and> tls s (thread n) = Some a
        \<and> list n = Some (if isVThread g (thread n) then L_runningVThreads else L_runningThreads)"
        using n h7 reg by blast
    qed
    have req7: "map (thread_at ?s7) as = ?req"
    proof (rule map_cong [OF refl])
      fix a
      assume "a \<in> set as"
      then obtain n where "heap s a = Some n" "heap ?s7 a = Some n"
        using hard_nodes by blast
      then show "thread_at ?s7 a = thread_at s a" by (simp add: thread_at_def)
    qed
    have pre7: "\<forall>a\<in>set as. case heap ?s7 a of None \<Rightarrow> False
        | Some n \<Rightarrow> tls ?s7 (thread n) = Some a
            \<and> list n = Some (if isVThread g (thread n) then L_runningVThreads else L_runningThreads)"
    proof
      fix a
      assume "a \<in> set as"
      then obtain n where n: "heap ?s7 a = Some n" "tls s (thread n) = Some a"
        "list n = Some (if isVThread g (thread n) then L_runningVThreads else L_runningThreads)"
        using hard_nodes by blast
      have "tls ?s7 = tls s" by simp
      then show "case heap ?s7 a of None \<Rightarrow> False
        | Some n \<Rightarrow> tls ?s7 (thread n) = Some a
            \<and> list n = Some (if isVThread g (thread n) then L_runningVThreads else L_runningThreads)"
        using n by (simp only: option.case)
    qed
    obtain s8 where s8: "commonResumeList_loop g (map (thread_at ?s7) as) ?s7 = Some s8"
      "\<forall>b. heap s8 b = (if b \<in> set as then map_option resumed (heap ?s7 b) else heap ?s7 b)"
      using resumeList_loop [OF rt distas pre7] by blast
    have loop: "commonResumeList_loop g ?req ?s7 = Some s8"
      using s8(1) unfolding req7 .
    let ?e = "jvmti g (trace ?s6) (ResumeThreadList ?req)"
    let ?s' = "emit (debugMonitorNotifyAll threadLock) (emit jvmtiDeallocate (emit jvmtiDeallocate s8))"
    have lenreq: "length ?req = k" by (simp add: k_def)
    have res: "commonResumeList g s = Some (?e, ?s')"
      using c1 c2 nz un alloc eR eV loop tlR tlV
      by (simp add: commonResumeList_def enumerateOverThreadList_def newArray_def jvmti_call_def
          array_of_full [OF lenreq] Let_def)
    have acc: "\<forall>a\<in>set xs. \<forall>n. heap s a = Some n \<longrightarrow> hard_resume n \<longrightarrow> heap ?s' a = Some (resumed n)"
    proof (intro ballI allI impI)
      fix a n
      assume ax: "a \<in> set xs" and h: "heap s a = Some n" and hr: "hard_resume n"
      then have a: "a \<in> set as" by (simp add: as_def hard_at_def)
      then have "heap ?s7 a = Some n" using hard_nodes h by auto
      then have "heap s8 a = Some (resumed n)" using s8(2) a by simp
      then show "heap ?s' a = Some (resumed n)" by simp
    qed
    show ?thesis
      using res acc ind by (simp add: xs_def R_def V_def)
  qed
qed

text \<open>The runtime reports a failure for thread 7 in \<^verbatim>\<open>results\<close>; the node is accounted as resumed.\<close>

theorem commonResumeList_accounting_witness:
  "list_results g_listfail (trace s_hard) (ResumeThreadList [7]) = [JVMTI_ERROR_INVALID_THREAD]
   \<and> map_option hard_resume (heap s_hard 1) = Some True
   \<and> (\<exists>e s'. commonResumeList g_listfail s_hard = Some (e, s')
         \<and> map_option suspendCount (heap s' 1) = Some 0
         \<and> map_option toBeResumed (heap s' 1) = Some False
         \<and> map_option frameGeneration (heap s' 1) = Some 1)"
proof -
  let ?n = "zero_node\<lparr>thread := 7, list := Some L_runningThreads, suspendCount := 1, toBeResumed := True\<rparr>"
  have h: "heap s_hard 1 = Some ?n" "runningThreads s_hard = [1]" "runningVThreads s_hard = []"
    "tls s_hard 7 = Some 1"
    by (simp_all add: s_hard_def threadControl_initialize_def emit_def set_node_def)
  have hr: "hard_resume ?n"
    by (simp add: hard_resume_def zero_node_def)
  have rt: "\<forall>tr t'. jvmti g_listfail tr (GetThreadLocalStorage t') = JVMTI_ERROR_NONE"
    and alloc: "\<forall>tr k. jvmti g_listfail tr (jvmtiAllocate k) = JVMTI_ERROR_NONE"
    by (simp_all add: g_listfail_def g_ok_def)
  have ok: "running_ok g_listfail s_hard"
    using h by (simp add: running_ok_def zero_node_def g_listfail_def g_ok_def)
  have flags: "\<forall>a\<in>set (runningThreads s_hard @ runningVThreads s_hard).
      case heap s_hard a of None \<Rightarrow> False | Some n \<Rightarrow> \<not> (toBeResumed n \<and> suspendOnStart n)"
    using h by (simp add: zero_node_def)
  have small: "length (runningThreads s_hard @ runningVThreads s_hard) < 2 ^ 31"
    using h by simp
  obtain e s' where r: "commonResumeList g_listfail s_hard = Some (e, s')"
    "\<forall>a\<in>set (runningThreads s_hard @ runningVThreads s_hard). \<forall>n.
        heap s_hard a = Some n \<longrightarrow> hard_resume n \<longrightarrow> heap s' a = Some (resumed n)"
    using commonResumeList_accounting [OF rt alloc ok flags small] by blast
  have "heap s' 1 = Some (resumed ?n)"
    using r(2) h hr by simp
  then have "map_option suspendCount (heap s' 1) = Some 0
         \<and> map_option toBeResumed (heap s' 1) = Some False
         \<and> map_option frameGeneration (heap s' 1) = Some 1"
    by (simp add: resumed_def zero_node_def)
  moreover have "list_results g_listfail (trace s_hard) (ResumeThreadList [7]) = [JVMTI_ERROR_INVALID_THREAD]"
    by (simp add: g_listfail_def)
  ultimately show ?thesis
    using r(1) h(1) hr by auto
qed

subsection \<open>Debug threads are left alone\<close>

text \<open>
  The three operations on one node return success at once for a debug thread, without a
  call and without a change (step 2 of the per-thread suspend and of the resume).
\<close>

lemma debug_node_ignored:
  assumes "heap s node = Some n" and "isDebugThread n"
  shows "suspendThreadByNode g node s = Some (JVMTI_ERROR_NONE, s)"
    and "deferredSuspendThreadByNode g node s = Some (JVMTI_ERROR_NONE, s)"
    and "resumeThreadByNode g node s = Some (JVMTI_ERROR_NONE, s)"
  using assms
  by (simp_all add: suspendThreadByNode_def deferredSuspendThreadByNode_def resumeThreadByNode_def)

end
